(* ===== verification/Prelude.thy ===== *)
theory Prelude
  imports Main "HOL-Library.Word" "HOL-Library.AList" "HOL-Library.Multiset"
begin

text \<open>
  What every component of the model shares: the result type of fallible code, programs
  that thread a state, the service loop of an actor, and the collections of simplification
  rules the component proofs use.

  A Rust function that returns \<open>Result<T, E>\<close> and may also panic (an \<open>unwrap\<close>, an
  \<open>expect\<close>, a \<open>panic!\<close>) has three outcomes, which are the three constructors of \<open>res\<close>.
  A function that reads and writes a state is a \<open>prog\<close>: it takes the state and gives the
  outcome together with the state it leaves behind, also when it fails or panics half-way.
\<close>

named_theorems prog_simps \<open>evaluation of programs: one rule per combinator and outcome\<close>
named_theorems calm_intros \<open>absence of panics, one rule per combinator and statement\<close>
named_theorems keeps_intros \<open>preservation of an invariant, one rule per combinator\<close>

section \<open>Outcomes\<close>

datatype ('a, 'e) res = Ok 'a | Err 'e | Panic string

type_synonym ('s, 'a, 'e) prog = "'s \<Rightarrow> ('a, 'e) res \<times> 's"

fun is_panic :: "('a, 'e) res \<Rightarrow> bool" where
  "is_panic (Panic m) = True"
| "is_panic r = False"

fun map_err :: "('e \<Rightarrow> 'f) \<Rightarrow> ('a, 'e) res \<Rightarrow> ('a, 'f) res" where
  "map_err f (Ok x) = Ok x"
| "map_err f (Err e) = Err (f e)"
| "map_err f (Panic m) = Panic m"

fun map_ok :: "('a \<Rightarrow> 'b) \<Rightarrow> ('a, 'e) res \<Rightarrow> ('b, 'e) res" where
  "map_ok f (Ok x) = Ok (f x)"
| "map_ok f (Err e) = Err e"
| "map_ok f (Panic m) = Panic m"

fun res_bind :: "('a, 'e) res \<Rightarrow> ('a \<Rightarrow> ('b, 'e) res) \<Rightarrow> ('b, 'e) res" where
  "res_bind (Ok x) f = f x"
| "res_bind (Err e) f = Err e"
| "res_bind (Panic m) f = Panic m"

text \<open>\<open>Option::unwrap\<close> and \<open>Option::ok_or\<close>.\<close>

fun unwrap :: "'a option \<Rightarrow> ('a, 'e) res" where
  "unwrap (Some x) = Ok x"
| "unwrap None = Panic ''called `Option::unwrap()` on a `None` value''"

fun ok_or :: "'e \<Rightarrow> 'a option \<Rightarrow> ('a, 'e) res" where
  "ok_or e (Some x) = Ok x"
| "ok_or e None = Err e"

text \<open>Collecting the results of a list of fallible conversions stops at the first failure.\<close>

fun collect :: "('a \<Rightarrow> ('b, 'e) res) \<Rightarrow> 'a list \<Rightarrow> ('b list, 'e) res" where
  "collect f [] = Ok []"
| "collect f (x # xs) =
     res_bind (f x) (\<lambda>y. res_bind (collect f xs) (\<lambda>ys. Ok (y # ys)))"

lemma is_panic_iff: "is_panic r \<longleftrightarrow> (\<exists>m. r = Panic m)"
  by (cases r) auto

lemma is_panic_map_err [simp]: "is_panic (map_err f r) = is_panic r"
  by (cases r) auto

lemma is_panic_map_ok [simp]: "is_panic (map_ok f r) = is_panic r"
  by (cases r) auto

lemma unwrap_Ok_iff [simp]: "unwrap v = Ok x \<longleftrightarrow> v = Some x"
  by (cases v) auto

lemma is_panic_unwrap [simp]: "is_panic (unwrap v) \<longleftrightarrow> v = None"
  by (cases v) auto

lemma is_panic_ok_or [simp]: "\<not> is_panic (ok_or e v)"
  by (cases v) auto

lemma is_panic_res_bind:
  "is_panic (res_bind r f) \<longleftrightarrow> is_panic r \<or> (\<exists>x. r = Ok x \<and> is_panic (f x))"
  by (cases r) auto

lemma res_bind_Ok_iff: "res_bind r f = Ok y \<longleftrightarrow> (\<exists>x. r = Ok x \<and> f x = Ok y)"
  by (cases r) auto

lemma ok_or_Ok_iff [simp]: "ok_or e v = Ok x \<longleftrightarrow> v = Some x"
  by (cases v) auto

lemma map_err_Ok_iff [simp]: "map_err f r = Ok x \<longleftrightarrow> r = Ok x"
  by (cases r) auto

lemma collect_Ok_map: "(\<And>x. x \<in> set xs \<Longrightarrow> f (g x) = Ok x) \<Longrightarrow> collect f (map g xs) = Ok xs"
  by (induction xs) auto

lemma collect_length: "collect f xs = Ok ys \<Longrightarrow> length ys = length xs"
proof (induction xs arbitrary: ys)
  case (Cons x xs)
  then show ?case by (cases "f x"; cases "collect f xs") auto
qed simp

section \<open>Programs\<close>

definition ret :: "'a \<Rightarrow> ('s, 'a, 'e) prog" where
  "ret x = (\<lambda>s. (Ok x, s))"

definition give :: "('a, 'e) res \<Rightarrow> ('s, 'a, 'e) prog" where
  \<comment> \<open>an outcome that does not depend on the state\<close>
  "give r = (\<lambda>s. (r, s))"

definition and_then :: "('s, 'a, 'e) prog \<Rightarrow> ('a \<Rightarrow> ('s, 'b, 'e) prog) \<Rightarrow> ('s, 'b, 'e) prog" where
  \<comment> \<open>the \<open>?\<close> operator: an error or a panic leaves the function at once\<close>
  "and_then p f = (\<lambda>s. case p s of
      (Ok x, s') \<Rightarrow> f x s'
    | (Err e, s') \<Rightarrow> (Err e, s')
    | (Panic m, s') \<Rightarrow> (Panic m, s'))"

definition attempt :: "('s, 'a, 'e) prog \<Rightarrow> (('a, 'e) res \<Rightarrow> ('s, 'b, 'f) prog) \<Rightarrow> ('s, 'b, 'f) prog" where
  \<comment> \<open>\<open>match p.await { Ok(x) => .., Err(e) => .. }\<close>: the error is inspected, a panic is not\<close>
  "attempt p f = (\<lambda>s. case p s of
      (Ok x, s') \<Rightarrow> f (Ok x) s'
    | (Err e, s') \<Rightarrow> f (Err e) s'
    | (Panic m, s') \<Rightarrow> (Panic m, s'))"

definition with_err :: "('e \<Rightarrow> 'f) \<Rightarrow> ('s, 'a, 'e) prog \<Rightarrow> ('s, 'a, 'f) prog" where
  "with_err f p = (\<lambda>s. case p s of (r, s') \<Rightarrow> (map_err f r, s'))"

definition expect :: "string \<Rightarrow> ('s, 'a, 'e) prog \<Rightarrow> ('s, 'a, 'f) prog" where
  "expect msg p = (\<lambda>s. case p s of
      (Ok x, s') \<Rightarrow> (Ok x, s')
    | (Err e, s') \<Rightarrow> (Panic msg, s')
    | (Panic m, s') \<Rightarrow> (Panic m, s'))"

definition reads :: "('s \<Rightarrow> 'a) \<Rightarrow> ('s, 'a, 'e) prog" where
  "reads f = (\<lambda>s. (Ok (f s), s))"

definition writes :: "('s \<Rightarrow> 's) \<Rightarrow> ('s, unit, 'e) prog" where
  "writes f = (\<lambda>s. (Ok (), f s))"

lemma ret_run [simp]: "ret x s = (Ok x, s)"
  by (simp add: ret_def)

lemma give_run [simp]: "give r s = (r, s)"
  by (simp add: give_def)

lemma reads_run [simp]: "reads f s = (Ok (f s), s)"
  by (simp add: reads_def)

lemma writes_run [simp]: "writes f s = (Ok (), f s)"
  by (simp add: writes_def)

text \<open>Programs are evaluated by unfolding the combinators over known outcomes.\<close>

declare and_then_def [prog_simps] attempt_def [prog_simps] with_err_def [prog_simps]
  expect_def [prog_simps]

text \<open>A program on a part of the state, run on the whole of it.\<close>

definition zoom :: "('s \<Rightarrow> 't) \<Rightarrow> ('t \<Rightarrow> 's \<Rightarrow> 's) \<Rightarrow> ('t, 'a, 'e) prog \<Rightarrow> ('s, 'a, 'e) prog" where
  "zoom part put p = (\<lambda>s. case p (part s) of (r, t) \<Rightarrow> (r, put t s))"

declare zoom_def [prog_simps]

section \<open>Invariants and absence of panics\<close>

text \<open>
  \<open>keeps I p\<close>: the program leaves \<open>I\<close> true whatever its outcome. \<open>calm I p\<close>: started
  where \<open>I\<close> holds it does not panic, and leaves \<open>I\<close> true.
\<close>

definition keeps :: "('s \<Rightarrow> bool) \<Rightarrow> ('s, 'a, 'e) prog \<Rightarrow> bool" where
  "keeps I p \<longleftrightarrow> (\<forall>s. I s \<longrightarrow> I (snd (p s)))"

definition calm :: "('s \<Rightarrow> bool) \<Rightarrow> ('s, 'a, 'e) prog \<Rightarrow> bool" where
  "calm I p \<longleftrightarrow> (\<forall>s. I s \<longrightarrow> I (snd (p s)) \<and> \<not> is_panic (fst (p s)))"

lemma keepsD: "keeps I p \<Longrightarrow> I s \<Longrightarrow> p s = (r, s') \<Longrightarrow> I s'"
  unfolding keeps_def by (metis snd_conv)

lemma keepsI: "(\<And>s r s'. I s \<Longrightarrow> p s = (r, s') \<Longrightarrow> I s') \<Longrightarrow> keeps I p"
  unfolding keeps_def by (metis prod.collapse)

lemma calmD: "calm I p \<Longrightarrow> I s \<Longrightarrow> p s = (r, s') \<Longrightarrow> I s' \<and> \<not> is_panic r"
  unfolding calm_def by (metis fst_conv snd_conv)

lemma calm_keeps: "calm I p \<Longrightarrow> keeps I p"
  by (simp add: calm_def keeps_def)

lemma keeps_Pair [keeps_intros, simp]: "keeps I (Pair r)"
  by (simp add: keeps_def)

lemma keeps_ret [keeps_intros]: "keeps I (ret x)"
  by (simp add: keeps_def)

lemma keeps_give [keeps_intros]: "keeps I (give r)"
  by (simp add: keeps_def)

lemma keeps_reads [keeps_intros]: "keeps I (reads f)"
  by (simp add: keeps_def)

lemma keeps_writes [keeps_intros]: "(\<And>s. I s \<Longrightarrow> I (f s)) \<Longrightarrow> keeps I (writes f)"
  by (simp add: keeps_def)

lemma keeps_and_then [keeps_intros]:
  assumes "keeps I p" and "\<And>x. keeps I (f x)"
  shows "keeps I (and_then p f)"
proof (rule keepsI)
  fix s r s'
  assume s: "I s" and run: "and_then p f s = (r, s')"
  obtain q t where p: "p s = (q, t)" by fastforce
  from keepsD [OF assms(1) s p] have "I t" .
  with p run show "I s'" using keepsD [OF assms(2)]
    by (cases q) (auto simp: and_then_def)
qed

lemma keeps_and_then_value:
  assumes "keeps I p" and "\<And>x s s'. p s = (Ok x, s') \<Longrightarrow> keeps I (f x)"
  shows "keeps I (and_then p f)"
proof (rule keepsI)
  fix s r s'
  assume s: "I s" and run: "and_then p f s = (r, s')"
  obtain q t where p: "p s = (q, t)" by fastforce
  from keepsD [OF assms(1) s p] have "I t" .
  with p run show "I s'" using keepsD [OF assms(2)]
    by (cases q) (auto simp: and_then_def)
qed

lemma keeps_attempt [keeps_intros]:
  assumes "keeps I p" and "\<And>r. keeps I (f r)"
  shows "keeps I (attempt p f)"
proof (rule keepsI)
  fix s r s'
  assume s: "I s" and run: "attempt p f s = (r, s')"
  obtain q t where p: "p s = (q, t)" by fastforce
  from keepsD [OF assms(1) s p] have "I t" .
  with p run show "I s'" using keepsD [OF assms(2)]
    by (cases q) (auto simp: attempt_def)
qed

lemma keeps_with_err [keeps_intros]: "keeps I p \<Longrightarrow> keeps I (with_err f p)"
  by (auto simp: keeps_def with_err_def split: prod.splits)

lemma keeps_expect [keeps_intros]:
  assumes "keeps I p"
  shows "keeps I (expect m p)"
proof (rule keepsI)
  fix s r s'
  assume s: "I s" and run: "expect m p s = (r, s')"
  obtain q t where p: "p s = (q, t)" by fastforce
  from keepsD [OF assms s p] p run show "I s'" by (cases q) (auto simp: expect_def)
qed

lemma keeps_conj: "keeps I p \<Longrightarrow> keeps J p \<Longrightarrow> keeps (\<lambda>s. I s \<and> J s) p"
  by (simp add: keeps_def)

lemma keeps_zoom [keeps_intros]:
  assumes "keeps J p" and "\<And>s. I s \<Longrightarrow> J (part s)" and "\<And>s t. I s \<Longrightarrow> J t \<Longrightarrow> I (put t s)"
  shows "keeps I (zoom part put p)"
proof (rule keepsI)
  fix s r s'
  assume s: "I s" and run: "zoom part put p s = (r, s')"
  obtain q t where p: "p (part s) = (q, t)" by fastforce
  from keepsD [OF assms(1) assms(2) [OF s] p] p run show "I s'"
    using assms(3) [OF s] by (auto simp: zoom_def)
qed

lemma keeps_if [keeps_intros]: "keeps I p \<Longrightarrow> keeps I q \<Longrightarrow> keeps I (if b then p else q)"
  by simp

text \<open>The same for one run: an \<open>and_then\<close> panics only if one of its two parts does.\<close>

definition no_panic :: "('a, 'e) res \<times> 's \<Rightarrow> bool" where
  "no_panic x \<longleftrightarrow> \<not> is_panic (fst x)"

lemma no_panic_pair [simp]: "no_panic (r, s) \<longleftrightarrow> \<not> is_panic r"
  by (simp add: no_panic_def)

lemma no_panicD: "no_panic (p s) \<Longrightarrow> p s = (r, s') \<Longrightarrow> \<not> is_panic r"
  by (simp add: no_panic_def)

lemma calm_iff: "calm I p \<longleftrightarrow> keeps I p \<and> (\<forall>s. I s \<longrightarrow> no_panic (p s))"
  by (auto simp: calm_def keeps_def no_panic_def)

lemma and_then_no_panic [calm_intros]:
  "no_panic (p s) \<Longrightarrow> (\<And>x s'. p s = (Ok x, s') \<Longrightarrow> no_panic (f x s')) \<Longrightarrow> no_panic (and_then p f s)"
  by (auto simp: no_panic_def and_then_def split: prod.splits res.splits)

lemma attempt_no_panic [calm_intros]:
  "no_panic (p s) \<Longrightarrow> (\<And>r s'. p s = (r, s') \<Longrightarrow> no_panic (f r s')) \<Longrightarrow> no_panic (attempt p f s)"
  by (auto simp: no_panic_def attempt_def split: prod.splits res.splits)

lemma with_err_no_panic [calm_intros]: "no_panic (p s) \<Longrightarrow> no_panic (with_err f p s)"
  by (cases "p s") (simp add: no_panic_def with_err_def)

lemma and_then_Ok_iff:
  "and_then p f s = (Ok y, s') \<longleftrightarrow> (\<exists>x s1. p s = (Ok x, s1) \<and> f x s1 = (Ok y, s'))"
  by (auto simp: and_then_def split: prod.splits res.splits)

lemma map_ok_Ok_iff: "map_ok f r = Ok y \<longleftrightarrow> (\<exists>x. r = Ok x \<and> y = f x)"
  by (cases r) auto

lemma with_err_Ok_iff [simp]: "with_err f p s = (Ok x, s') \<longleftrightarrow> p s = (Ok x, s')"
  by (cases "p s") (auto simp: with_err_def)

lemma zoom_no_panic [calm_intros]: "no_panic (p (part s)) \<Longrightarrow> no_panic (zoom part put p s)"
  by (cases "p (part s)") (simp add: no_panic_def zoom_def)

section \<open>The service loop of an actor\<close>

text \<open>
  The daemon, the device service and the vpn session service are tasks that receive one
  message after the other and handle each to its end before the next. \<open>serve\<close> handles a
  list of messages; an error is a result of the handler, a panic ends the task.
\<close>

fun serve :: "('m \<Rightarrow> ('s, unit, 'e) prog) \<Rightarrow> 'm list \<Rightarrow> ('s, unit, 'e) prog" where
  "serve handle [] = ret ()"
| "serve handle (m # ms) = attempt (handle m) (\<lambda>_. serve handle ms)"

text \<open>
  Which messages may arrive depends on what the rest of the world does; \<open>admissible\<close> says what
  a handler relies on.
\<close>

locale actor =
  fixes handle :: "'m \<Rightarrow> ('s, unit, 'e) prog"
    and good :: "'s \<Rightarrow> bool"
    and admissible :: "'m \<Rightarrow> bool"
  assumes handle_keeps: "admissible m \<Longrightarrow> keeps good (handle m)"
begin

lemma serve_keeps: "\<forall>m \<in> set ms. admissible m \<Longrightarrow> keeps good (serve handle ms)"
  by (induction ms) (auto intro: keeps_intros handle_keeps)

lemma serve_good:
  "\<forall>m \<in> set ms. admissible m \<Longrightarrow> good s \<Longrightarrow> serve handle ms s = (r, s') \<Longrightarrow> good s'"
  using keepsD [OF serve_keeps] .

end

locale calm_actor = actor +
  assumes handle_calm: "admissible m \<Longrightarrow> calm good (handle m)"
begin

lemma serve_calm: "\<forall>m \<in> set ms. admissible m \<Longrightarrow> calm good (serve handle ms)"
proof (induction ms)
  case Nil
  show ?case by (simp add: calm_def)
next
  case (Cons m ms)
  then have m: "calm good (handle m)" and ms: "calm good (serve handle ms)"
    by (simp_all add: handle_calm)
  have "no_panic (serve handle (m # ms) s)" if "good s" for s
    unfolding serve.simps
  proof (rule attempt_no_panic)
    show "no_panic (handle m s)" using m that by (simp add: calm_iff)
  next
    fix r s'
    assume "handle m s = (r, s')"
    then have "good s'" using calmD [OF m that] by simp
    then show "no_panic (serve handle ms s')" using ms by (simp add: calm_iff)
  qed
  moreover have "keeps good (serve handle (m # ms))"
    using m ms by (auto intro: keeps_intros calm_keeps)
  ultimately show ?case by (simp add: calm_iff)
qed

end

section \<open>Maps that hash keys to values\<close>

text \<open>
  A \<open>HashMap\<close> is an association list with distinct keys. Its iteration order is not
  specified; operations that iterate take the order as a parameter. Two components keep
  such a map (the notifications of the daemon, the watchers of the session service); what
  both rely on is stated once.
\<close>

locale keyed_store =
  fixes put :: "'k \<Rightarrow> 'v \<Rightarrow> 's \<Rightarrow> 's"
    and del :: "'k \<Rightarrow> 's \<Rightarrow> 's"
    and look :: "'s \<Rightarrow> 'k \<Rightarrow> 'v option"
    and wf :: "'s \<Rightarrow> bool"
  assumes look_put: "wf s \<Longrightarrow> look (put k v s) = (look s)(k \<mapsto> v)"
    and look_del: "wf s \<Longrightarrow> look (del k s) = (look s)(k := None)"
    and wf_put: "wf s \<Longrightarrow> wf (put k v s)"
    and wf_del: "wf s \<Longrightarrow> wf (del k s)"
begin

lemma put_same: "wf s \<Longrightarrow> look (put k v s) k = Some v"
  by (simp add: look_put)

lemma put_other: "wf s \<Longrightarrow> j \<noteq> k \<Longrightarrow> look (put k v s) j = look s j"
  by (simp add: look_put)

lemma put_twice: "wf s \<Longrightarrow> look (put k v (put k w s)) = look (put k v s)"
  by (simp add: look_put wf_put)

lemma put_then_del: "wf s \<Longrightarrow> look (del k (put k v s)) = (look s)(k := None)"
  by (simp add: look_put look_del wf_put)

lemma del_absent: "wf s \<Longrightarrow> look s k = None \<Longrightarrow> look (del k s) = look s"
  by (auto simp: look_del)

end

section \<open>Systems that run down\<close>

text \<open>
  A system whose steps are a partial function of a label. Some of its steps are its own, the others its
  environment's; when every step of its own lowers a weight, it does only finitely many of them before
  it needs its environment again.
\<close>

fun run_steps :: "('l \<Rightarrow> 's \<Rightarrow> 's option) \<Rightarrow> 'l list \<Rightarrow> 's \<Rightarrow> 's option" where
  "run_steps step [] s = Some s"
| "run_steps step (l # ls) s = Option.bind (step l s) (run_steps step ls)"

lemma run_steps_append:
  "run_steps step (ls @ ms) s = Option.bind (run_steps step ls s) (run_steps step ms)"
proof (induction ls arbitrary: s)
  case (Cons l ls)
  then show ?case by (cases "step l s") simp_all
qed simp

lemma run_steps_keep:
  assumes "run_steps step ls s = Some s'" and "J s"
    and "\<And>l s s'. l \<in> set ls \<Longrightarrow> J s \<Longrightarrow> step l s = Some s' \<Longrightarrow> J s'"
  shows "J s'"
  using assms by (induction ls arbitrary: s) (auto simp: Option.bind_eq_Some_conv)

locale weighted_system =
  fixes step :: "'l \<Rightarrow> 's \<Rightarrow> 's option"
    and own :: "'l \<Rightarrow> bool"
    and weight :: "'s \<Rightarrow> nat"
    and good :: "'s \<Rightarrow> bool"
  assumes good_step: "good s \<Longrightarrow> step l s = Some s' \<Longrightarrow> good s'"
    and own_lowers: "step l s = Some s' \<Longrightarrow> own l \<Longrightarrow> weight s' < weight s"
begin

definition idle :: "'s \<Rightarrow> bool" where
  "idle s \<longleftrightarrow> (\<forall>l. own l \<longrightarrow> step l s = None)"

lemma good_run: "run_steps step ls s = Some s' \<Longrightarrow> good s \<Longrightarrow> good s'"
  by (rule run_steps_keep) (auto intro: good_step)

lemma own_run_bounded:
  "run_steps step ls s = Some s' \<Longrightarrow> list_all own ls \<Longrightarrow> length ls + weight s' \<le> weight s"
proof (induction ls arbitrary: s)
  case (Cons l ls)
  then obtain s1 where "step l s = Some s1" and "run_steps step ls s1 = Some s'"
    by (auto simp: Option.bind_eq_Some_conv)
  with Cons own_lowers [of l s s1] show ?case by fastforce
qed simp

lemma runs_to_idle: "\<exists>ls s'. run_steps step ls s = Some s' \<and> list_all own ls \<and> idle s'"
proof (induction "weight s" arbitrary: s rule: less_induct)
  case less
  show ?case
  proof (cases "idle s")
    case True
    then show ?thesis by (intro exI [of _ "[]"]) simp
  next
    case False
    then obtain l s1 where "own l" and l: "step l s = Some s1" by (auto simp: idle_def)
    with less [OF own_lowers] obtain ls s' where "run_steps step ls s1 = Some s'" "list_all own ls" "idle s'"
      by blast
    with l \<open>own l\<close> show ?thesis by (intro exI [of _ "l # ls"]) simp
  qed
qed

end

end
