(* ===== verification/Net.thy ===== *)
theory Net
  imports Prelude
begin

text \<open>
  The values of the Rust standard library that the program stores as text: unsigned decimal
  numbers and \<open>std::net::Ipv4Addr\<close>, with the text \<open>Display\<close> writes and the grammar
  \<open>FromStr\<close> reads (four groups of one to three decimal digits, none with a leading zero,
  none above 255). \<open>SocketAddr\<close> is kept as data; its text form is a parameter of the model.
\<close>

section \<open>Decimal numbers\<close>

definition digit_char :: "nat \<Rightarrow> char" where
  "digit_char d = char_of (48 + d)"

definition char_digit :: "char \<Rightarrow> nat option" where
  "char_digit c = (let n = of_char c in if (48::nat) \<le> n \<and> n \<le> 57 then Some (n - 48) else None)"

fun show_nat :: "nat \<Rightarrow> string" where
  "show_nat n = (if n < 10 then [digit_char n] else show_nat (n div 10) @ [digit_char (n mod 10)])"

declare show_nat.simps [simp del]

fun read_digits :: "nat \<Rightarrow> string \<Rightarrow> nat option" where
  "read_digits acc [] = Some acc"
| "read_digits acc (c # cs) =
     (case char_digit c of None \<Rightarrow> None | Some d \<Rightarrow> read_digits (10 * acc + d) cs)"

lemma char_digit_digit_char [simp]: "d < 10 \<Longrightarrow> char_digit (digit_char d) = Some d"
  by (simp add: char_digit_def digit_char_def Let_def)

lemma digit_char_neq_dot [simp]: "d < 10 \<Longrightarrow> digit_char d \<noteq> CHR ''.''"
proof
  assume d: "d < 10" and eq: "digit_char d = CHR ''.''"
  have "char_digit (CHR ''.'') = None" by (simp add: char_digit_def)
  with eq [symmetric] d show False by simp
qed

lemma digit_char_0: "digit_char 0 = CHR ''0''"
  by code_simp

lemma digit_char_zero_iff [simp]: "d < 10 \<Longrightarrow> digit_char d = CHR ''0'' \<longleftrightarrow> d = 0"
proof
  assume d: "d < 10" and eq: "digit_char d = CHR ''0''"
  have "char_digit (CHR ''0'') = Some 0" by (simp add: char_digit_def)
  with eq [symmetric] d show "d = 0" by simp
next
  show "d = 0 \<Longrightarrow> digit_char d = CHR ''0''"
    by (simp only: digit_char_0)
qed

lemma dot_neq_digit_char [simp]: "d < 10 \<Longrightarrow> CHR ''.'' \<noteq> digit_char d"
  using digit_char_neq_dot by metis

lemma read_digits_append:
  "read_digits acc (xs @ ys) =
     (case read_digits acc xs of None \<Rightarrow> None | Some a \<Rightarrow> read_digits a ys)"
  by (induction xs arbitrary: acc) (auto split: option.splits)

lemma read_show_nat: "read_digits 0 (show_nat n) = Some n"
proof (induction n rule: show_nat.induct)
  case (1 n)
  show ?case
  proof (cases "n < 10")
    case True
    then show ?thesis by (subst show_nat.simps) simp
  next
    case False
    with 1 have "read_digits 0 (show_nat (n div 10)) = Some (n div 10)" by simp
    with False show ?thesis
      by (subst show_nat.simps) (simp add: read_digits_append)
  qed
qed

lemma show_nat_no_dot: "CHR ''.'' \<notin> set (show_nat n)"
proof (induction n rule: show_nat.induct)
  case (1 n)
  then show ?case
    by (cases "n < 10") (subst show_nat.simps, simp)+
qed

lemma show_nat_not_Nil [simp]: "show_nat n \<noteq> []"
  by (subst show_nat.simps) simp

lemma show_nat_inject: "show_nat m = show_nat n \<longleftrightarrow> m = n"
  by (metis read_show_nat option.inject)

lemma show_nat_hd_zero: "hd (show_nat n) = CHR ''0'' \<longleftrightarrow> n = 0"
proof (induction n rule: show_nat.induct)
  case (1 n)
  show ?case
  proof (cases "n < 10")
    case True
    then show ?thesis by (subst show_nat.simps) simp
  next
    case False
    with 1 have "hd (show_nat (n div 10)) = CHR ''0'' \<longleftrightarrow> n div 10 = 0" by simp
    with False show ?thesis
      by (subst show_nat.simps) (simp add: div_eq_0_iff)
  qed
qed

lemma show_nat_length_byte:
  assumes "n < 256"
  shows "length (show_nat n) \<le> 3"
proof -
  have "n div 10 div 10 < 10" using assms by simp
  then have "length (show_nat (n div 10 div 10)) = 1"
    by (subst show_nat.simps) simp
  moreover have "length (show_nat (n div 10)) \<le> 1 + length (show_nat (n div 10 div 10))"
    by (subst show_nat.simps) simp
  moreover have "length (show_nat n) \<le> 1 + length (show_nat (n div 10))"
    by (subst show_nat.simps) simp
  ultimately show ?thesis by linarith
qed

lemma show_nat_length_one: "length (show_nat n) = 1 \<Longrightarrow> n < 10"
  by (subst (asm) show_nat.simps) (auto split: if_splits)

section \<open>IPv4 addresses\<close>

type_synonym ipv4 = "32 word"

datatype socket_addr =
    SocketV4 ipv4 "16 word"
  | SocketV6 "128 word" "16 word" "32 word" "32 word"

definition octet :: "ipv4 \<Rightarrow> nat \<Rightarrow> nat" where
  \<comment> \<open>octet \<open>i\<close> of the address, the most significant one first\<close>
  "octet a i = unat (drop_bit (24 - 8 * i) a) mod 256"

definition ipv4_of_octets :: "nat \<Rightarrow> nat \<Rightarrow> nat \<Rightarrow> nat \<Rightarrow> ipv4" where
  "ipv4_of_octets a b c d = of_nat (a * 2 ^ 24 + b * 2 ^ 16 + c * 2 ^ 8 + d)"

definition ipv4_to_string :: "ipv4 \<Rightarrow> string" where
  "ipv4_to_string a = show_nat (octet a 0) @ ''.'' @ show_nat (octet a 1) @ ''.''
     @ show_nat (octet a 2) @ ''.'' @ show_nat (octet a 3)"

definition read_octet :: "string \<Rightarrow> nat option" where
  "read_octet s =
     (if s = [] \<or> 3 < length s \<or> (1 < length s \<and> hd s = CHR ''0'') then None
      else case read_digits 0 s of None \<Rightarrow> None | Some n \<Rightarrow> if n < 256 then Some n else None)"

fun split_dots :: "string \<Rightarrow> string list" where
  "split_dots [] = [[]]"
| "split_dots (c # cs) =
     (if c = CHR ''.'' then [] # split_dots cs
      else case split_dots cs of [] \<Rightarrow> [[c]] | p # ps \<Rightarrow> (c # p) # ps)"

definition ipv4_from_str :: "string \<Rightarrow> ipv4 option" where
  "ipv4_from_str s =
     (case map read_octet (split_dots s) of
        [Some a, Some b, Some c, Some d] \<Rightarrow> Some (ipv4_of_octets a b c d)
      | _ \<Rightarrow> None)"

lemma split_dots_plain: "CHR ''.'' \<notin> set s \<Longrightarrow> split_dots s = [s]"
  by (induction s) auto

lemma split_dots_group: "CHR ''.'' \<notin> set p \<Longrightarrow> split_dots (p @ CHR ''.'' # s) = p # split_dots s"
  by (induction p) auto

lemma read_octet_show: "n < 256 \<Longrightarrow> read_octet (show_nat n) = Some n"
proof -
  assume n: "n < 256"
  have "\<not> (1 < length (show_nat n) \<and> hd (show_nat n) = CHR ''0'')"
  proof
    assume *: "1 < length (show_nat n) \<and> hd (show_nat n) = CHR ''0''"
    then have "n = 0" by (simp add: show_nat_hd_zero)
    with * show False by (simp add: show_nat.simps [of 0])
  qed
  with n show_nat_length_byte [OF n] show ?thesis
    by (simp add: read_octet_def read_show_nat)
qed

lemma octet_bound [simp]: "octet a i < 256"
  by (simp add: octet_def)

lemma octet_eq: "i < 4 \<Longrightarrow> octet a i = unat a div 2 ^ (24 - 8 * i) mod 256"
  unfolding octet_def unat_drop_bit_eq by (simp only: drop_bit_eq_div)

lemma recompose_bytes:
  "n = q * 256 + a \<Longrightarrow> q = r * 256 + b \<Longrightarrow> r = t * 256 + c \<Longrightarrow>
     t * 16777216 + c * 65536 + b * 256 + a = (n::nat)"
  by simp

lemma bytes_of_nat:
  "n div 16777216 * 16777216 + n div 65536 mod 256 * 65536 + n div 256 mod 256 * 256 + n mod 256
     = (n::nat)"
proof -
  have q: "n div 65536 = n div 256 div 256" "n div 16777216 = n div 256 div 256 div 256"
    by (simp_all flip: div_mult2_eq)
  show ?thesis
    unfolding q by (rule recompose_bytes; rule div_mult_mod_eq [symmetric])
qed

lemma ipv4_of_octets_octet: "ipv4_of_octets (octet a 0) (octet a 1) (octet a 2) (octet a 3) = a"
proof -
  have b: "unat a < 2 ^ 32" using unsigned_less [of a] by simp
  have "octet a 0 * 2 ^ 24 + octet a 1 * 2 ^ 16 + octet a 2 * 2 ^ 8 + octet a 3 = unat a"
    using b bytes_of_nat [of "unat a"] by (simp add: octet_eq)
  then show ?thesis by (simp add: ipv4_of_octets_def)
qed

lemma ipv4_text_roundtrip: "ipv4_from_str (ipv4_to_string a) = Some a"
  by (simp add: ipv4_from_str_def ipv4_to_string_def split_dots_group split_dots_plain
      show_nat_no_dot read_octet_show ipv4_of_octets_octet del: One_nat_def)

lemma ipv4_to_string_inject: "ipv4_to_string a = ipv4_to_string b \<longleftrightarrow> a = b"
  by (metis ipv4_text_roundtrip option.inject)

end
