(* ===== verification/Externals.thy ===== *)
theory Externals
  imports Net
begin

text \<open>
  The third-party crates the program calls for values and their text (uuid, chrono,
  std's \<open>SocketAddr\<close> text form, the WireGuard keys of talpid-types, serde's messages) and the one
  choice the database makes on its own, the row an unordered \<open>one()\<close> returns. None of them is
  code of the repository: they are the fields of a record \<open>lib\<close> that the definitions take as
  an argument. What the code relies on are the predicates \<open>uuid_ok\<close>, \<open>sock_ok\<close>, \<open>chrono_ok\<close> and
  \<open>key_ok\<close>: the documented round trips of these crates. \<open>sample_lib\<close> is a concrete library that
  satisfies all of them; witnesses instantiate the record with it.
\<close>

type_synonym uuid = "128 word"
type_synonym wg_key = "256 word"

text \<open>A \<open>DateTime<Utc>\<close> is its instant, in nanoseconds since the epoch.\<close>

type_synonym datetime = int

datatype local_result = Single datetime | NoTime | Ambiguous datetime datetime

record lib =
  uuid_to_string :: "uuid \<Rightarrow> string"
  uuid_parse_str :: "string \<Rightarrow> uuid option"
  sock_to_string :: "socket_addr \<Rightarrow> string"
  sock_from_str :: "string \<Rightarrow> socket_addr option"
  dt_to_rfc3339 :: "datetime \<Rightarrow> string"
  dt_from_str :: "string \<Rightarrow> datetime option"
  dt_timestamp :: "datetime \<Rightarrow> int"
  dt_subsec_nanos :: "datetime \<Rightarrow> 32 word"
  dt_timestamp_opt :: "int \<Rightarrow> 32 word \<Rightarrow> local_result"
  dt_display :: "datetime \<Rightarrow> string"
  key_public :: "wg_key \<Rightarrow> wg_key"
  key_to_base64 :: "wg_key \<Rightarrow> string"
  key_from_base64 :: "string \<Rightarrow> wg_key option"
  error_text :: "string \<Rightarrow> string"  \<comment> \<open>the message of a library's parse error for this input\<close>
  header_value :: "string \<Rightarrow> string option"  \<comment> \<open>\<open>HeaderValue::from\_str\<close>\<close>
  row_choice :: "nat \<Rightarrow> nat"  \<comment> \<open>which of \<open>n\<close> matching rows an unordered query returns\<close>

definition uuid_ok :: "lib \<Rightarrow> bool" where
  "uuid_ok L \<longleftrightarrow> (\<forall>u. uuid_parse_str L (uuid_to_string L u) = Some u)"

definition sock_ok :: "lib \<Rightarrow> bool" where
  "sock_ok L \<longleftrightarrow> (\<forall>a. sock_from_str L (sock_to_string L a) = Some a)"

definition chrono_ok :: "lib \<Rightarrow> bool" where
  "chrono_ok L \<longleftrightarrow>
     (\<forall>t. dt_timestamp_opt L (dt_timestamp L t) (dt_subsec_nanos L t) = Single t
        \<and> unat (dt_subsec_nanos L t) < 2000000000
        \<and> dt_from_str L (dt_to_rfc3339 L t) = Some t)"

definition key_ok :: "lib \<Rightarrow> bool" where
  "key_ok L \<longleftrightarrow> (\<forall>k. key_from_base64 L (key_to_base64 L k) = Some k)"

definition parse_uuid :: "lib \<Rightarrow> string \<Rightarrow> (uuid, 'e) res" where
  \<comment> \<open>\<open>Uuid::parse\_str(..).unwrap()\<close>\<close>
  "parse_uuid L s = (case uuid_parse_str L s of
      Some u \<Rightarrow> Ok u
    | None \<Rightarrow> Panic ''called `Result::unwrap()` on an `Err` value'')"

definition parsed :: "'a option \<Rightarrow> ('a, 'e) res" where
  "parsed v = (case v of
      Some x \<Rightarrow> Ok x
    | None \<Rightarrow> Panic ''called `Result::unwrap()` on an `Err` value'')"

lemma uuid_parse_show [simp]: "uuid_ok L \<Longrightarrow> uuid_parse_str L (uuid_to_string L u) = Some u"
  by (simp add: uuid_ok_def)

lemma uuid_show_inject [simp]:
  "uuid_ok L \<Longrightarrow> uuid_to_string L u = uuid_to_string L v \<longleftrightarrow> u = v"
  by (metis option.inject uuid_ok_def)

lemma parse_uuid_show [simp]: "uuid_ok L \<Longrightarrow> parse_uuid L (uuid_to_string L u) = Ok u"
  by (simp add: parse_uuid_def)

lemma parse_uuid_panics_iff: "is_panic (parse_uuid L s) \<longleftrightarrow> uuid_parse_str L s = None"
  by (simp add: parse_uuid_def split: option.split)

lemma sock_parse_show [simp]: "sock_ok L \<Longrightarrow> sock_from_str L (sock_to_string L a) = Some a"
  by (simp add: sock_ok_def)

lemma key_parse_show [simp]: "key_ok L \<Longrightarrow> key_from_base64 L (key_to_base64 L k) = Some k"
  by (simp add: key_ok_def)

lemma chrono_roundtrip [simp]:
  "chrono_ok L \<Longrightarrow> dt_timestamp_opt L (dt_timestamp L t) (dt_subsec_nanos L t) = Single t"
  "chrono_ok L \<Longrightarrow> dt_from_str L (dt_to_rfc3339 L t) = Some t"
  by (simp_all add: chrono_ok_def)

section \<open>A library that satisfies the laws\<close>

definition bits_text :: "'a::len word \<Rightarrow> string" where
  "bits_text w = map (\<lambda>i. if bit w i then CHR ''1'' else CHR ''0'') [0..<LENGTH('a)]"

definition text_bits :: "string \<Rightarrow> 'a::len word" where
  "text_bits s = horner_sum of_bool 2 (map (\<lambda>c. c = CHR ''1'') s)"

lemma bits_text_length [simp]: "length (bits_text (w :: 'a::len word)) = LENGTH('a)"
  by (simp add: bits_text_def)

lemma text_bits_text [simp]: "text_bits (bits_text w) = w"
proof -
  have "map (\<lambda>c. c = CHR ''1'') (bits_text w) = map (bit w) [0..<LENGTH('a)]"
    by (simp add: bits_text_def comp_def)
  then show ?thesis
    by (simp add: text_bits_def horner_sum_bit_eq_take_bit take_bit_word_eq_self)
qed

fun sample_sock_text :: "socket_addr \<Rightarrow> string" where
  "sample_sock_text (SocketV4 a p) = CHR ''4'' # bits_text a @ bits_text p"
| "sample_sock_text (SocketV6 a p f s) =
     CHR ''6'' # bits_text a @ bits_text p @ bits_text f @ bits_text s"

definition sample_sock_read :: "string \<Rightarrow> socket_addr option" where
  "sample_sock_read s =
     (if s = [] then None
      else if hd s = CHR ''4'' then
        Some (SocketV4 (text_bits (take 32 (tl s))) (text_bits (drop 32 (tl s))))
      else Some (SocketV6 (text_bits (take 128 (tl s))) (text_bits (take 16 (drop 128 (tl s))))
          (text_bits (take 32 (drop 144 (tl s)))) (text_bits (drop 176 (tl s)))))"

lemma sample_sock_roundtrip: "sample_sock_read (sample_sock_text a) = Some a"
  by (cases a) (simp_all add: sample_sock_read_def)

definition sample_time_text :: "datetime \<Rightarrow> string" where
  "sample_time_text t = (if t < 0 then ''-'' @ show_nat (nat (- t)) else ''+'' @ show_nat (nat t))"

definition sample_time_read :: "string \<Rightarrow> datetime option" where
  "sample_time_read s =
     (if s = [] then None
      else map_option (\<lambda>n. if hd s = CHR ''-'' then - int n else int n) (read_digits 0 (tl s)))"

lemma sample_time_roundtrip: "sample_time_read (sample_time_text t) = Some t"
  by (simp add: sample_time_read_def sample_time_text_def read_show_nat)

definition sample_lib :: lib where
  "sample_lib = \<lparr>
     uuid_to_string = bits_text,
     uuid_parse_str = (\<lambda>s. if length s = 128 then Some (text_bits s) else None),
     sock_to_string = sample_sock_text,
     sock_from_str = sample_sock_read,
     dt_to_rfc3339 = sample_time_text,
     dt_from_str = sample_time_read,
     dt_timestamp = (\<lambda>t. t div 1000000000),
     dt_subsec_nanos = (\<lambda>t. word_of_int (t mod 1000000000)),
     dt_timestamp_opt = (\<lambda>s n. if unat n < 2000000000
        then Single (s * 1000000000 + int (unat n)) else NoTime),
     dt_display = sample_time_text,
     key_public = (\<lambda>k. k),
     key_to_base64 = bits_text,
     key_from_base64 = (\<lambda>s. if length s = 256 then Some (text_bits s) else None),
     error_text = (\<lambda>s. s),
     header_value = Some,
     row_choice = (\<lambda>n. 0) \<rparr>"

lemma sample_nanos: "unat (word_of_int (t mod 1000000000) :: 32 word) = nat (t mod 1000000000)"
proof -
  have "0 \<le> t mod 1000000000" and "t mod 1000000000 < 1000000000" by simp_all
  then have "(t mod 1000000000) mod 2 ^ 32 = t mod 1000000000"
    by (intro mod_pos_pos_trivial) simp_all
  then show ?thesis
    by (simp add: unsigned_of_int take_bit_eq_mod)
qed

lemma sample_uuid_ok [simp]: "uuid_ok sample_lib"
  by (simp add: uuid_ok_def sample_lib_def)

lemma sample_sock_ok [simp]: "sock_ok sample_lib"
  by (simp add: sock_ok_def sample_lib_def sample_sock_roundtrip)

lemma sample_key_ok [simp]: "key_ok sample_lib"
  by (simp add: key_ok_def sample_lib_def)

lemma sample_chrono_ok [simp]: "chrono_ok sample_lib"
proof -
  have "nat (t mod 1000000000) < 2000000000" for t :: int
    using pos_mod_bound [of 1000000000 t] by linarith
  moreover have "0 \<le> t mod 1000000000" for t :: int by simp
  ultimately show ?thesis
    by (simp add: chrono_ok_def sample_lib_def sample_nanos sample_time_roundtrip)
qed

end
