(* ===== verification/Types.thy ===== *)
theory Types
  imports Externals
begin

text \<open>
  The crate modvpn-types: locations, notifications, the status of the vpn as the clients see
  it, the messages exchanged with the server, devices; their \<open>Display\<close> texts and their
  conversions to and from the integers of the protocol buffers.
\<close>

section \<open>Locations (location.rs)\<close>

record location =
  loc_code :: string
  loc_country :: string
  loc_country_code :: string
  loc_city :: string
  loc_city_code :: string
  loc_state :: "string option"
  loc_state_code :: "string option"
  loc_estimate :: "32 word option"

definition location_display :: "location \<Rightarrow> string" where
  "location_display l =
     (case loc_state l of
        Some state \<Rightarrow> loc_city l @ '', '' @ state @ '', '' @ loc_country l
      | None \<Rightarrow> loc_city l @ '', '' @ loc_country l)"

section \<open>Notifications (notification.rs)\<close>

datatype notification_type = ServerFailed | ClientFailed

record notification =
  ntf_id :: string
  ntf_message :: string
  ntf_type :: notification_type
  ntf_timestamp :: datetime

type_synonym i32 = "32 word"

definition show_i32 :: "i32 \<Rightarrow> string" where
  "show_i32 v = (if sint v < 0 then ''-'' @ show_nat (nat (- sint v)) else show_nat (nat (sint v)))"

definition notification_type_of_i32 :: "i32 \<Rightarrow> (notification_type, string) res" where
  "notification_type_of_i32 v =
     (if v = 0 then Ok ServerFailed
      else if v = 1 then Ok ClientFailed
      else Err (''invalid notification type value: '' @ show_i32 v))"

fun i32_of_notification_type :: "notification_type \<Rightarrow> i32" where
  "i32_of_notification_type ServerFailed = 0"
| "i32_of_notification_type ClientFailed = 1"

section \<open>The status of the vpn (vpn_session.rs)\<close>

datatype vpn_status =
    VpnAccepted location
  | VpnServerCreated location
  | VpnServerRunning location
  | VpnServerReady location
  | VpnConnecting location
  | VpnConnected location datetime
  | VpnDisconnecting location
  | VpnDisconnected

fun vpn_status_display :: "vpn_status \<Rightarrow> string" where
  "vpn_status_display (VpnAccepted l) = ''Status: Accepted, City: '' @ loc_city l"
| "vpn_status_display (VpnConnected l t) = ''Status: Connected, City: '' @ loc_city l"
| "vpn_status_display (VpnConnecting l) = ''Status: Connecting, City: '' @ loc_city l"
| "vpn_status_display VpnDisconnected = ''Status: Disconnected''"
| "vpn_status_display (VpnDisconnecting l) = ''Status: Disconnecting, City: '' @ loc_city l"
| "vpn_status_display (VpnServerCreated l) = ''Status: ServerCreated, City: '' @ loc_city l"
| "vpn_status_display (VpnServerRunning l) = ''Status: ServerRunning, City: '' @ loc_city l"
| "vpn_status_display (VpnServerReady l) = ''Status: ServerReady, City: '' @ loc_city l"

section \<open>Messages of the server (modvpn\_server.rs)\<close>

record new_session =
  ns_request_id :: uuid
  ns_device_unique_id :: uuid
  ns_location_code :: string

record end_session =
  es_request_id :: uuid
  es_device_unique_id :: uuid
  es_vpn_session_uuid :: uuid
  es_reason :: string

record client_connected =
  cc_request_id :: uuid
  cc_device_unique_id :: uuid
  cc_vpn_session_uuid :: uuid

record accepted =
  acc_request_id :: uuid
  acc_vpn_session_uuid :: uuid

record server_created =
  sc_request_id :: uuid
  sc_vpn_session_uuid :: uuid

record failed =
  fl_request_id :: uuid
  fl_vpn_session_uuid :: uuid

record server_running =
  srun_request_id :: uuid
  srun_vpn_session_uuid :: uuid

record server_ready =
  sr_request_id :: uuid
  sr_vpn_session_uuid :: uuid
  sr_public_key :: string
  sr_ipv4_endpoint :: socket_addr
  sr_private_ipv4 :: ipv4

record ended =
  en_request_id :: uuid
  en_vpn_session_uuid :: uuid
  en_reason :: string

record vpn_session_status_request =
  req_request_id :: uuid
  req_device_unique_id :: uuid
  req_vpn_session_uuid :: uuid

datatype vpn_session_status =
    SessAccepted accepted
  | SessFailed failed
  | SessServerCreated server_created
  | SessServerRunning server_running
  | SessServerReady server_ready
  | SessClientConnected client_connected
  | SessEnded ended

record user_credentials =
  uc_email :: string
  uc_password :: string

datatype device_type = Linux | MacOS | Windows | IOS | Android

record device_info =
  di_name :: string
  di_version :: string
  di_arch :: string
  di_public_key :: string
  di_unique_id :: uuid
  di_device_type :: device_type

record add_device_request =
  adr_user_creds :: user_credentials
  adr_device_info :: device_info

record device_addresses =
  da_ipv4_address :: ipv4

record add_device_response =
  ads_token :: string
  ads_device_addresses :: device_addresses

definition device_addresses_display :: "device_addresses \<Rightarrow> string" where
  "device_addresses_display d =
     ''DeviceAddresses(ipv4_address = '' @ ipv4_to_string (da_ipv4_address d) @ '')''"

definition device_type_of_i32 :: "i32 \<Rightarrow> (device_type, string) res" where
  "device_type_of_i32 v =
     (if v = 0 then Ok Linux
      else if v = 1 then Ok MacOS
      else if v = 2 then Ok Windows
      else if v = 3 then Ok Android
      else if v = 4 then Ok IOS
      else Err ''invalid device type'')"

fun i32_of_device_type :: "device_type \<Rightarrow> i32" where
  "i32_of_device_type Linux = 0"
| "i32_of_device_type MacOS = 1"
| "i32_of_device_type Windows = 2"
| "i32_of_device_type Android = 3"
| "i32_of_device_type IOS = 4"

definition ids_display :: "lib \<Rightarrow> uuid \<Rightarrow> uuid \<Rightarrow> string" where
  \<comment> \<open>the two ids as five of the messages write them\<close>
  "ids_display L r v = ''request_id: '' @ uuid_to_string L r
     @ '', vpn_session_uuid: '' @ uuid_to_string L v"

definition accepted_display :: "lib \<Rightarrow> accepted \<Rightarrow> string" where
  "accepted_display L a = ''Accepted '' @ ids_display L (acc_request_id a) (acc_vpn_session_uuid a)"

definition failed_display :: "lib \<Rightarrow> failed \<Rightarrow> string" where
  "failed_display L f = ''Failed request_id: '' @ uuid_to_string L (fl_request_id f)
     @ '' vpn_session_uuid: '' @ uuid_to_string L (fl_vpn_session_uuid f)"

definition server_created_display :: "lib \<Rightarrow> server_created \<Rightarrow> string" where
  "server_created_display L s =
     ''ServerCreated '' @ ids_display L (sc_request_id s) (sc_vpn_session_uuid s)"

definition server_running_display :: "lib \<Rightarrow> server_running \<Rightarrow> string" where
  "server_running_display L s =
     ''ServerRunning '' @ ids_display L (srun_request_id s) (srun_vpn_session_uuid s)"

definition server_ready_display :: "lib \<Rightarrow> server_ready \<Rightarrow> string" where
  "server_ready_display L s =
     ''ServerReady '' @ ids_display L (sr_request_id s) (sr_vpn_session_uuid s)
     @ '', ipv4_endpoint: '' @ sock_to_string L (sr_ipv4_endpoint s)
     @ '', private_ipv4: '' @ ipv4_to_string (sr_private_ipv4 s)
     @ '', public_key: '' @ sr_public_key s"

definition ended_display :: "lib \<Rightarrow> ended \<Rightarrow> string" where
  "ended_display L e = ''Ended '' @ ids_display L (en_request_id e) (en_vpn_session_uuid e)
     @ '', reason: '' @ en_reason e"

definition client_connected_display :: "lib \<Rightarrow> client_connected \<Rightarrow> string" where
  "client_connected_display L c =
     ''ClientConnected request_id: '' @ uuid_to_string L (cc_request_id c)
     @ '', device_unique_id: '' @ uuid_to_string L (cc_device_unique_id c)
     @ '', vpn_session_uuid: '' @ uuid_to_string L (cc_vpn_session_uuid c)"

definition end_session_display :: "lib \<Rightarrow> end_session \<Rightarrow> string" where
  "end_session_display L e =
     ''EndSession: request_id: '' @ uuid_to_string L (es_request_id e)
     @ '', vpn_session_uuid: '' @ uuid_to_string L (es_vpn_session_uuid e)
     @ '', device_unique_id: '' @ uuid_to_string L (es_device_unique_id e)
     @ '', reason: '' @ es_reason e @ '' ''"

definition vpn_session_status_request_display :: "lib \<Rightarrow> vpn_session_status_request \<Rightarrow> string" where
  "vpn_session_status_request_display L r =
     ''VpnSessionStatusRequest request_id: '' @ uuid_to_string L (req_request_id r)
     @ '', device_unique_id: '' @ uuid_to_string L (req_device_unique_id r)
     @ '', vpn_session_uuid: '' @ uuid_to_string L (req_vpn_session_uuid r)"

fun vpn_session_status_display :: "lib \<Rightarrow> vpn_session_status \<Rightarrow> string" where
  "vpn_session_status_display L (SessAccepted a) = ''VpnSessionStatus: '' @ accepted_display L a"
| "vpn_session_status_display L (SessFailed f) = ''VpnSessionStatus: '' @ failed_display L f"
| "vpn_session_status_display L (SessServerCreated s) =
     ''VpnSessionStatus: '' @ server_created_display L s"
| "vpn_session_status_display L (SessServerRunning s) =
     ''VpnSessionStatus: '' @ server_running_display L s"
| "vpn_session_status_display L (SessServerReady s) =
     ''VpnSessionStatus: '' @ server_ready_display L s"
| "vpn_session_status_display L (SessClientConnected c) =
     ''VpnSessionStatus: '' @ client_connected_display L c"
| "vpn_session_status_display L (SessEnded e) = ''VpnSessionStatus: '' @ ended_display L e"

section \<open>Devices and WireGuard metadata (device.rs, wireguard.rs)\<close>

record wireguard_metadata =
  wg_private_key :: wg_key
  wg_device_addresses :: "device_addresses option"

record device_details =
  dd_name :: string
  dd_version :: string
  dd_arch :: string
  dd_unique_id :: uuid
  dd_device_type :: device_type
  dd_wireguard_meta :: wireguard_metadata
  dd_created_at :: datetime

definition ascii_lower :: "char \<Rightarrow> char" where
  "ascii_lower c = (let n = of_char c in if (65::nat) \<le> n \<and> n \<le> 90 then char_of (n + 32) else c)"

definition to_lowercase :: "string \<Rightarrow> string" where
  \<comment> \<open>on text outside ASCII, \<open>str::to_lowercase\<close> also maps other letters; none of them becomes
    a letter of the five names below, so only the text of the error differs\<close>
  "to_lowercase = map ascii_lower"

definition device_type_of_str :: "string \<Rightarrow> (device_type, string) res" where
  "device_type_of_str value =
     (let v = to_lowercase value in
      if v = ''linux'' then Ok Linux
      else if v = ''macos'' then Ok MacOS
      else if v = ''windows'' then Ok Windows
      else if v = ''android'' then Ok Android
      else if v = ''ios'' then Ok IOS
      else Err (''invalid device type: '' @ v))"

fun device_type_to_string :: "device_type \<Rightarrow> string" where
  "device_type_to_string Linux = ''linux''"
| "device_type_to_string MacOS = ''macos''"
| "device_type_to_string Windows = ''windows''"
| "device_type_to_string IOS = ''ios''"
| "device_type_to_string Android = ''android''"

definition wireguard_public_key :: "lib \<Rightarrow> wireguard_metadata \<Rightarrow> wg_key" where
  "wireguard_public_key L w = key_public L (wg_private_key w)"

definition wireguard_default :: "wg_key \<Rightarrow> wireguard_metadata" where
  \<comment> \<open>the argument is the key \<open>PrivateKey::new_from_random\<close> draws\<close>
  "wireguard_default key = \<lparr>wg_private_key = key, wg_device_addresses = None\<rparr>"

definition wireguard_metadata_display :: "lib \<Rightarrow> wireguard_metadata \<Rightarrow> string" where
  "wireguard_metadata_display L w =
     (case wg_device_addresses w of
        Some a \<Rightarrow> ''WireguardMetadata(public_key:'' @ key_to_base64 L (wireguard_public_key L w)
          @ '', device_addresses:'' @ device_addresses_display a @ '')''
      | None \<Rightarrow> ''WireguardMetadata(public_key:'' @ key_to_base64 L (wireguard_public_key L w)
          @ '', device_addresses:None)'')"

definition device_details_display :: "lib \<Rightarrow> device_details \<Rightarrow> string" where
  "device_details_display L d =
     ''DeviceDetails(name: '' @ dd_name d @ '', version: '' @ dd_version d
     @ '', arch: '' @ dd_arch d @ '', unique_id: '' @ uuid_to_string L (dd_unique_id d)
     @ '', device_type: '' @ device_type_to_string (dd_device_type d)
     @ '', wireguard_meta: '' @ wireguard_metadata_display L (dd_wireguard_meta d)
     @ '', created_at: '' @ dt_display L (dd_created_at d) @ '')''"

definition device_info_of_details :: "lib \<Rightarrow> device_details \<Rightarrow> device_info" where
  "device_info_of_details L d = \<lparr>
     di_name = dd_name d, di_version = dd_version d, di_arch = dd_arch d,
     di_public_key = key_to_base64 L (wireguard_public_key L (dd_wireguard_meta d)),
     di_unique_id = dd_unique_id d, di_device_type = dd_device_type d \<rparr>"

section \<open>Codecs\<close>

text \<open>
  An encoder with a decoder that undoes it: the contract between the two ends of every
  conversion. It is stated once and interpreted on each pair of conversions.
\<close>

locale codec =
  fixes enc :: "'a \<Rightarrow> 'b"
    and dec :: "'b \<Rightarrow> ('a, 'e) res"
  assumes dec_enc: "dec (enc x) = Ok x"
begin

lemma enc_inject: "enc x = enc y \<longleftrightarrow> x = y"
  by (metis dec_enc res.inject(1))

lemma dec_enc_list: "collect dec (map enc xs) = Ok xs"
  by (rule collect_Ok_map) (rule dec_enc)

lemma dec_never_panics_on_enc: "\<not> is_panic (dec (enc x))"
  by (simp add: dec_enc)

end

interpretation ntype: codec i32_of_notification_type notification_type_of_i32
proof
  show "notification_type_of_i32 (i32_of_notification_type x) = Ok x" for x
    by (cases x) (simp_all add: notification_type_of_i32_def)
qed

interpretation dtype: codec i32_of_device_type device_type_of_i32
proof
  show "device_type_of_i32 (i32_of_device_type x) = Ok x" for x
    by (cases x) (simp_all add: device_type_of_i32_def)
qed

lemma lowercase_names [simp]: "to_lowercase (device_type_to_string t) = device_type_to_string t"
  by (cases t; simp; code_simp)

interpretation dname: codec device_type_to_string device_type_of_str
proof
  show "device_type_of_str (device_type_to_string x) = Ok x" for x
    unfolding device_type_of_str_def Let_def lowercase_names by (cases x) simp_all
qed

text \<open>What decodes is exactly what is encoded: no other integer is a device type.\<close>

lemma device_type_of_i32_Ok: "device_type_of_i32 v = Ok t \<longleftrightarrow> v = i32_of_device_type t"
  by (cases t) (auto simp: device_type_of_i32_def)

lemma notification_type_of_i32_Ok:
  "notification_type_of_i32 v = Ok t \<longleftrightarrow> v = i32_of_notification_type t"
  by (cases t) (auto simp: notification_type_of_i32_def)

lemma device_type_of_str_Ok:
  "device_type_of_str s = Ok t \<longleftrightarrow> to_lowercase s = device_type_to_string t"
  by (cases t) (auto simp: device_type_of_str_def Let_def)

text \<open>A location for the witnesses.\<close>

definition sample_location :: location where
  "sample_location = \<lparr>loc_code = ''ca_toronto'', loc_country = ''Canada'', loc_country_code = ''ca'',
     loc_city = ''Toronto'', loc_city_code = ''tor'', loc_state = None, loc_state_code = None,
     loc_estimate = None\<rparr>"

end
