(* ===== verification/Entity.thy ===== *)
theory Entity
  imports Types
begin

text \<open>
  The crate modvpn-entity: the rows of the four tables as the database returns them, where ids,
  keys, addresses and times are text, and the conversions between rows and the program's types.
\<close>

section \<open>Rows\<close>

record session_row =
  row_request_id :: string
  row_location_code :: string
  row_location_city :: string
  row_location_city_code :: string
  row_location_country :: string
  row_location_country_code :: string
  row_location_state :: "string option"
  row_location_state_code :: "string option"
  row_server_status :: "string option"
  row_session_uuid :: "string option"
  row_server_ipv4_endpoint :: "string option"
  row_server_private_ipv4 :: "string option"
  row_server_public_key :: "string option"
  row_requested_at :: string
  row_mark_for_deletion :: bool

record device_row =
  dev_unique_id :: string
  dev_name :: string
  dev_version :: string
  dev_arch :: string
  dev_device_type :: string
  dev_private_key :: string
  dev_ipv4_address :: "string option"
  dev_created_at :: string

record token_row =
  tok_id :: nat
  tok_token :: string

record recent_row =
  rec_id :: nat
  rec_code :: string
  rec_city :: string
  rec_city_code :: string
  rec_country :: string
  rec_country_code :: string
  rec_state :: "string option"
  rec_state_code :: "string option"

section \<open>Conversions\<close>

definition location_of_session_row :: "session_row \<Rightarrow> location" where
  "location_of_session_row v = \<lparr>
     loc_code = row_location_code v, loc_country = row_location_country v,
     loc_country_code = row_location_country_code v, loc_city = row_location_city v,
     loc_city_code = row_location_city_code v, loc_state = row_location_state v,
     loc_state_code = row_location_state_code v, loc_estimate = None \<rparr>"

definition location_of_recent_row :: "recent_row \<Rightarrow> location" where
  "location_of_recent_row v = \<lparr>
     loc_code = rec_code v, loc_country = rec_country v, loc_country_code = rec_country_code v,
     loc_city = rec_city v, loc_city_code = rec_city_code v, loc_state = rec_state v,
     loc_state_code = rec_state_code v, loc_estimate = None \<rparr>"

text \<open>
  The stored key and address are read back through serde: a key that is not base64 or an
  address that is not dotted decimal is an error.
\<close>

definition wireguard_from_json ::
    "lib \<Rightarrow> string \<Rightarrow> string option \<Rightarrow> (wireguard_metadata, string) res" where
  "wireguard_from_json L private_key ipv4_address =
     (case ipv4_address of
        Some a \<Rightarrow>
          res_bind (ok_or (error_text L a) (ipv4_from_str a)) (\<lambda>ip.
          res_bind (ok_or (error_text L private_key) (key_from_base64 L private_key)) (\<lambda>k.
            Ok \<lparr>wg_private_key = k, wg_device_addresses = Some \<lparr>da_ipv4_address = ip\<rparr>\<rparr>))
      | None \<Rightarrow>
          res_bind (ok_or (error_text L private_key) (key_from_base64 L private_key)) (\<lambda>k.
            Ok \<lparr>wg_private_key = k, wg_device_addresses = None\<rparr>))"

definition device_details_of_row :: "lib \<Rightarrow> device_row \<Rightarrow> (device_details, string) res" where
  "device_details_of_row L v =
     res_bind (map_err (\<lambda>e. ''failed to read wireguard meta from db: '' @ e)
         (wireguard_from_json L (dev_private_key v) (dev_ipv4_address v))) (\<lambda>wg.
     res_bind (ok_or (error_text L (dev_unique_id v)) (uuid_parse_str L (dev_unique_id v))) (\<lambda>uid.
     res_bind (device_type_of_str (dev_device_type v)) (\<lambda>dt.
     res_bind (ok_or (''cannot convert created_at for device: '' @ error_text L (dev_created_at v))
         (dt_from_str L (dev_created_at v))) (\<lambda>created.
       Ok \<lparr>dd_name = dev_name v, dd_version = dev_version v, dd_arch = dev_arch v,
           dd_unique_id = uid, dd_device_type = dt, dd_wireguard_meta = wg,
           dd_created_at = created\<rparr>))))"

definition device_row_of_details :: "lib \<Rightarrow> device_details \<Rightarrow> device_row" where
  "device_row_of_details L v = \<lparr>
     dev_unique_id = uuid_to_string L (dd_unique_id v), dev_name = dd_name v,
     dev_version = dd_version v, dev_arch = dd_arch v,
     dev_device_type = device_type_to_string (dd_device_type v),
     dev_private_key = key_to_base64 L (wg_private_key (dd_wireguard_meta v)),
     dev_ipv4_address = map_option (\<lambda>da. ipv4_to_string (da_ipv4_address da))
       (wg_device_addresses (dd_wireguard_meta v)),
     dev_created_at = dt_to_rfc3339 L (dd_created_at v) \<rparr>"

lemma wireguard_json_roundtrip:
  assumes "key_ok L"
  shows "wireguard_from_json L (key_to_base64 L (wg_private_key w))
     (map_option (\<lambda>da. ipv4_to_string (da_ipv4_address da)) (wg_device_addresses w)) = Ok w"
  using assms by (cases "wg_device_addresses w")
    (simp_all add: wireguard_from_json_def ipv4_text_roundtrip)

lemma device_row_roundtrip:
  assumes "uuid_ok L" and "key_ok L" and "chrono_ok L"
  shows "device_details_of_row L (device_row_of_details L d) = Ok d"
  using assms
  by (simp add: device_details_of_row_def device_row_of_details_def wireguard_json_roundtrip
      dname.dec_enc)

lemma device_type_of_str_calm [simp]: "\<not> is_panic (device_type_of_str s)"
  by (simp add: device_type_of_str_def Let_def)

lemma device_details_of_row_calm: "\<not> is_panic (device_details_of_row L v)"
  by (simp add: device_details_of_row_def wireguard_from_json_def is_panic_res_bind
      split: option.split)

end
