(* ===== verification/Db.thy ===== *)
theory Db
  imports Entity
begin

text \<open>
  The database as the storage components use it. A table is the list of its rows. What SQLite
  and sea-orm do is not code of the repository, and only what the statements ask for is fixed
  here: a select gives the rows that satisfy its filter, an update changes them, a delete removes
  them, an insert adds a row unless its primary key is taken. Two things the program cannot
  know are open: the outcome of every statement, which the list \<open>faults\<close> gives in advance (an
  empty list means that every statement to come succeeds), and the row that \<open>one()\<close> returns when
  several match, which \<open>row_choice\<close> of the library picks.
\<close>

datatype db_err =
    RecordNotFound string
  | RecordNotUpdated
  | Custom string
  | UniqueViolation
  | DbFailure string  \<comment> \<open>any other error of the driver\<close>

fun db_err_display :: "db_err \<Rightarrow> string" where
  "db_err_display (RecordNotFound m) = ''RecordNotFound Error: '' @ m"
| "db_err_display RecordNotUpdated = ''None of the records are updated''"
| "db_err_display (Custom m) = ''Custom Error: '' @ m"
| "db_err_display UniqueViolation = ''UNIQUE constraint failed''"
| "db_err_display (DbFailure m) = m"

record db =
  vpn_sessions :: "session_row list"
  devices :: "device_row list"
  tokens :: "token_row list"
  recents :: "recent_row list"
  next_id :: nat  \<comment> \<open>above every autoincrement id handed out so far\<close>
  faults :: "db_err option list"

definition empty_db :: db where
  "empty_db = \<lparr>vpn_sessions = [], devices = [], tokens = [], recents = [], next_id = 1, faults = []\<rparr>"

definition reliable :: "db \<Rightarrow> bool" where
  "reliable d \<longleftrightarrow> faults d = []"

section \<open>Statements\<close>

definition statement :: "(db, 'a, db_err) prog \<Rightarrow> (db, 'a, db_err) prog" where
  "statement p d = (case faults d of
      [] \<Rightarrow> p d
    | None # fs \<Rightarrow> p (d\<lparr>faults := fs\<rparr>)
    | Some e # fs \<Rightarrow> (Err e, d\<lparr>faults := fs\<rparr>))"

definition pick_row :: "lib \<Rightarrow> 'r list \<Rightarrow> 'r option" where
  "pick_row L rs = (if rs = [] then None else Some (rs ! (row_choice L (length rs) mod length rs)))"

type_synonym 'r table = "(db \<Rightarrow> 'r list) \<times> (('r list \<Rightarrow> 'r list) \<Rightarrow> db \<Rightarrow> db)"

definition sql_one :: "lib \<Rightarrow> 'r table \<Rightarrow> ('r \<Rightarrow> bool) \<Rightarrow> (db, 'r option, db_err) prog" where
  "sql_one L t P = statement (\<lambda>d. (Ok (pick_row L (filter P (fst t d))), d))"

definition sql_all :: "'r table \<Rightarrow> ('r \<Rightarrow> bool) \<Rightarrow> (db, 'r list, db_err) prog" where
  "sql_all t P = statement (\<lambda>d. (Ok (filter P (fst t d)), d))"

definition sql_insert :: "'r table \<Rightarrow> ('r \<Rightarrow> 'k) \<Rightarrow> 'r \<Rightarrow> (db, unit, db_err) prog" where
  "sql_insert t key r = statement (\<lambda>d.
     if key r \<in> key ` set (fst t d) then (Err UniqueViolation, d)
     else (Ok (), snd t (\<lambda>rs. rs @ [r]) d))"

definition sql_update_many :: "'r table \<Rightarrow> ('r \<Rightarrow> bool) \<Rightarrow> ('r \<Rightarrow> 'r) \<Rightarrow> (db, nat, db_err) prog" where
  "sql_update_many t P f = statement (\<lambda>d.
     (Ok (length (filter P (fst t d))), snd t (map (\<lambda>r. if P r then f r else r)) d))"

definition sql_update :: "'r table \<Rightarrow> ('r \<Rightarrow> bool) \<Rightarrow> ('r \<Rightarrow> 'r) \<Rightarrow> (db, unit, db_err) prog" where
  \<comment> \<open>\<open>ActiveModel::update\<close>: one row by its primary key; no such row is an error\<close>
  "sql_update t P f = statement (\<lambda>d.
     if filter P (fst t d) = [] then (Err RecordNotUpdated, d)
     else (Ok (), snd t (map (\<lambda>r. if P r then f r else r)) d))"

definition sql_delete_many :: "'r table \<Rightarrow> ('r \<Rightarrow> bool) \<Rightarrow> (db, nat, db_err) prog" where
  "sql_delete_many t P = statement (\<lambda>d.
     (Ok (length (filter P (fst t d))), snd t (filter (\<lambda>r. \<not> P r)) d))"

abbreviation "session_table \<equiv> (vpn_sessions, vpn_sessions_update)"
abbreviation "device_table \<equiv> (devices, devices_update)"
abbreviation "token_table \<equiv> (tokens, tokens_update)"
abbreviation "recent_table \<equiv> (recents, recents_update)"

definition fresh_id :: "(db, nat, db_err) prog" where
  \<comment> \<open>the id an autoincrement column gives to the next row\<close>
  "fresh_id d = (Ok (next_id d), d\<lparr>next_id := Suc (next_id d)\<rparr>)"

lemma pick_row_None [simp]: "pick_row L rs = None \<longleftrightarrow> rs = []"
  by (simp add: pick_row_def)

lemma pick_row_Nil [simp]: "pick_row L [] = None"
  by simp

lemma pick_row_Some: "pick_row L rs = Some r \<Longrightarrow> r \<in> set rs"
  by (auto simp: pick_row_def split: if_splits)

lemma pick_row_single [simp]: "pick_row L [r] = Some r"
  by (simp add: pick_row_def)

lemma pick_row_filter_Some: "pick_row L (filter P rs) = Some r \<Longrightarrow> r \<in> set rs \<and> P r"
  by (drule pick_row_Some) simp

lemma pick_row_unique:
  "distinct (map key rs) \<Longrightarrow> r \<in> set rs \<Longrightarrow> pick_row L (filter (\<lambda>x. key x = key r) rs) = Some r"
proof -
  assume d: "distinct (map key rs)" and r: "r \<in> set rs"
  then have "set (filter (\<lambda>x. key x = key r) rs) = {r}"
    by (auto dest: distinct_map [THEN iffD1] simp: inj_on_def)
  moreover have "filter (\<lambda>x. key x = key r) rs \<noteq> []" using r by (auto simp: filter_empty_conv)
  ultimately show ?thesis
    using pick_row_Some [of L "filter (\<lambda>x. key x = key r) rs"]
    by (cases "pick_row L (filter (\<lambda>x. key x = key r) rs)") auto
qed

lemma fresh_id_run [prog_simps]: "fresh_id d = (Ok (next_id d), d\<lparr>next_id := Suc (next_id d)\<rparr>)"
  by (simp add: fresh_id_def)

lemma statement_reliable: "reliable d \<Longrightarrow> statement p d = p d"
  by (simp add: statement_def reliable_def)

lemma statement_cases:
  obtains (run) fs where "statement p d = p (d\<lparr>faults := fs\<rparr>)"
  | (fault) e fs where "statement p d = (Err e, d\<lparr>faults := fs\<rparr>)"
proof (cases "faults d")
  case Nil
  then have "d\<lparr>faults := []\<rparr> = d" by simp
  with Nil run [of "[]"] show ?thesis by (simp add: statement_def)
next
  case (Cons f fs)
  with run [of fs] fault [of _ fs] show ?thesis
    by (cases f) (auto simp: statement_def)
qed

lemma statement_fault: "faults d = Some e # fs \<Longrightarrow> statement p d = (Err e, d\<lparr>faults := fs\<rparr>)"
  by (simp add: statement_def)

text \<open>A statement may fail, but it does not panic.\<close>

lemma statement_no_panic: "(\<And>d. no_panic (p d)) \<Longrightarrow> no_panic (statement p d)"
  by (simp add: statement_def no_panic_def split: list.split option.split)

lemma sql_no_panic [calm_intros, simp]:
  "no_panic (sql_one L t P d)"
  "no_panic (sql_all t P d)"
  "no_panic (sql_insert t key r d)"
  "no_panic (sql_update_many t P f d)"
  "no_panic (sql_update t P f d)"
  "no_panic (sql_delete_many t P d)"
  unfolding sql_one_def sql_all_def sql_insert_def sql_update_many_def sql_update_def
    sql_delete_many_def
  by (rule statement_no_panic, simp)+

section \<open>What a statement does to its table\<close>

text \<open>
  The four tables are four fields of one record. A locale states what makes a pair of a field
  and its update a table; every statement's effect is derived from it once.
\<close>

locale sql_table =
  fixes get :: "db \<Rightarrow> 'r list"
    and upd :: "('r list \<Rightarrow> 'r list) \<Rightarrow> db \<Rightarrow> db"
  assumes get_upd: "get (upd f d) = f (get d)"
    and upd_faults: "faults (upd f d) = faults d"
    and get_faults: "get (d\<lparr>faults := fs\<rparr>) = get d"
begin

lemma run_one [prog_simps]:
  "reliable d \<Longrightarrow> sql_one L (get, upd) P d = (Ok (pick_row L (filter P (get d))), d)"
  by (simp add: sql_one_def statement_reliable)

lemma run_all [prog_simps]: "reliable d \<Longrightarrow> sql_all (get, upd) P d = (Ok (filter P (get d)), d)"
  by (simp add: sql_all_def statement_reliable)

lemma run_insert [prog_simps]:
  "reliable d \<Longrightarrow> key r \<notin> key ` set (get d) \<Longrightarrow>
     sql_insert (get, upd) key r d = (Ok (), upd (\<lambda>rs. rs @ [r]) d)"
  by (simp add: sql_insert_def statement_reliable)

lemma run_insert_taken:
  "reliable d \<Longrightarrow> key r \<in> key ` set (get d) \<Longrightarrow>
     sql_insert (get, upd) key r d = (Err UniqueViolation, d)"
  by (simp add: sql_insert_def statement_reliable)

lemma run_update_many [prog_simps]:
  "reliable d \<Longrightarrow> sql_update_many (get, upd) P f d =
     (Ok (length (filter P (get d))), upd (map (\<lambda>r. if P r then f r else r)) d)"
  by (simp add: sql_update_many_def statement_reliable)

lemma run_update [prog_simps]:
  "reliable d \<Longrightarrow> r \<in> set (get d) \<Longrightarrow> P r \<Longrightarrow> sql_update (get, upd) P f d =
     (Ok (), upd (map (\<lambda>r. if P r then f r else r)) d)"
  by (auto simp: sql_update_def statement_reliable filter_empty_conv)

lemma run_delete_many [prog_simps]:
  "reliable d \<Longrightarrow> sql_delete_many (get, upd) P d =
     (Ok (length (filter P (get d))), upd (filter (\<lambda>r. \<not> P r)) d)"
  by (simp add: sql_delete_many_def statement_reliable)

lemma reliable_upd [simp]: "reliable (upd f d) = reliable d"
  by (simp add: reliable_def upd_faults)

lemma keeps_reliable [keeps_intros]:
  "keeps reliable (sql_one L (get, upd) P)"
  "keeps reliable (sql_all (get, upd) P)"
  "keeps reliable (sql_insert (get, upd) key r)"
  "keeps reliable (sql_update_many (get, upd) P f)"
  "keeps reliable (sql_update (get, upd) P f)"
  "keeps reliable (sql_delete_many (get, upd) P)"
  unfolding keeps_def sql_one_def sql_all_def sql_insert_def sql_update_many_def sql_update_def
    sql_delete_many_def
  by (simp_all add: statement_reliable)

text \<open>Whatever the outcome, a statement changes its table in one of two ways or not at all.\<close>

lemma one_keeps: "sql_one L (get, upd) P d = (r, d') \<Longrightarrow> \<exists>fs. d' = d\<lparr>faults := fs\<rparr>"
  by (auto simp: sql_one_def statement_def split: list.splits option.splits
      intro: exI [of _ "faults d"])

lemma one_Some:
  "sql_one L (get, upd) P d = (Ok (Some r), d') \<Longrightarrow> r \<in> set (get d) \<and> P r"
  by (auto simp: sql_one_def statement_def get_faults split: list.splits option.splits
      dest: pick_row_filter_Some)

end

interpretation sessions: sql_table vpn_sessions vpn_sessions_update
  by unfold_locales simp_all

interpretation device: sql_table devices devices_update
  by unfold_locales simp_all

interpretation token: sql_table tokens tokens_update
  by unfold_locales simp_all

interpretation recent: sql_table recents recents_update
  by unfold_locales simp_all

lemma reliable_next_id [simp]: "reliable (d\<lparr>next_id := n\<rparr>) = reliable d"
  by (simp add: reliable_def)

lemma reliable_record [simp]:
  "reliable (d\<lparr>vpn_sessions := ss\<rparr>) = reliable d"
  "reliable (d\<lparr>devices := ds\<rparr>) = reliable d"
  "reliable (d\<lparr>tokens := ts\<rparr>) = reliable d"
  "reliable (d\<lparr>recents := rs\<rparr>) = reliable d"
  by (simp_all add: reliable_def)

lemma reliable_empty [simp]: "reliable empty_db"
  by (simp add: reliable_def empty_db_def)

text \<open>
  A statement keeps every property of the rows that its own change keeps and that does not
  speak of the faults to come.
\<close>

lemma keeps_statement [keeps_intros]:
  "keeps I p \<Longrightarrow> (\<And>d fs. I d \<Longrightarrow> I (d\<lparr>faults := fs\<rparr>)) \<Longrightarrow> keeps I (statement p)"
  unfolding keeps_def statement_def by (auto split: list.splits option.splits)

lemma calm_statement:
  "calm I p \<Longrightarrow> (\<And>d fs. I d \<Longrightarrow> I (d\<lparr>faults := fs\<rparr>)) \<Longrightarrow> calm I (statement p)"
  unfolding calm_def statement_def by (auto split: list.splits option.splits)

end
