(* ===== verification/Errors.thy ===== *)
theory Errors
  imports Db
begin

text \<open>
  The error enumerations of the daemon: of the vpn session service, of the device service and
  of the daemon itself, with the texts their \<open>Display\<close> derives, and the gRPC status they wrap.
\<close>

datatype grpc_code =
    CodeOk | Cancelled | Unknown | InvalidArgument | DeadlineExceeded | NotFound | AlreadyExists
  | PermissionDenied | ResourceExhausted | FailedPrecondition | Aborted | OutOfRange
  | Unimplemented | Internal | Unavailable | DataLoss | Unauthenticated

record grpc_status =
  st_code :: grpc_code
  st_message :: string

text \<open>A transport error of tonic is opaque: only its text is kept.\<close>

datatype vpn_session_error =
    VpnSessionServiceDown
  | VpnConnectionError string
  | VpnServerError grpc_status

datatype device_error =
    DeviceServiceUnavailable
  | DeviceServerError grpc_status
  | DeviceConnectionError string
  | DeviceDbErr db_err
  | InitError string

datatype daemon_error =
    DaemonUnavailable
  | AnotherVpnSessionInProgress location
  | InvalidOpVpnSessionInProgress string
  | DaemonDbErr db_err
  | DaemonDeviceError device_error
  | DaemonVpnSessionError vpn_session_error

definition status_display :: "grpc_status \<Rightarrow> string" where
  "status_display s = st_message s"

fun vpn_session_error_display :: "vpn_session_error \<Rightarrow> string" where
  "vpn_session_error_display VpnSessionServiceDown = ''vpn session service is unavailable''"
| "vpn_session_error_display (VpnConnectionError e) = ''error connecting to server: '' @ e"
| "vpn_session_error_display (VpnServerError s) = ''server error: '' @ status_display s"

fun device_error_display :: "device_error \<Rightarrow> string" where
  "device_error_display DeviceServiceUnavailable = ''device service is unavailable''"
| "device_error_display (DeviceServerError s) = ''server error: '' @ status_display s"
| "device_error_display (DeviceConnectionError e) = ''error connecting to server: '' @ e"
| "device_error_display (DeviceDbErr e) = ''db error: '' @ db_err_display e"
| "device_error_display (InitError m) = ''failed to initialize device: '' @ m"

definition SERVER_UNAVAILABLE_PLEASE_TRY_AGAIN_LATER :: string where
  "SERVER_UNAVAILABLE_PLEASE_TRY_AGAIN_LATER = ''server is unavailable, please try again later''"

definition VPN_SESSION_SERVICE_UNAVAILABLE :: string where
  "VPN_SESSION_SERVICE_UNAVAILABLE =
     ''daemon is partially up: vpn session service unavailable''"

end
