(* ===== verification/Daemon_State.thy ===== *)
theory Daemon_State
  imports Errors
begin

text \<open>
  modvpn-daemon/src/state.rs: what the daemon keeps in memory, the status of the vpn and the
  notifications the user has not acknowledged, by id.
\<close>

record daemon_state =
  ds_vpn_status :: vpn_status
  ds_notifications :: "(string \<times> notification) list"

definition ds_new :: daemon_state where
  "ds_new = \<lparr>ds_vpn_status = VpnDisconnected, ds_notifications = []\<rparr>"

definition set_vpn_status :: "vpn_status \<Rightarrow> daemon_state \<Rightarrow> daemon_state" where
  "set_vpn_status v s = s\<lparr>ds_vpn_status := v\<rparr>"

definition vpn_status :: "daemon_state \<Rightarrow> vpn_status" where
  "vpn_status s = ds_vpn_status s"

fun status_on_disconnect :: "vpn_status \<Rightarrow> vpn_status" where
  "status_on_disconnect (VpnAccepted l) = VpnDisconnected"
| "status_on_disconnect (VpnServerCreated l) = VpnDisconnected"
| "status_on_disconnect (VpnServerRunning l) = VpnDisconnected"
| "status_on_disconnect VpnDisconnected = VpnDisconnected"
| "status_on_disconnect (VpnServerReady l) = VpnDisconnecting l"
| "status_on_disconnect (VpnConnecting l) = VpnDisconnecting l"
| "status_on_disconnect (VpnConnected l t) = VpnDisconnecting l"
| "status_on_disconnect (VpnDisconnecting l) = VpnDisconnecting l"

definition update_state_on_disconnect :: "daemon_state \<Rightarrow> vpn_status \<times> daemon_state" where
  "update_state_on_disconnect s =
     (let new_status = status_on_disconnect (ds_vpn_status s)
      in (new_status, set_vpn_status new_status s))"

fun status_location :: "vpn_status \<Rightarrow> location option" where
  "status_location (VpnAccepted l) = Some l"
| "status_location (VpnServerCreated l) = Some l"
| "status_location (VpnServerRunning l) = Some l"
| "status_location (VpnServerReady l) = Some l"
| "status_location (VpnConnecting l) = Some l"
| "status_location (VpnConnected l t) = Some l"
| "status_location (VpnDisconnecting l) = Some l"
| "status_location VpnDisconnected = None"

definition vpn_session_in_progress :: "daemon_state \<Rightarrow> location option" where
  "vpn_session_in_progress s = status_location (ds_vpn_status s)"

definition insert_notification :: "string \<Rightarrow> notification \<Rightarrow> daemon_state \<Rightarrow> daemon_state" where
  "insert_notification k n s = s\<lparr>ds_notifications := AList.update k n (ds_notifications s)\<rparr>"

fun failed_session_message :: "vpn_session_error \<Rightarrow> string" where
  "failed_session_message VpnSessionServiceDown = VPN_SESSION_SERVICE_UNAVAILABLE"
| "failed_session_message (VpnConnectionError e) = SERVER_UNAVAILABLE_PLEASE_TRY_AGAIN_LATER"
| "failed_session_message (VpnServerError s) = st_message s"

definition add_notification_for_failed_new_session ::
    "lib \<Rightarrow> datetime \<Rightarrow> uuid \<Rightarrow> location \<Rightarrow> vpn_session_error \<Rightarrow> daemon_state
       \<Rightarrow> notification \<times> daemon_state" where
  "add_notification_for_failed_new_session L now request_id loc error s =
     (let notification = \<lparr>
        ntf_id = uuid_to_string L request_id,
        ntf_message = failed_session_message error,
        ntf_type = ServerFailed,
        ntf_timestamp = now \<rparr>
      in (notification, insert_notification (uuid_to_string L request_id) notification s))"

definition accepted_at :: "location \<Rightarrow> daemon_state \<Rightarrow> daemon_state" where
  "accepted_at l s = s\<lparr>ds_vpn_status := VpnAccepted l\<rparr>"

definition add_notification :: "notification \<Rightarrow> daemon_state \<Rightarrow> daemon_state" where
  "add_notification n s = insert_notification (ntf_id n) n s"

definition remove_notification :: "string \<Rightarrow> daemon_state \<Rightarrow> daemon_state" where
  "remove_notification i s = s\<lparr>ds_notifications := AList.delete i (ds_notifications s)\<rparr>"

text \<open>
  \<open>HashMap::values\<close> visits the values in an order nobody chooses: the argument \<open>order\<close>, a
  rearrangement of the list. The sort is stable and puts the newest first.
\<close>

definition notifications ::
    "(notification list \<Rightarrow> notification list) \<Rightarrow> daemon_state \<Rightarrow> notification list" where
  "notifications order s =
     sort_key (\<lambda>n. - ntf_timestamp n) (order (map snd (ds_notifications s)))"

section \<open>Lemmas\<close>

definition ds_wf :: "daemon_state \<Rightarrow> bool" where
  \<comment> \<open>the list is a map, and every notification is filed under its own id\<close>
  "ds_wf s \<longleftrightarrow> distinct (map fst (ds_notifications s))
     \<and> (\<forall>(k, n) \<in> set (ds_notifications s). ntf_id n = k)"

definition notification_of :: "daemon_state \<Rightarrow> string \<Rightarrow> notification option" where
  "notification_of s = map_of (ds_notifications s)"

interpretation ntf: keyed_store insert_notification remove_notification notification_of
    "\<lambda>s. distinct (map fst (ds_notifications s))"
  by unfold_locales
    (simp_all add: insert_notification_def remove_notification_def notification_of_def
      update_conv' delete_conv' distinct_update distinct_delete)

lemma in_progress_iff: "vpn_session_in_progress s = None \<longleftrightarrow> ds_vpn_status s = VpnDisconnected"
  by (cases "ds_vpn_status s") (simp_all add: vpn_session_in_progress_def)

lemma status_on_disconnect_idem [simp]:
  "status_on_disconnect (status_on_disconnect v) = status_on_disconnect v"
  by (cases v) simp_all

lemma status_on_disconnect_location:
  "status_location (status_on_disconnect v) = None
   \<or> status_location (status_on_disconnect v) = status_location v"
  by (cases v) simp_all

lemma set_vpn_status_simps [simp]:
  "ds_vpn_status (set_vpn_status v s) = v"
  "ds_notifications (set_vpn_status v s) = ds_notifications s"
  by (simp_all add: set_vpn_status_def)

lemma add_notification_simps [simp]:
  "ds_vpn_status (add_notification n s) = ds_vpn_status s"
  "ds_vpn_status (insert_notification k n s) = ds_vpn_status s"
  "ds_vpn_status (remove_notification i s) = ds_vpn_status s"
  by (simp_all add: add_notification_def insert_notification_def remove_notification_def)

lemma ds_wf_new [simp]: "ds_wf ds_new"
  by (simp add: ds_wf_def ds_new_def)

lemma set_alist_update_subset: "set (AList.update k v xs) \<subseteq> insert (k, v) (set xs)"
proof (induction xs)
  case (Cons x xs)
  then show ?case by (cases x) auto
qed simp

lemma ds_wf_insert: "ds_wf s \<Longrightarrow> ntf_id n = k \<Longrightarrow> ds_wf (insert_notification k n s)"
  using set_alist_update_subset [of k n "ds_notifications s"]
  by (fastforce simp: ds_wf_def insert_notification_def distinct_update)

lemma set_alist_delete_subset: "set (AList.delete k xs) \<subseteq> set xs"
  by (auto simp: AList.delete_eq)

lemma ds_wf_remove: "ds_wf s \<Longrightarrow> ds_wf (remove_notification i s)"
  using set_alist_delete_subset [of i "ds_notifications s"]
  by (auto simp: ds_wf_def remove_notification_def distinct_delete)

lemma ds_wf_ops [simp, intro]:
  "ds_wf s \<Longrightarrow> ds_wf (add_notification n s)"
  "ds_wf s \<Longrightarrow> ds_wf (set_vpn_status v s)"
  "ds_wf s \<Longrightarrow> ds_wf (accepted_at l s)"
  "ds_wf s \<Longrightarrow> ds_wf (snd (update_state_on_disconnect s))"
  "ds_wf s \<Longrightarrow> ds_wf (snd (add_notification_for_failed_new_session L now r loc e s))"
  by (simp_all add: add_notification_def ds_wf_insert update_state_on_disconnect_def Let_def
      add_notification_for_failed_new_session_def)
    (simp_all add: ds_wf_def set_vpn_status_def accepted_at_def)

text \<open>
  Filing the failed-session notification twice, as the daemon does, is filing it once.
\<close>

lemma update_same_twice: "AList.update k v (AList.update k v xs) = AList.update k v xs"
  by (induction xs) auto

lemma failed_notification_twice:
  "add_notification_for_failed_new_session L now r loc e s = (n, s') \<Longrightarrow>
     add_notification n s' = s'"
  by (auto simp: add_notification_for_failed_new_session_def add_notification_def Let_def
      insert_notification_def update_same_twice)

lemma notifications_mset:
  "(\<And>xs. mset (order xs) = mset xs) \<Longrightarrow>
     mset (notifications order s) = mset (map snd (ds_notifications s))"
  by (simp add: notifications_def)

lemma notifications_sorted: "sorted_wrt (\<lambda>a b. ntf_timestamp b \<le> ntf_timestamp a) (notifications order s)"
proof -
  have "sorted (map (\<lambda>n. - ntf_timestamp n) (notifications order s))"
    unfolding notifications_def by (rule sorted_sort_key)
  then show ?thesis by (simp add: sorted_map)
qed

lemma notifications_after_remove:
  assumes "\<And>xs. mset (order xs) = mset xs"
  shows "set (notifications order (remove_notification i s))
     = {n. \<exists>k. (k, n) \<in> set (ds_notifications s) \<and> k \<noteq> i}"
proof -
  have "set (notifications order (remove_notification i s))
      = snd ` set (AList.delete i (ds_notifications s))"
    using mset_eq_setD [OF notifications_mset [of order, OF assms]]
    by (simp add: remove_notification_def)
  then show ?thesis by (force simp: AList.delete_eq)
qed

end
