(* ===== verification/Session_Storage.thy ===== *)
theory Session_Storage
  imports Errors
begin

text \<open>
  modvpn-daemon/src/vpn\_session/storage.rs: the table of vpn sessions. A row is created when a
  session is requested, follows the server's status, is marked for deletion when the session is
  ended, and is deleted once the server has confirmed the end (or by the reclaimer).

  The operations are in the order of the source. After them: the invariant of the table
  (\<open>rows_ok\<close>: ids are unique and are texts of uuids), which every operation keeps whatever
  statements fail; what each operation does when its statements succeed; and the abstract view
  of the table, a map from request ids to "live" or "marked", which the operations refine.
\<close>

section \<open>Data\<close>

record error_state =
  err_cause :: string  \<comment> \<open>the text of \<open>cause()\<close>\<close>
  err_debug :: string

datatype tunnel_transition =
    TunDisconnected
  | TunConnecting string  \<comment> \<open>the payload is the text of the endpoint\<close>
  | TunConnected string
  | TunDisconnecting string
  | TunError error_state

datatype tunnel_command = TunnelConnect | TunnelDisconnect

record session_info =
  si_request_id :: uuid
  si_vpn_session_id :: uuid

definition session_info_display :: "lib \<Rightarrow> session_info \<Rightarrow> string" where
  "session_info_display L s =
     ''SessionInfo request_id: '' @ uuid_to_string L (si_request_id s)
     @ '', vpn_session_uuid: '' @ uuid_to_string L (si_vpn_session_id s)"

record status_processed =
  sp_vpn_status :: "vpn_status option"
  sp_notification :: "notification option"

record tunnel_processed =
  tp_vpn_status :: vpn_status
  tp_tunnel_command :: "tunnel_command option"
  tp_end_session :: "string option"
  tp_notification :: "notification option"
  tp_client_connected :: "session_info option"

datatype storage_server_status =
    StoredAccepted | StoredFailed | StoredServerCreated | StoredServerRunning
  | StoredServerReady | StoredClientConnected | StoredEnded

fun storage_status_text :: "storage_server_status \<Rightarrow> string" where
  "storage_status_text StoredAccepted = ''Accepted''"
| "storage_status_text StoredFailed = ''Failed''"
| "storage_status_text StoredServerCreated = ''ServerCreated''"
| "storage_status_text StoredServerRunning = ''ServerRunning''"
| "storage_status_text StoredServerReady = ''ServerReady''"
| "storage_status_text StoredClientConnected = ''ClientConnected''"
| "storage_status_text StoredEnded = ''Ended''"

section \<open>Operations\<close>

definition session_row_of :: "lib \<Rightarrow> uuid \<Rightarrow> datetime \<Rightarrow> location \<Rightarrow> session_row" where
  "session_row_of L request_id now l = \<lparr>
     row_request_id = uuid_to_string L request_id,
     row_location_code = loc_code l, row_location_city = loc_city l,
     row_location_city_code = loc_city_code l, row_location_country = loc_country l,
     row_location_country_code = loc_country_code l, row_location_state = loc_state l,
     row_location_state_code = loc_state_code l, row_server_status = None,
     row_session_uuid = None, row_server_ipv4_endpoint = None, row_server_private_ipv4 = None,
     row_server_public_key = None, row_requested_at = dt_to_rfc3339 L now,
     row_mark_for_deletion = False \<rparr>"

definition storage_new_session ::
    "lib \<Rightarrow> uuid \<Rightarrow> datetime \<Rightarrow> location \<Rightarrow> (db, uuid, db_err) prog" where
  \<comment> \<open>\<open>request_id\<close> is what \<open>Uuid::new_v4\<close> draws and \<open>now\<close> what \<open>Utc::now\<close> reads\<close>
  "storage_new_session L request_id now l =
     and_then (sql_insert session_table row_request_id (session_row_of L request_id now l))
       (\<lambda>_. ret request_id)"

definition mark_row :: "session_row \<Rightarrow> session_row" where
  "mark_row r = r\<lparr>row_mark_for_deletion := True\<rparr>"

definition unmarked :: "session_row \<Rightarrow> bool" where
  "unmarked r \<longleftrightarrow> \<not> row_mark_for_deletion r"

definition info_of_texts :: "lib \<Rightarrow> string \<Rightarrow> string \<Rightarrow> (session_info, 'e) res" where
  "info_of_texts L r v =
     res_bind (parse_uuid L r) (\<lambda>a. res_bind (parse_uuid L v) (\<lambda>b.
       Ok \<lparr>si_request_id = a, si_vpn_session_id = b\<rparr>))"

definition storage_end_session :: "lib \<Rightarrow> (db, session_info option, db_err) prog" where
  "storage_end_session L =
     and_then (sql_one L session_table unmarked) (\<lambda>v. case v of
       Some r \<Rightarrow>
         and_then (sql_update_many session_table (\<lambda>x. row_request_id x = row_request_id r) mark_row)
           (\<lambda>_. case row_session_uuid r of
              Some u \<Rightarrow> give (map_ok Some (info_of_texts L (row_request_id r) u))
            | None \<Rightarrow> ret None)
     | None \<Rightarrow> ret None)"

definition storage_reclaim :: "(db, unit, db_err) prog" where
  "storage_reclaim =
     and_then (sql_update_many session_table (\<lambda>_. True) mark_row) (\<lambda>_. ret ())"

definition reclaimable :: "lib \<Rightarrow> session_row \<Rightarrow> bool" where
  "reclaimable L r \<longleftrightarrow>
     (case row_session_uuid r of
        None \<Rightarrow> False
      | Some u \<Rightarrow> uuid_parse_str L u \<noteq> None \<and> uuid_parse_str L (row_request_id r) \<noteq> None)"

definition info_of_row :: "lib \<Rightarrow> session_row \<Rightarrow> (session_info, 'e) res" where
  "info_of_row L r =
     res_bind (parse_uuid L (row_request_id r)) (\<lambda>a.
     res_bind (unwrap (row_session_uuid r)) (\<lambda>u.
     res_bind (parse_uuid L u) (\<lambda>b.
       Ok \<lparr>si_request_id = a, si_vpn_session_id = b\<rparr>)))"

definition storage_to_reclaim :: "lib \<Rightarrow> (db, session_info list, db_err) prog" where
  "storage_to_reclaim L =
     and_then (sql_all session_table row_mark_for_deletion) (\<lambda>rows.
       give (collect (info_of_row L) (filter (reclaimable L) rows)))"

definition storage_update_on_accepted :: "lib \<Rightarrow> accepted \<Rightarrow> (db, unit, db_err) prog" where
  "storage_update_on_accepted L a =
     and_then (sql_update_many session_table
         (\<lambda>r. row_request_id r = uuid_to_string L (acc_request_id a))
         (\<lambda>r. r\<lparr>row_server_status := Some (storage_status_text StoredAccepted),
                row_session_uuid := Some (uuid_to_string L (acc_vpn_session_uuid a))\<rparr>))
       (\<lambda>_. ret ())"

definition storage_delete :: "lib \<Rightarrow> uuid \<Rightarrow> (db, unit, db_err) prog" where
  "storage_delete L request_id =
     and_then (sql_delete_many session_table (\<lambda>r. row_request_id r = uuid_to_string L request_id))
       (\<lambda>_. ret ())"

fun get_session_info :: "vpn_session_status \<Rightarrow> session_info" where
  "get_session_info (SessAccepted a) =
     \<lparr>si_request_id = acc_request_id a, si_vpn_session_id = acc_vpn_session_uuid a\<rparr>"
| "get_session_info (SessFailed f) =
     \<lparr>si_request_id = fl_request_id f, si_vpn_session_id = fl_vpn_session_uuid f\<rparr>"
| "get_session_info (SessServerCreated s) =
     \<lparr>si_request_id = sc_request_id s, si_vpn_session_id = sc_vpn_session_uuid s\<rparr>"
| "get_session_info (SessServerRunning s) =
     \<lparr>si_request_id = srun_request_id s, si_vpn_session_id = srun_vpn_session_uuid s\<rparr>"
| "get_session_info (SessServerReady s) =
     \<lparr>si_request_id = sr_request_id s, si_vpn_session_id = sr_vpn_session_uuid s\<rparr>"
| "get_session_info (SessClientConnected c) =
     \<lparr>si_request_id = cc_request_id c, si_vpn_session_id = cc_vpn_session_uuid c\<rparr>"
| "get_session_info (SessEnded e) =
     \<lparr>si_request_id = en_request_id e, si_vpn_session_id = en_vpn_session_uuid e\<rparr>"

definition set_status :: "storage_server_status \<Rightarrow> session_row \<Rightarrow> session_row" where
  "set_status st r = r\<lparr>row_server_status := Some (storage_status_text st)\<rparr>"

definition set_ready :: "lib \<Rightarrow> server_ready \<Rightarrow> session_row \<Rightarrow> session_row" where
  "set_ready L sr r = r\<lparr>
     row_server_status := Some (storage_status_text StoredServerReady),
     row_server_ipv4_endpoint := Some (sock_to_string L (sr_ipv4_endpoint sr)),
     row_server_private_ipv4 := Some (ipv4_to_string (sr_private_ipv4 sr)),
     row_server_public_key := Some (sr_public_key sr) \<rparr>"

definition failed_notification :: "lib \<Rightarrow> datetime \<Rightarrow> session_info \<Rightarrow> notification" where
  "failed_notification L now info = \<lparr>
     ntf_id = ''failed-'' @ uuid_to_string L (si_request_id info),
     ntf_message = ''Server could not be provisioned, please try again later'',
     ntf_type = ServerFailed, ntf_timestamp = now \<rparr>"

definition update_row ::
    "session_row \<Rightarrow> (session_row \<Rightarrow> session_row) \<Rightarrow> (db, unit, db_err) prog" where
  "update_row r f = sql_update session_table (\<lambda>x. row_request_id x = row_request_id r) f"

definition delete_row :: "session_row \<Rightarrow> (db, nat, db_err) prog" where
  "delete_row r = sql_delete_many session_table (\<lambda>x. row_request_id x = row_request_id r)"

definition processed :: "vpn_status option \<Rightarrow> notification option \<Rightarrow> status_processed" where
  "processed v n = \<lparr>sp_vpn_status = v, sp_notification = n\<rparr>"

definition apply_server_status ::
    "lib \<Rightarrow> datetime \<Rightarrow> vpn_session_status \<Rightarrow> session_row \<Rightarrow> (db, status_processed, db_err) prog" where
  \<comment> \<open>the branch where the session is found locally\<close>
  "apply_server_status L now st r =
     (let l = location_of_session_row r in
      case st of
        SessAccepted a \<Rightarrow> and_then (update_row r (set_status StoredAccepted))
          (\<lambda>_. ret (processed None None))
      | SessFailed f \<Rightarrow> and_then (delete_row r)
          (\<lambda>_. ret (processed (Some VpnDisconnected)
             (Some (failed_notification L now (get_session_info st)))))
      | SessServerCreated s \<Rightarrow> and_then (update_row r (set_status StoredServerCreated))
          (\<lambda>_. ret (processed (Some (VpnServerCreated l)) None))
      | SessServerRunning s \<Rightarrow> and_then (update_row r (set_status StoredServerRunning))
          (\<lambda>_. ret (processed (Some (VpnServerRunning l)) None))
      | SessServerReady s \<Rightarrow> and_then (update_row r (set_ready L s))
          (\<lambda>_. ret (processed (Some (VpnServerReady l)) None))
      | SessClientConnected c \<Rightarrow> and_then (update_row r (set_status StoredClientConnected))
          (\<lambda>_. ret (processed None None))
      | SessEnded e \<Rightarrow> and_then (delete_row r)
          (\<lambda>_. ret (processed (Some VpnDisconnected) None)))"

definition updated_server_status ::
    "lib \<Rightarrow> datetime \<Rightarrow> vpn_session_status \<Rightarrow> (db, status_processed, db_err) prog" where
  "updated_server_status L now st =
     and_then (sql_one L session_table (\<lambda>r.
         row_request_id r = uuid_to_string L (si_request_id (get_session_info st)) \<and> unmarked r))
       (\<lambda>v. case v of
          None \<Rightarrow> ret (processed None None)
        | Some r \<Rightarrow> apply_server_status L now st r)"

definition client_failed :: "datetime \<Rightarrow> string \<Rightarrow> error_state \<Rightarrow> notification" where
  "client_failed now i es = \<lparr>ntf_id = i, ntf_message = err_cause es,
     ntf_type = ClientFailed, ntf_timestamp = now\<rparr>"

definition tunnel_now :: "vpn_status \<Rightarrow> tunnel_processed" where
  "tunnel_now v = \<lparr>tp_vpn_status = v, tp_tunnel_command = None, tp_end_session = None,
     tp_notification = None, tp_client_connected = None\<rparr>"

definition tunnel_failed :: "datetime \<Rightarrow> string \<Rightarrow> error_state \<Rightarrow> tunnel_processed" where
  "tunnel_failed now i es = \<lparr>tp_vpn_status = VpnDisconnected,
     tp_tunnel_command = Some TunnelDisconnect, tp_end_session = Some (err_cause es),
     tp_notification = Some (client_failed now i es), tp_client_connected = None\<rparr>"

definition transition_with_session ::
    "lib \<Rightarrow> datetime \<Rightarrow> tunnel_transition \<Rightarrow> session_row \<Rightarrow> (db, tunnel_processed, db_err) prog" where
  "transition_with_session L now tr r =
     (let l = location_of_session_row r in
      case tr of
        TunDisconnected \<Rightarrow> ret (tunnel_now VpnDisconnected)
      | TunConnecting e \<Rightarrow> ret (tunnel_now (VpnConnecting l))
      | TunConnected e \<Rightarrow> and_then (update_row r (set_status StoredClientConnected)) (\<lambda>_.
          give (map_ok (\<lambda>info. (tunnel_now (VpnConnected l now))\<lparr>tp_client_connected := Some info\<rparr>)
            (info_of_row L r)))
      | TunDisconnecting a \<Rightarrow> ret (tunnel_now (VpnDisconnecting l))
      | TunError es \<Rightarrow> ret (tunnel_failed now (''ce-'' @ row_request_id r) es))"

definition transition_without_session ::
    "datetime \<Rightarrow> tunnel_transition \<Rightarrow> vpn_status \<Rightarrow> (db, tunnel_processed, db_err) prog" where
  "transition_without_session now tr current =
     (case tr of
        TunDisconnected \<Rightarrow> ret (tunnel_now VpnDisconnected)
      | TunConnecting e \<Rightarrow> ret (tunnel_now VpnDisconnected)
      | TunConnected e \<Rightarrow> ret (tunnel_now VpnDisconnected)
      | TunDisconnecting a \<Rightarrow>
          (case current of
             VpnDisconnecting l \<Rightarrow> ret (tunnel_now (VpnDisconnecting l))
           | _ \<Rightarrow> give (Panic (''No vpn session found; current state is ''
               @ vpn_status_display current @ '' and tunnel transitioned to disconnecting'')))
      | TunError es \<Rightarrow> ret (tunnel_failed now ''unknown'' es))"

definition tunnel_state_transition ::
    "lib \<Rightarrow> datetime \<Rightarrow> tunnel_transition \<Rightarrow> vpn_status \<Rightarrow> (db, tunnel_processed, db_err) prog" where
  "tunnel_state_transition L now tr current =
     and_then (sql_one L session_table unmarked) (\<lambda>v. case v of
       Some r \<Rightarrow> transition_with_session L now tr r
     | None \<Rightarrow> transition_without_session now tr current)"

section \<open>The invariant of the table\<close>

definition canonical_id :: "lib \<Rightarrow> string \<Rightarrow> bool" where
  \<comment> \<open>the text the library prints for some uuid\<close>
  "canonical_id L s = (case uuid_parse_str L s of None \<Rightarrow> False | Some k \<Rightarrow> uuid_to_string L k = s)"

lemma canonical_idE:
  assumes "canonical_id L s"
  obtains k where "uuid_parse_str L s = Some k" and "uuid_to_string L k = s"
  using assms by (auto simp: canonical_id_def split: option.splits)

lemma canonical_id_show [simp]: "uuid_ok L \<Longrightarrow> canonical_id L (uuid_to_string L k)"
  by (simp add: canonical_id_def)

definition row_ok :: "lib \<Rightarrow> session_row \<Rightarrow> bool" where
  "row_ok L r \<longleftrightarrow> canonical_id L (row_request_id r)
     \<and> (\<forall>u. row_session_uuid r = Some u \<longrightarrow> uuid_parse_str L u \<noteq> None)"

definition rows_ok :: "lib \<Rightarrow> db \<Rightarrow> bool" where
  "rows_ok L d \<longleftrightarrow> distinct (map row_request_id (vpn_sessions d))
     \<and> (\<forall>r \<in> set (vpn_sessions d). row_ok L r)"

lemma rows_ok_empty [simp]: "rows_ok L empty_db"
  by (simp add: rows_ok_def empty_db_def)

lemma rows_ok_faults [simp]: "rows_ok L (d\<lparr>faults := fs\<rparr>) = rows_ok L d"
  by (simp add: rows_ok_def)

text \<open>The three shapes of a change: a row is added, rows are rewritten in place, rows go.\<close>

lemma rows_ok_add:
  "rows_ok L d \<Longrightarrow> row_ok L r \<Longrightarrow> row_request_id r \<notin> row_request_id ` set (vpn_sessions d) \<Longrightarrow>
     rows_ok L (vpn_sessions_update (\<lambda>rs. rs @ [r]) d)"
  by (auto simp: rows_ok_def)

lemma rows_ok_map:
  assumes "rows_ok L d"
    and "\<And>r. row_request_id (f r) = row_request_id r"
    and "\<And>r. row_ok L r \<Longrightarrow> row_ok L (f r)"
  shows "rows_ok L (vpn_sessions_update (map f) d)"
  using assms by (auto simp: rows_ok_def comp_def)

lemma rows_ok_filter: "rows_ok L d \<Longrightarrow> rows_ok L (vpn_sessions_update (filter P) d)"
  by (auto simp: rows_ok_def distinct_map inj_on_def)

lemma keeps_one [keeps_intros]: "keeps (rows_ok L) (sql_one M session_table P)"
  unfolding sql_one_def by (rule keeps_statement) (simp_all add: keeps_def)

lemma keeps_all [keeps_intros]: "keeps (rows_ok L) (sql_all session_table P)"
  unfolding sql_all_def by (rule keeps_statement) (simp_all add: keeps_def)

lemma keeps_insert [keeps_intros]:
  "row_ok L r \<Longrightarrow> keeps (rows_ok L) (sql_insert session_table row_request_id r)"
  unfolding sql_insert_def by (rule keeps_statement) (simp_all add: keeps_def rows_ok_add)

lemma keeps_update_many [keeps_intros]:
  assumes "\<And>r. row_request_id (f r) = row_request_id r"
    and "\<And>r. row_ok L r \<Longrightarrow> row_ok L (f r)"
  shows "keeps (rows_ok L) (sql_update_many session_table P f)"
  unfolding sql_update_many_def
  by (rule keeps_statement) (simp_all add: keeps_def rows_ok_map assms)

lemma keeps_update [keeps_intros]:
  assumes "\<And>r. row_request_id (f r) = row_request_id r"
    and "\<And>r. row_ok L r \<Longrightarrow> row_ok L (f r)"
  shows "keeps (rows_ok L) (sql_update session_table P f)"
  unfolding sql_update_def
  by (rule keeps_statement) (simp_all add: keeps_def rows_ok_map assms)

lemma keeps_delete_many [keeps_intros]: "keeps (rows_ok L) (sql_delete_many session_table P)"
  unfolding sql_delete_many_def
  by (rule keeps_statement) (simp_all add: keeps_def rows_ok_filter)

lemma row_ok_new: "uuid_ok L \<Longrightarrow> row_ok L (session_row_of L request_id now l)"
  by (simp add: row_ok_def session_row_of_def)

lemma row_changes [simp]:
  "row_request_id (mark_row r) = row_request_id r"
  "row_request_id (set_status st r) = row_request_id r"
  "row_request_id (set_ready M sr r) = row_request_id r"
  "row_ok L (mark_row r) = row_ok L r"
  "row_ok L (set_status st r) = row_ok L r"
  "row_ok L (set_ready M sr r) = row_ok L r"
  by (simp_all add: mark_row_def set_status_def set_ready_def row_ok_def)

lemma keeps_option [keeps_intros]:
  "keeps I p \<Longrightarrow> (\<And>x. keeps I (q x)) \<Longrightarrow> keeps I (case v of None \<Rightarrow> p | Some x \<Rightarrow> q x)"
  by (simp split: option.split)


lemma keeps_new_session [keeps_intros]:
  "uuid_ok L \<Longrightarrow> keeps (rows_ok L) (storage_new_session L r now l)"
  unfolding storage_new_session_def by (auto intro!: keeps_intros row_ok_new)

lemma keeps_end_session [keeps_intros]: "keeps (rows_ok L) (storage_end_session M)"
  unfolding storage_end_session_def by (auto intro!: keeps_intros split: option.split)

lemma keeps_reclaim [keeps_intros]: "keeps (rows_ok L) storage_reclaim"
  unfolding storage_reclaim_def by (auto intro!: keeps_intros)

lemma keeps_to_reclaim [keeps_intros]: "keeps (rows_ok L) (storage_to_reclaim M)"
  unfolding storage_to_reclaim_def by (auto intro!: keeps_intros)

lemma keeps_update_on_accepted [keeps_intros]:
  "uuid_ok L \<Longrightarrow> keeps (rows_ok L) (storage_update_on_accepted L a)"
  unfolding storage_update_on_accepted_def by (auto intro!: keeps_intros simp: row_ok_def)

lemma keeps_delete [keeps_intros]: "keeps (rows_ok L) (storage_delete M r)"
  unfolding storage_delete_def by (auto intro!: keeps_intros)

lemma keeps_update_row [keeps_intros]:
  "(\<And>r. row_request_id (f r) = row_request_id r) \<Longrightarrow> (\<And>r. row_ok L r \<Longrightarrow> row_ok L (f r)) \<Longrightarrow>
     keeps (rows_ok L) (update_row r f)"
  unfolding update_row_def by (rule keeps_update)

lemma keeps_delete_row [keeps_intros]: "keeps (rows_ok L) (delete_row r)"
  unfolding delete_row_def by (rule keeps_delete_many)

lemma keeps_updated_server_status [keeps_intros]:
  "keeps (rows_ok L) (updated_server_status M now st)"
  unfolding updated_server_status_def apply_server_status_def Let_def
  by (cases st) (auto intro!: keeps_intros split: option.split)

lemma keeps_tunnel_state_transition [keeps_intros]:
  "keeps (rows_ok L) (tunnel_state_transition M now tr cur)"
  unfolding tunnel_state_transition_def transition_with_session_def
    transition_without_session_def Let_def
  by (cases tr) (auto intro!: keeps_intros split: option.split vpn_status.split)

section \<open>What the operations do when their statements succeed\<close>

abbreviation has_id :: "string \<Rightarrow> session_row \<Rightarrow> bool" where
  "has_id k \<equiv> \<lambda>x. row_request_id x = k"

definition row_info :: "lib \<Rightarrow> session_row \<Rightarrow> session_info option" where
  "row_info L r = (case row_session_uuid r of
      None \<Rightarrow> None
    | Some u \<Rightarrow> Some \<lparr>si_request_id = the (uuid_parse_str L (row_request_id r)),
                      si_vpn_session_id = the (uuid_parse_str L u)\<rparr>)"

lemma info_of_texts_ok:
  "row_ok L r \<Longrightarrow> row_session_uuid r = Some u \<Longrightarrow>
     info_of_texts L (row_request_id r) u = Ok (the (row_info L r))"
  by (auto simp: row_ok_def info_of_texts_def parse_uuid_def row_info_def elim!: canonical_idE)

lemma info_of_row_ok:
  "row_ok L r \<Longrightarrow> row_session_uuid r = Some u \<Longrightarrow> info_of_row L r = Ok (the (row_info L r))"
  by (auto simp: row_ok_def info_of_row_def parse_uuid_def row_info_def elim!: canonical_idE)

lemma info_of_row_panics_iff:
  "row_ok L r \<Longrightarrow> is_panic (info_of_row L r) \<longleftrightarrow> row_session_uuid r = None"
  by (auto simp: row_ok_def info_of_row_def parse_uuid_def is_panic_res_bind
      elim!: canonical_idE split: option.splits)

lemma new_session_run [prog_simps]:
  "reliable d \<Longrightarrow> uuid_to_string L k \<notin> row_request_id ` set (vpn_sessions d) \<Longrightarrow>
     storage_new_session L k now l d =
       (Ok k, vpn_sessions_update (\<lambda>rs. rs @ [session_row_of L k now l]) d)"
  by (simp add: storage_new_session_def prog_simps session_row_of_def)

lemma delete_run [prog_simps]:
  "reliable d \<Longrightarrow> storage_delete L k d =
     (Ok (), vpn_sessions_update (filter (\<lambda>r. \<not> has_id (uuid_to_string L k) r)) d)"
  by (simp add: storage_delete_def prog_simps)

lemma reclaim_run [prog_simps]:
  "reliable d \<Longrightarrow> storage_reclaim d = (Ok (), vpn_sessions_update (map mark_row) d)"
  by (simp add: storage_reclaim_def prog_simps)

lemma update_on_accepted_run [prog_simps]:
  "reliable d \<Longrightarrow> storage_update_on_accepted L a d =
     (Ok (), vpn_sessions_update (map (\<lambda>r. if has_id (uuid_to_string L (acc_request_id a)) r
        then r\<lparr>row_server_status := Some (storage_status_text StoredAccepted),
               row_session_uuid := Some (uuid_to_string L (acc_vpn_session_uuid a))\<rparr> else r)) d)"
  by (simp add: storage_update_on_accepted_def prog_simps)

lemma end_session_none [prog_simps]:
  "reliable d \<Longrightarrow> filter unmarked (vpn_sessions d) = [] \<Longrightarrow> storage_end_session L d = (Ok None, d)"
  by (simp add: storage_end_session_def prog_simps)

lemma end_session_some:
  assumes "reliable d" and "rows_ok L d"
    and r: "pick_row L (filter unmarked (vpn_sessions d)) = Some r"
  shows "storage_end_session L d =
     (Ok (row_info L r),
      vpn_sessions_update (map (\<lambda>x. if has_id (row_request_id r) x then mark_row x else x)) d)"
proof -
  from r have "r \<in> set (vpn_sessions d)" by (auto dest: pick_row_filter_Some)
  with assms(2) have ok: "row_ok L r" by (simp add: rows_ok_def)
  show ?thesis
    using r assms(1)
    by (cases "row_session_uuid r")
      (simp_all add: storage_end_session_def prog_simps info_of_texts_ok [OF ok] row_info_def)
qed

lemma info_of_reclaimable: "reclaimable L r \<Longrightarrow> info_of_row L r = Ok (the (row_info L r))"
  by (auto simp: reclaimable_def info_of_row_def row_info_def parse_uuid_def split: option.splits)

lemma collect_reclaimable:
  "collect (info_of_row L) (filter (reclaimable L) rows)
     = Ok (map (\<lambda>r. the (row_info L r)) (filter (reclaimable L) rows))"
  by (induction rows) (auto simp: info_of_reclaimable)

lemma to_reclaim_run [prog_simps]:
  "reliable d \<Longrightarrow> storage_to_reclaim L d =
     (Ok (map (\<lambda>r. the (row_info L r))
        (filter (reclaimable L) (filter row_mark_for_deletion (vpn_sessions d)))), d)"
  by (simp add: storage_to_reclaim_def prog_simps collect_reclaimable)

lemma to_reclaim_calm: "no_panic (storage_to_reclaim L d)"
  unfolding storage_to_reclaim_def by (auto intro!: calm_intros simp: collect_reclaimable)

text \<open>
  With the invariant, ending a session never panics, whichever statements fail.
\<close>

lemma end_session_calm [calm_intros]:
  "rows_ok L d \<Longrightarrow> no_panic (storage_end_session L d)"
  unfolding storage_end_session_def
  by (auto intro!: calm_intros simp: info_of_texts_ok rows_ok_def
      dest!: sessions.one_Some split: option.split)

lemma storage_calm [calm_intros, simp]:
  "no_panic (storage_new_session L k now l d)"
  "no_panic (storage_reclaim d)"
  "no_panic (storage_update_on_accepted L a d)"
  "no_panic (storage_delete L k d)"
  unfolding storage_new_session_def storage_reclaim_def storage_update_on_accepted_def
    storage_delete_def
  by (auto intro!: calm_intros)

lemma row_change_calm [calm_intros, simp]:
  "no_panic (update_row r f d)"
  "no_panic (delete_row r d)"
  by (simp_all add: update_row_def delete_row_def)

lemma updated_server_status_calm [calm_intros]:
  "no_panic (updated_server_status L now st d)"
  unfolding updated_server_status_def apply_server_status_def Let_def
  by (cases st) (auto intro!: calm_intros split: option.split)

section \<open>The server's status, step by step\<close>

definition session_with :: "lib \<Rightarrow> uuid \<Rightarrow> db \<Rightarrow> session_row option" where
  \<comment> \<open>the live row with this id\<close>
  "session_with L k d =
     find (\<lambda>r. row_request_id r = uuid_to_string L k \<and> unmarked r) (vpn_sessions d)"

lemma find_filter: "find P xs = Some r \<Longrightarrow> filter P xs \<noteq> [] \<and> r \<in> set (filter P xs)"
  by (auto simp: find_Some_iff filter_empty_conv)

lemma pick_live:
  assumes "rows_ok L d"
  shows "pick_row M (filter (\<lambda>r. row_request_id r = uuid_to_string L k \<and> unmarked r)
     (vpn_sessions d)) = session_with L k d"
proof (cases "session_with L k d")
  case None
  then have "filter (\<lambda>r. row_request_id r = uuid_to_string L k \<and> unmarked r) (vpn_sessions d) = []"
    by (simp add: session_with_def find_None_iff filter_empty_conv)
  with None show ?thesis by simp
next
  case (Some r)
  let ?P = "\<lambda>r. row_request_id r = uuid_to_string L k \<and> unmarked r"
  from Some have r: "r \<in> set (filter ?P (vpn_sessions d))" and ne: "filter ?P (vpn_sessions d) \<noteq> []"
    unfolding session_with_def by (auto dest: find_filter)
  then obtain x where x: "pick_row M (filter ?P (vpn_sessions d)) = Some x"
    by (cases "pick_row M (filter ?P (vpn_sessions d))") auto
  then have "x \<in> set (vpn_sessions d)" "row_request_id x = row_request_id r"
    using r by (auto dest!: pick_row_filter_Some)
  with r assms have "x = r"
    by (auto simp: rows_ok_def distinct_map inj_on_def)
  with x Some show ?thesis by simp
qed

lemma session_withD:
  "session_with L k d = Some r \<Longrightarrow>
     r \<in> set (vpn_sessions d) \<and> row_request_id r = uuid_to_string L k \<and> unmarked r"
  by (auto simp: session_with_def find_Some_iff)

fun apply_status :: "lib \<Rightarrow> vpn_session_status \<Rightarrow> session_row \<Rightarrow> session_row option" where
  \<comment> \<open>what a status makes of the row of its session: a new row, or none\<close>
  "apply_status L (SessAccepted a) r = Some (set_status StoredAccepted r)"
| "apply_status L (SessFailed f) r = None"
| "apply_status L (SessServerCreated s) r = Some (set_status StoredServerCreated r)"
| "apply_status L (SessServerRunning s) r = Some (set_status StoredServerRunning r)"
| "apply_status L (SessServerReady s) r = Some (set_ready L s r)"
| "apply_status L (SessClientConnected c) r = Some (set_status StoredClientConnected r)"
| "apply_status L (SessEnded e) r = None"

fun announced :: "vpn_session_status \<Rightarrow> location \<Rightarrow> vpn_status option" where
  \<comment> \<open>the status of the vpn the clients are told\<close>
  "announced (SessAccepted a) l = None"
| "announced (SessFailed f) l = Some VpnDisconnected"
| "announced (SessServerCreated s) l = Some (VpnServerCreated l)"
| "announced (SessServerRunning s) l = Some (VpnServerRunning l)"
| "announced (SessServerReady s) l = Some (VpnServerReady l)"
| "announced (SessClientConnected c) l = None"
| "announced (SessEnded e) l = Some VpnDisconnected"

definition update_session ::
    "string \<Rightarrow> (session_row \<Rightarrow> session_row option) \<Rightarrow> session_row list \<Rightarrow> session_row list" where
  "update_session k f rs = List.map_filter (\<lambda>r. if row_request_id r = k then f r else Some r) rs"

lemma update_session_Some:
  "(\<And>r. f r = Some (g r)) \<Longrightarrow>
     update_session k f rs = map (\<lambda>r. if has_id k r then g r else r) rs"
  unfolding update_session_def by (induction rs) (auto simp: List.map_filter_simps)

lemma update_session_None:
  "(\<And>r. f r = None) \<Longrightarrow> update_session k f rs = filter (\<lambda>r. \<not> has_id k r) rs"
  unfolding update_session_def by (induction rs) (auto simp: List.map_filter_simps)

lemma updated_server_status_run:
  assumes "reliable d" and "rows_ok L d"
  shows "updated_server_status L now st d =
     (case session_with L (si_request_id (get_session_info st)) d of
        None \<Rightarrow> (Ok (processed None None), d)
      | Some r \<Rightarrow>
          (Ok (processed (announced st (location_of_session_row r))
             (case st of
                SessFailed f \<Rightarrow> Some (failed_notification L now (get_session_info st))
              | _ \<Rightarrow> None)),
           vpn_sessions_update (update_session (row_request_id r) (apply_status L st)) d))"
proof (cases "session_with L (si_request_id (get_session_info st)) d")
  case None
  with assms show ?thesis
    by (simp add: updated_server_status_def prog_simps pick_live)
next
  case (Some r)
  then have "filter (has_id (row_request_id r)) (vpn_sessions d) \<noteq> []"
    by (auto dest!: session_withD simp: filter_empty_conv)
  moreover from Some have "r \<in> set (vpn_sessions d)" by (auto dest!: session_withD)
  ultimately show ?thesis
    using assms Some
    by (cases st) (simp_all add: updated_server_status_def apply_server_status_def Let_def
        prog_simps pick_live update_row_def delete_row_def sessions.run_update [of _ r]
        update_session_Some update_session_None)
qed

text \<open>
  The comment in the source asks for idempotence, "as same server update can arrive multiple
  times": handling a status a second time leaves the table as the first time left it.
\<close>

lemma apply_status_key: "apply_status L st r = Some r' \<Longrightarrow>
    row_request_id r' = row_request_id r \<and> row_mark_for_deletion r' = row_mark_for_deletion r"
  by (cases st) (auto simp: set_status_def set_ready_def)

lemma apply_status_idem: "apply_status L st r = Some r' \<Longrightarrow> apply_status L st r' = Some r'"
  by (cases st) (auto simp: set_status_def set_ready_def)

lemma apply_status_None: "apply_status L st r = None \<longleftrightarrow> apply_status L st r' = None"
  by (cases st) simp_all

lemma update_session_idem:
  "(\<And>r r'. f r = Some r' \<Longrightarrow> row_request_id r' = row_request_id r \<and> f r' = Some r') \<Longrightarrow>
     update_session k f (update_session k f rs) = update_session k f rs"
  unfolding update_session_def
  by (induction rs) (auto simp: List.map_filter_simps split: option.split)

lemma update_session_ids:
  "(\<And>r r'. f r = Some r' \<Longrightarrow> row_request_id r' = row_request_id r) \<Longrightarrow>
     row_request_id ` set (update_session k f rs) \<subseteq> row_request_id ` set rs"
  unfolding update_session_def
  by (force simp: List.map_filter_def split: if_splits)

lemma rows_ok_updated:
  assumes "rows_ok L d" and "updated_server_status M now st d = (r, d')"
  shows "rows_ok L d'"
  using keepsD [OF keeps_updated_server_status assms] .

lemma updated_twice:
  assumes "reliable d" and "rows_ok L d"
  shows "snd (updated_server_status L later st (snd (updated_server_status L now st d)))
     = snd (updated_server_status L now st d)"
proof (cases "session_with L (si_request_id (get_session_info st)) d")
  case None
  with assms show ?thesis by (simp add: updated_server_status_run)
next
  case (Some r)
  let ?k = "uuid_to_string L (si_request_id (get_session_info st))"
  let ?d = "vpn_sessions_update (update_session (row_request_id r) (apply_status L st)) d"
  from Some have k: "row_request_id r = ?k" by (auto dest!: session_withD)
  have run: "snd (updated_server_status L now st d) = ?d"
    using assms Some by (simp add: updated_server_status_run)
  have "rows_ok L ?d"
    using rows_ok_updated [OF assms(2)] run by (metis prod.collapse)
  then have "snd (updated_server_status L later st ?d) =
      (case session_with L (si_request_id (get_session_info st)) ?d of None \<Rightarrow> ?d
       | Some x \<Rightarrow> vpn_sessions_update (update_session (row_request_id x) (apply_status L st)) ?d)"
    using assms(1) by (simp add: updated_server_status_run split: option.split)
  also have "\<dots> = ?d"
  proof (cases "session_with L (si_request_id (get_session_info st)) ?d")
    case (Some x)
    then have "row_request_id x = row_request_id r" using k by (auto dest!: session_withD)
    then show ?thesis using Some
      by (simp add: comp_def update_session_idem [OF conjI, OF conjunct1 [OF apply_status_key] apply_status_idem])
  qed simp
  finally show ?thesis using run by simp
qed

section \<open>The tunnel's transitions\<close>

definition picked :: "lib \<Rightarrow> db \<Rightarrow> session_row option" where
  \<comment> \<open>the live row that an unordered query returns\<close>
  "picked L d = pick_row L (filter unmarked (vpn_sessions d))"

lemma pickedD: "picked L d = Some r \<Longrightarrow> r \<in> set (vpn_sessions d) \<and> unmarked r"
  by (auto simp: picked_def dest: pick_row_filter_Some)

lemma picked_None: "picked L d = None \<longleftrightarrow> (\<forall>r \<in> set (vpn_sessions d). row_mark_for_deletion r)"
  by (simp add: picked_def filter_empty_conv unmarked_def)

lemma tunnel_transition_run:
  "reliable d \<Longrightarrow> tunnel_state_transition L now tr cur d =
     (case picked L d of
        Some r \<Rightarrow> transition_with_session L now tr r d
      | None \<Rightarrow> transition_without_session now tr cur d)"
  by (simp add: tunnel_state_transition_def prog_simps picked_def split: option.split)

lemma tunnel_transition_panics_iff:
  assumes "reliable d" and "rows_ok L d"
  shows "is_panic (fst (tunnel_state_transition L now tr cur d)) \<longleftrightarrow>
     (case picked L d of
        None \<Rightarrow> (\<exists>a. tr = TunDisconnecting a) \<and> (\<forall>l. cur \<noteq> VpnDisconnecting l)
      | Some r \<Rightarrow> (\<exists>e. tr = TunConnected e) \<and> row_session_uuid r = None)"
proof (cases "picked L d")
  case None
  with assms show ?thesis
    by (cases tr; cases cur)
      (simp_all add: tunnel_transition_run transition_without_session_def)
next
  case (Some r)
  then have mem: "r \<in> set (vpn_sessions d)" and ok: "row_ok L r"
    using assms(2) by (auto dest: pickedD simp: rows_ok_def)
  then have "filter (has_id (row_request_id r)) (vpn_sessions d) \<noteq> []"
    by (auto simp: filter_empty_conv)
  with Some assms mem ok show ?thesis
    by (cases tr) (simp_all add: tunnel_transition_run transition_with_session_def Let_def prog_simps
        update_row_def sessions.run_update [of _ r] info_of_row_panics_iff)
qed

lemma tunnel_transition_connected:
  assumes "reliable d" and "rows_ok L d" and r: "picked L d = Some r"
    and u: "row_session_uuid r = Some u"
  shows "tunnel_state_transition L now (TunConnected e) cur d =
     (Ok ((tunnel_now (VpnConnected (location_of_session_row r) now))
         \<lparr>tp_client_connected := Some (the (row_info L r))\<rparr>),
      vpn_sessions_update (map (\<lambda>x. if has_id (row_request_id r) x
        then set_status StoredClientConnected x else x)) d)"
proof -
  from r assms(2) have mem: "r \<in> set (vpn_sessions d)" and ok: "row_ok L r"
    by (auto dest: pickedD simp: rows_ok_def)
  then show ?thesis
    using assms by (simp add: tunnel_transition_run transition_with_session_def Let_def prog_simps
        update_row_def sessions.run_update [of _ r] info_of_row_ok [OF ok u])
qed

text \<open>Only \<open>Connected\<close> writes to the table; every other transition leaves it as it is.\<close>

lemma tunnel_transition_frame:
  "reliable d \<Longrightarrow> \<forall>e. tr \<noteq> TunConnected e \<Longrightarrow> snd (tunnel_state_transition L now tr cur d) = d"
  by (cases tr) (simp_all add: tunnel_transition_run transition_with_session_def
      transition_without_session_def Let_def split: option.split vpn_status.split)

section \<open>The abstract view: a registry of sessions\<close>

text \<open>
  To the rest of the daemon the table is a map from request ids to "live" (\<open>False\<close>) or
  "marked" (\<open>True\<close>). The locale states what a registry promises; the operations of the storage
  are shown to refine it, and the facts about sequences of operations are proved from the
  promises.
\<close>

locale session_registry =
  fixes inv :: "'s \<Rightarrow> bool"
    and view :: "'s \<Rightarrow> string \<Rightarrow> bool option"
    and key :: "'k \<Rightarrow> string"
    and create :: "'k \<Rightarrow> 'a \<Rightarrow> 's \<Rightarrow> 's"
    and finish :: "'s \<Rightarrow> 's"
    and remove :: "'k \<Rightarrow> 's \<Rightarrow> 's"
    and sweep :: "'s \<Rightarrow> 's"
  assumes view_create: "inv s \<Longrightarrow> view s (key k) = None \<Longrightarrow>
      view (create k a s) = (view s)(key k \<mapsto> False)"
    and view_finish: "inv s \<Longrightarrow>
      (False \<notin> ran (view s) \<and> view (finish s) = view s)
      \<or> (\<exists>i. view s i = Some False \<and> view (finish s) = (view s)(i \<mapsto> True))"
    and view_remove: "inv s \<Longrightarrow> view (remove k s) = (view s)(key k := None)"
    and view_sweep: "inv s \<Longrightarrow> view (sweep s) = (\<lambda>i. map_option (\<lambda>_. True) (view s i))"
    and inv_create: "inv s \<Longrightarrow> view s (key k) = None \<Longrightarrow> inv (create k a s)"
    and inv_finish: "inv s \<Longrightarrow> inv (finish s)"
    and inv_remove: "inv s \<Longrightarrow> inv (remove k s)"
    and inv_sweep: "inv s \<Longrightarrow> inv (sweep s)"
begin

lemma cancel: "inv s \<Longrightarrow> view s (key k) = None \<Longrightarrow> view (remove k (create k a s)) = view s"
  by (auto simp: view_remove inv_create view_create)

lemma finish_sole:
  assumes "inv s" and "\<And>i. view s i = Some False \<longleftrightarrow> i = j"
  shows "view (finish s) = (view s)(j \<mapsto> True)"
  using view_finish [OF assms(1)] assms(2) by (auto simp: ran_def)

lemma finish_created:
  assumes "inv s" and "view s (key k) = None" and "False \<notin> ran (view s)"
  shows "view (finish (create k a s)) = (view s)(key k \<mapsto> True)"
proof -
  have new: "view (create k a s) = (view s)(key k \<mapsto> False)"
    using assms by (simp add: view_create)
  have "view s i \<noteq> Some False" for i
    using assms(3) by (auto simp: ran_def)
  then have "view (create k a s) i = Some False \<longleftrightarrow> i = key k" for i
    unfolding new by simp
  from finish_sole [OF inv_create [OF assms(1,2)] this] show ?thesis
    unfolding new by simp
qed

lemma swept: "inv s \<Longrightarrow> False \<notin> ran (view (sweep s))"
  by (auto simp: view_sweep ran_def)

lemma finish_keeps_keys:
  assumes "inv s"
  shows "dom (view (finish s)) = dom (view s)"
  using view_finish [OF assms] by (metis domI dom_fun_upd insert_absorb option.discI)

lemma remove_finished: "inv s \<Longrightarrow> view (remove k (finish s)) (key k) = None"
  by (simp add: view_remove inv_finish)

end

definition session_view :: "db \<Rightarrow> string \<Rightarrow> bool option" where
  "session_view d = map_of (map (\<lambda>r. (row_request_id r, row_mark_for_deletion r)) (vpn_sessions d))"

definition store_inv :: "lib \<Rightarrow> db \<Rightarrow> bool" where
  "store_inv L d \<longleftrightarrow> uuid_ok L \<and> reliable d \<and> rows_ok L d"

lemma session_view_None: "session_view d k = None \<longleftrightarrow> k \<notin> row_request_id ` set (vpn_sessions d)"
  by (simp add: session_view_def map_of_eq_None_iff image_image)

lemma session_view_Some:
  assumes "rows_ok L d"
  shows "session_view d k = Some m \<longleftrightarrow>
     (\<exists>r \<in> set (vpn_sessions d). row_request_id r = k \<and> row_mark_for_deletion r = m)"
proof -
  have "distinct (map fst (map (\<lambda>r. (row_request_id r, row_mark_for_deletion r)) (vpn_sessions d)))"
    using assms by (simp add: rows_ok_def comp_def)
  then show ?thesis by (auto simp: session_view_def)
qed

lemma view_add: "k \<notin> row_request_id ` set rs \<Longrightarrow> row_request_id r = k \<Longrightarrow>
    map_of (map (\<lambda>r. (row_request_id r, row_mark_for_deletion r)) (rs @ [r]))
      = (map_of (map (\<lambda>r. (row_request_id r, row_mark_for_deletion r)) rs))(k \<mapsto> row_mark_for_deletion r)"
proof
  fix i
  assume "k \<notin> row_request_id ` set rs" "row_request_id r = k"
  then show "map_of (map (\<lambda>r. (row_request_id r, row_mark_for_deletion r)) (rs @ [r])) i
      = ((map_of (map (\<lambda>r. (row_request_id r, row_mark_for_deletion r)) rs))
          (k \<mapsto> row_mark_for_deletion r)) i"
    by (induction rs) auto
qed

lemma view_mark_all:
  "map_of (map (\<lambda>r. (row_request_id r, row_mark_for_deletion r)) (map mark_row rs)) i
     = map_option (\<lambda>_. True) (map_of (map (\<lambda>r. (row_request_id r, row_mark_for_deletion r)) rs) i)"
  by (induction rs) (auto simp: mark_row_def)

lemma view_mark_one:
  "map_of (map (\<lambda>r. (row_request_id r, row_mark_for_deletion r))
       (map (\<lambda>x. if has_id k x then mark_row x else x) rs)) i
     = (let m = map_of (map (\<lambda>r. (row_request_id r, row_mark_for_deletion r)) rs) in
        if i = k then map_option (\<lambda>_. True) (m i) else m i)"
  by (induction rs) (auto simp: mark_row_def Let_def)

lemma view_remove_one:
  "map_of (map (\<lambda>r. (row_request_id r, row_mark_for_deletion r)) (filter (\<lambda>r. \<not> has_id k r) rs)) i
     = ((map_of (map (\<lambda>r. (row_request_id r, row_mark_for_deletion r)) rs))(k := None)) i"
  by (induction rs) auto

lemma end_session_view:
  assumes "reliable d" and "rows_ok L d"
  shows "(False \<notin> ran (session_view d) \<and> session_view (snd (storage_end_session L d)) = session_view d)
     \<or> (\<exists>i. session_view d i = Some False
          \<and> session_view (snd (storage_end_session L d)) = (session_view d)(i \<mapsto> True))"
proof (cases "picked L d")
  case None
  then have "filter unmarked (vpn_sessions d) = []" by (simp add: picked_def)
  moreover have "False \<notin> ran (session_view d)"
    using None assms(2) by (auto simp: picked_None ran_def session_view_Some)
  ultimately show ?thesis using assms(1) by (simp add: prog_simps)
next
  case (Some r)
  then have r: "r \<in> set (vpn_sessions d)" "unmarked r" by (auto dest: pickedD)
  then have live: "session_view d (row_request_id r) = Some False"
    using assms(2) by (auto simp: session_view_Some unmarked_def)
  have "session_view (snd (storage_end_session L d)) = (session_view d)(row_request_id r \<mapsto> True)"
  proof
    fix i
    show "session_view (snd (storage_end_session L d)) i
        = ((session_view d)(row_request_id r \<mapsto> True)) i"
      using live end_session_some [OF assms] Some
      by (simp add: picked_def session_view_def view_mark_one Let_def del: map_map)
  qed
  with live show ?thesis by blast
qed

lemma view_new_session:
  "uuid_to_string L k \<notin> row_request_id ` set (vpn_sessions d) \<Longrightarrow>
     session_view (vpn_sessions_update (\<lambda>rs. rs @ [session_row_of L k now l]) d)
       = (session_view d)(uuid_to_string L k \<mapsto> False)"
  using view_add [of "uuid_to_string L k" "vpn_sessions d" "session_row_of L k now l"]
  by (simp add: session_view_def session_row_of_def)

lemma end_session_reliable:
  assumes "reliable d" and "rows_ok L d"
  shows "reliable (snd (storage_end_session L d))"
  using assms end_session_some [OF assms]
  by (cases "pick_row L (filter unmarked (vpn_sessions d))") (auto simp: prog_simps)

interpretation store: session_registry "store_inv L" session_view "uuid_to_string L"
  "\<lambda>k a d. snd (storage_new_session L k (fst a) (snd a) d)"
  "\<lambda>d. snd (storage_end_session L d)"
  "\<lambda>k d. snd (storage_delete L k d)"
  "\<lambda>d. snd (storage_reclaim d)"
  for L
proof (unfold_locales, goal_cases)
  case (1 s k a)
  then show ?case
    by (simp add: store_inv_def prog_simps session_view_None view_new_session)
next
  case (2 s)
  then show ?case using end_session_view [of s L] by (simp add: store_inv_def)
next
  case (3 s k)
  then show ?case
    by (auto simp: store_inv_def prog_simps session_view_def view_remove_one)
next
  case (4 s)
  then show ?case
    by (simp add: store_inv_def prog_simps session_view_def view_mark_all fun_eq_iff del: map_map)
next
  case (5 s k a)
  then show ?case
    using keepsD [OF keeps_new_session, of L s k "fst a" "snd a"]
    by (auto simp: store_inv_def prog_simps session_view_None)
next
  case (6 s)
  then show ?case
    using keeps_end_session [of L L] by (simp add: store_inv_def end_session_reliable keeps_def)
next
  case (7 s k)
  then show ?case
    using keepsD [OF keeps_delete, of L s L k] by (auto simp: store_inv_def prog_simps)
next
  case (8 s)
  then show ?case
    using keepsD [OF keeps_reclaim, of L s] by (auto simp: store_inv_def prog_simps)
qed

section \<open>Sequences of operations\<close>

datatype storage_op =
    OpNewSession uuid datetime location
  | OpEndSession
  | OpReclaim
  | OpToReclaim
  | OpUpdateOnAccepted accepted
  | OpDelete uuid
  | OpServerStatus datetime vpn_session_status
  | OpTransition datetime tunnel_transition vpn_status

fun run_op :: "lib \<Rightarrow> storage_op \<Rightarrow> (db, unit, db_err) prog" where
  "run_op L (OpNewSession k now l) = and_then (storage_new_session L k now l) (\<lambda>_. ret ())"
| "run_op L OpEndSession = and_then (storage_end_session L) (\<lambda>_. ret ())"
| "run_op L OpReclaim = storage_reclaim"
| "run_op L OpToReclaim = and_then (storage_to_reclaim L) (\<lambda>_. ret ())"
| "run_op L (OpUpdateOnAccepted a) = storage_update_on_accepted L a"
| "run_op L (OpDelete k) = storage_delete L k"
| "run_op L (OpServerStatus now st) = and_then (updated_server_status L now st) (\<lambda>_. ret ())"
| "run_op L (OpTransition now tr cur) = and_then (tunnel_state_transition L now tr cur) (\<lambda>_. ret ())"

definition quiet_op :: "storage_op \<Rightarrow> bool" where
  "quiet_op x \<longleftrightarrow> (case x of OpTransition now tr cur \<Rightarrow> False | _ \<Rightarrow> True)"

lemma run_op_keeps: "uuid_ok L \<Longrightarrow> keeps (rows_ok L) (run_op L x)"
  by (cases x) (auto intro!: keeps_intros)

lemma run_op_calm: "uuid_ok L \<Longrightarrow> quiet_op x \<Longrightarrow> calm (rows_ok L) (run_op L x)"
  unfolding calm_iff
  by (cases x) (auto simp: run_op_keeps quiet_op_def intro!: keeps_intros calm_intros to_reclaim_calm)

interpretation storage_ops: actor "run_op L" "rows_ok L" "\<lambda>_. uuid_ok L" for L
  by unfold_locales (rule run_op_keeps)

interpretation quiet_storage: calm_actor "run_op L" "rows_ok L" "\<lambda>x. uuid_ok L \<and> quiet_op x" for L
  by unfold_locales (auto intro: run_op_keeps run_op_calm)

section \<open>All or nothing\<close>

text \<open>
  An operation of several statements may stop between two of them. It is \<open>atomic\<close> when that leaves
  no trace: an error leaves the table as it was, and every other outcome, with the table behind
  it, is the one it has where no statement fails.
\<close>

definition atomic :: "(db, 'a, db_err) prog \<Rightarrow> bool" where
  "atomic p \<longleftrightarrow> (\<forall>d. case p d of
      (Err e, d') \<Rightarrow> vpn_sessions d' = vpn_sessions d
    | (r, d') \<Rightarrow> p (d\<lparr>faults := []\<rparr>) = (r, d'\<lparr>faults := []\<rparr>))"

definition looks :: "(db, 'a, db_err) prog \<Rightarrow> bool" where
  \<comment> \<open>a program that changes nothing\<close>
  "looks p \<longleftrightarrow> (\<forall>d. \<exists>fs. snd (p d) = d\<lparr>faults := fs\<rparr>)"

lemma atomicD:
  assumes "atomic p" and "p d = (r, d')"
  shows "case r of
      Err e \<Rightarrow> vpn_sessions d' = vpn_sessions d
    | _ \<Rightarrow> p (d\<lparr>faults := []\<rparr>) = (r, d'\<lparr>faults := []\<rparr>)"
  using assms(1) [unfolded atomic_def, rule_format, of d] assms(2) by (cases r) simp_all

lemma atomic_statement:
  assumes "\<And>d fs. fst (p (d\<lparr>faults := fs\<rparr>)) = fst (p d)"
    and "\<And>d fs. snd (p (d\<lparr>faults := fs\<rparr>)) = (snd (p d))\<lparr>faults := fs\<rparr>"
    and "\<And>d e d'. p d = (Err e, d') \<Longrightarrow> vpn_sessions d' = vpn_sessions d"
  shows "atomic (statement p)"
proof -
  have eq: "p (d\<lparr>faults := fs\<rparr>) = (fst (p d), (snd (p d))\<lparr>faults := fs\<rparr>)" for d fs
    using assms(1,2) by (metis prod.collapse)
  have err: "vpn_sessions (snd (p d)) = vpn_sessions d" if "fst (p d) = Err e" for d e
    using assms(3) [of d e] that by (metis prod.collapse)
  show ?thesis
    unfolding atomic_def
  proof
    fix d
    show "case statement p d of (Err e, d') \<Rightarrow> vpn_sessions d' = vpn_sessions d
      | (r, d') \<Rightarrow> statement p (d\<lparr>faults := []\<rparr>) = (r, d'\<lparr>faults := []\<rparr>)"
    proof (cases rule: statement_cases [of p d])
      case (run fs)
      then show ?thesis using err [of d]
        by (cases "fst (p d)") (simp_all add: eq statement_def split: prod.split)
    qed simp
  qed
qed

lemma atomic_sql [simp]:
  "atomic (sql_one L session_table P)"
  "atomic (sql_all session_table P)"
  "atomic (sql_insert session_table key r)"
  "atomic (sql_update_many session_table P f)"
  "atomic (sql_update session_table P f)"
  "atomic (sql_delete_many session_table P)"
  unfolding sql_one_def sql_all_def sql_insert_def sql_update_many_def sql_update_def
    sql_delete_many_def
  by (rule atomic_statement; force split: if_splits)+

lemma looks_sql [simp]:
  "looks (sql_one L session_table P)"
  "looks (sql_all session_table P)"
  by (auto simp: looks_def sql_one_def sql_all_def statement_def split: list.split option.split
      intro: exI [of _ "[]"])

lemma atomic_give [simp]: "atomic (give r)" "atomic (ret x)"
  by (cases r) (simp_all add: atomic_def)

lemma atomicI:
  assumes "\<And>d r d'. p d = (r, d') \<Longrightarrow> (case r of
      Err e \<Rightarrow> vpn_sessions d' = vpn_sessions d
    | _ \<Rightarrow> p (d\<lparr>faults := []\<rparr>) = (r, d'\<lparr>faults := []\<rparr>))"
  shows "atomic p"
  unfolding atomic_def using assms by (force split: prod.split res.split)

lemma atomic_look_first:
  assumes p: "atomic p" and look: "looks p" and q: "\<And>x. atomic (q x)"
  shows "atomic (and_then p q)"
proof (rule atomicI)
  fix d r d'
  assume run: "and_then p q d = (r, d')"
  obtain r1 d1 where p1: "p d = (r1, d1)" by fastforce
  obtain fs where d1: "d1 = d\<lparr>faults := fs\<rparr>" using look p1 unfolding looks_def by (metis snd_conv)
  show "case r of Err e \<Rightarrow> vpn_sessions d' = vpn_sessions d
    | _ \<Rightarrow> and_then p q (d\<lparr>faults := []\<rparr>) = (r, d'\<lparr>faults := []\<rparr>)"
  proof (cases r1)
    case (Ok x)
    then have "q x d1 = (r, d')" using run p1 by (simp add: and_then_def)
    from atomicD [OF q this] show ?thesis
      using atomicD [OF p p1] Ok d1 by (cases r) (simp_all add: and_then_def)
  qed (use run p1 d1 atomicD [OF p p1] in \<open>auto simp: and_then_def\<close>)
qed

lemma atomic_then_pure:
  assumes p: "atomic p" and q: "\<And>x. q x = give (g x)" and g: "\<And>x e. g x \<noteq> Err e"
  shows "atomic (and_then p q)"
proof (rule atomicI)
  fix d r d'
  assume run: "and_then p q d = (r, d')"
  obtain r1 d1 where p1: "p d = (r1, d1)" by fastforce
  show "case r of Err e \<Rightarrow> vpn_sessions d' = vpn_sessions d
    | _ \<Rightarrow> and_then p q (d\<lparr>faults := []\<rparr>) = (r, d'\<lparr>faults := []\<rparr>)"
    using run p1 atomicD [OF p p1] q g
    by (cases r1; cases r) (auto simp: and_then_def)
qed

lemma atomic_then_ret [simp]: "atomic p \<Longrightarrow> atomic (and_then p (\<lambda>x. ret (f x)))"
  by (rule atomic_then_pure [where g = "\<lambda>x. Ok (f x)"]) (simp_all add: ret_def give_def)

lemma info_of_row_not_Err: "info_of_row L r \<noteq> Err e"
  by (cases "row_session_uuid r"; cases "uuid_parse_str L (row_request_id r)")
    (auto simp: info_of_row_def parse_uuid_def split: option.split)

lemma map_ok_Err_iff: "map_ok f r = Err e \<longleftrightarrow> r = Err e"
  by (cases r) auto

lemma info_of_texts_not_Err: "info_of_texts L a b \<noteq> Err e"
  by (cases "uuid_parse_str L a"; cases "uuid_parse_str L b")
    (simp_all add: info_of_texts_def parse_uuid_def)

lemma atomic_row [simp]: "atomic (update_row r f)" "atomic (delete_row r)"
  by (simp_all add: update_row_def delete_row_def)

lemma atomic_storage:
  "atomic (storage_new_session L k now l)"
  "atomic (storage_end_session L)"
  "atomic storage_reclaim"
  "atomic (storage_to_reclaim L)"
  "atomic (storage_update_on_accepted L a)"
  "atomic (storage_delete L k)"
proof -
  show "atomic (storage_new_session L k now l)" by (simp add: storage_new_session_def)
  show "atomic storage_reclaim" by (simp add: storage_reclaim_def)
  show "atomic (storage_update_on_accepted L a)" by (simp add: storage_update_on_accepted_def)
  show "atomic (storage_delete L k)" by (simp add: storage_delete_def)
  have "map_ok Some (info_of_texts L a b) \<noteq> Err e" for a b e
    by (simp add: map_ok_Err_iff info_of_texts_not_Err)
  then have pure: "atomic (and_then (sql_update_many session_table P f) (\<lambda>_. give (map_ok Some (info_of_texts L a b))))"
    for P f a b
    by (intro atomic_then_pure [where g = "\<lambda>_. map_ok Some (info_of_texts L a b)"]) simp_all
  then have "atomic (case v of None \<Rightarrow> ret None | Some r \<Rightarrow>
      and_then (sql_update_many session_table (\<lambda>x. row_request_id x = row_request_id r) mark_row)
        (\<lambda>_. case row_session_uuid r of
           Some u \<Rightarrow> give (map_ok Some (info_of_texts L (row_request_id r) u)) | None \<Rightarrow> ret None))" for v
    by (cases v; cases "row_session_uuid (the v)") auto
  then show "atomic (storage_end_session L)"
    unfolding storage_end_session_def by (intro atomic_look_first) (simp_all cong: option.case_cong)
  show "atomic (storage_to_reclaim L)"
    unfolding storage_to_reclaim_def by (intro atomic_look_first) simp_all
qed

lemma atomic_status: "atomic (updated_server_status L now st)"
proof -
  have "atomic (apply_server_status L now st r)" for r
    by (cases st) (simp_all add: apply_server_status_def Let_def)
  then show ?thesis
    unfolding updated_server_status_def
    by (intro atomic_look_first) (simp_all split: option.split)
qed

lemma atomic_transition: "atomic (tunnel_state_transition L now tr cur)"
proof -
  have "atomic (and_then (update_row r h) (\<lambda>_. give (map_ok f (info_of_row L r))))"
    for f :: "session_info \<Rightarrow> tunnel_processed" and r h
    by (intro atomic_then_pure [where g = "\<lambda>_. map_ok f (info_of_row L r)"])
      (simp_all add: map_ok_Err_iff info_of_row_not_Err)
  then have "atomic (transition_with_session L now tr r)" for r
    by (cases tr) (simp_all add: transition_with_session_def Let_def)
  moreover have "atomic (transition_without_session now tr cur)"
    by (cases tr) (simp_all add: transition_without_session_def split: vpn_status.split)
  ultimately show ?thesis
    unfolding tunnel_state_transition_def
    by (intro atomic_look_first) (simp_all split: option.split)
qed

lemma run_op_atomic: "atomic (run_op L x)"
  by (cases x) (auto simp: atomic_storage atomic_status atomic_transition)

section \<open>The registry, operation by operation\<close>

fun registry_step :: "lib \<Rightarrow> storage_op \<Rightarrow> (string \<Rightarrow> bool option) \<Rightarrow> (string \<Rightarrow> bool option) \<Rightarrow> bool" where
  "registry_step L (OpNewSession k now l) m m' \<longleftrightarrow>
     m (uuid_to_string L k) = None \<and> m' = m(uuid_to_string L k \<mapsto> False)"
| "registry_step L OpEndSession m m' \<longleftrightarrow>
     (False \<notin> ran m \<and> m' = m) \<or> (\<exists>i. m i = Some False \<and> m' = m(i \<mapsto> True))"
| "registry_step L OpReclaim m m' \<longleftrightarrow> m' = (\<lambda>i. map_option (\<lambda>_. True) (m i))"
| "registry_step L OpToReclaim m m' \<longleftrightarrow> m' = m"
| "registry_step L (OpUpdateOnAccepted a) m m' \<longleftrightarrow> m' = m"
| "registry_step L (OpDelete k) m m' \<longleftrightarrow> m' = m(uuid_to_string L k := None)"
| "registry_step L (OpServerStatus now st) m m' \<longleftrightarrow>
     (let i = uuid_to_string L (si_request_id (get_session_info st)) in
      m' = (if m i = Some False \<and> ((\<exists>f. st = SessFailed f) \<or> (\<exists>e. st = SessEnded e))
            then m(i := None) else m))"
| "registry_step L (OpTransition now tr cur) m m' \<longleftrightarrow> m' = m"

lemma view_rewritten:
  assumes "\<And>r. row_request_id (f r) = row_request_id r \<and> row_mark_for_deletion (f r) = row_mark_for_deletion r"
  shows "session_view (vpn_sessions_update (map f) d) = session_view d"
  using assms by (simp add: session_view_def comp_def)

lemma view_without: "session_view (vpn_sessions_update (filter (\<lambda>r. \<not> has_id k r)) d) = (session_view d)(k := None)"
  by (simp add: session_view_def view_remove_one fun_eq_iff)

lemma session_with_view:
  assumes "rows_ok L d"
  shows "session_with L k d = None \<longleftrightarrow> session_view d (uuid_to_string L k) \<noteq> Some False"
  using assms by (auto simp: session_with_def find_None_iff session_view_Some unmarked_def)

lemma view_updated:
  assumes "\<And>r. f r = Some (g r)"
    and "\<And>r. row_request_id (g r) = row_request_id r \<and> row_mark_for_deletion (g r) = row_mark_for_deletion r"
  shows "session_view (vpn_sessions_update (update_session k f) d) = session_view d"
proof -
  have "update_session k f = map (\<lambda>r. if has_id k r then g r else r)"
    using assms(1) by (simp add: fun_eq_iff update_session_Some)
  then show ?thesis using assms(2) by (simp add: view_rewritten)
qed

lemma view_dropped:
  assumes "\<And>r. f r = None"
  shows "session_view (vpn_sessions_update (update_session k f) d) = (session_view d)(k := None)"
proof -
  have "update_session k f = filter (\<lambda>r. \<not> has_id k r)"
    using assms by (simp add: fun_eq_iff update_session_None)
  then show ?thesis by (simp add: view_without)
qed

lemma status_view:
  assumes "reliable d" and "rows_ok L d"
  shows "registry_step L (OpServerStatus now st) (session_view d) (session_view (snd (updated_server_status L now st d)))"
proof (cases "session_with L (si_request_id (get_session_info st)) d")
  case None
  then show ?thesis
    using assms session_with_view [OF assms(2), of "si_request_id (get_session_info st)"]
    by (simp add: updated_server_status_run Let_def)
next
  case (Some r)
  let ?i = "uuid_to_string L (si_request_id (get_session_info st))"
  have live: "session_view d ?i = Some False"
    using Some session_with_view [OF assms(2), of "si_request_id (get_session_info st)"] by auto
  have key: "row_request_id r = ?i" using Some by (auto dest: session_withD)
  show ?thesis
    using assms Some live key
    by (cases st) (simp_all add: updated_server_status_run Let_def 
        view_updated [OF apply_status.simps(1)] view_updated [OF apply_status.simps(3)]
        view_updated [OF apply_status.simps(4)] view_updated [OF apply_status.simps(5)]
        view_updated [OF apply_status.simps(6)] view_dropped set_status_def set_ready_def)
qed

lemma transition_view:
  assumes "reliable d" and "rows_ok L d"
  shows "session_view (snd (tunnel_state_transition L now tr cur d)) = session_view d"
proof (cases "picked L d")
  case None
  then show ?thesis using assms
    by (cases tr; cases cur) (simp_all add: tunnel_transition_run transition_without_session_def)
next
  case (Some r)
  then have mem: "r \<in> set (vpn_sessions d)" by (auto dest: pickedD)
  with Some assms show ?thesis
    by (cases tr) (simp_all add: tunnel_transition_run transition_with_session_def Let_def prog_simps
        update_row_def sessions.run_update [of _ r] view_rewritten set_status_def)
qed

lemma run_op_view:
  assumes "store_inv L d" and "\<forall>e. fst (run_op L x d) \<noteq> Err e"
  shows "registry_step L x (session_view d) (session_view (snd (run_op L x d)))"
proof (cases x)
  case (OpNewSession k now l)
  have new: "uuid_to_string L k \<notin> row_request_id ` set (vpn_sessions d)"
  proof
    assume "uuid_to_string L k \<in> row_request_id ` set (vpn_sessions d)"
    with assms OpNewSession show False
      by (simp add: store_inv_def storage_new_session_def prog_simps sessions.run_insert_taken session_row_of_def)
  qed
  then show ?thesis using assms(1) OpNewSession
    by (simp add: store_inv_def prog_simps view_new_session session_view_None)
next
  case OpEndSession
  then show ?thesis using assms(1) store.view_finish [of L d]
    by (cases "storage_end_session L d"; cases "fst (storage_end_session L d)") (simp_all add: and_then_def)
next
  case OpReclaim
  then show ?thesis using assms(1) store.view_sweep [of L d] by simp
next
  case OpToReclaim
  then show ?thesis using assms(1) by (simp add: store_inv_def prog_simps)
next
  case (OpUpdateOnAccepted a)
  then show ?thesis using assms(1) by (simp add: store_inv_def prog_simps view_rewritten)
next
  case (OpDelete k)
  then show ?thesis using assms(1) store.view_remove [of L d k] by simp
next
  case (OpServerStatus now st)
  have "snd (run_op L x d) = snd (updated_server_status L now st d)"
    by (cases "updated_server_status L now st d"; cases "fst (updated_server_status L now st d)")
      (simp_all add: OpServerStatus and_then_def)
  then show ?thesis using status_view [of d L now st] assms(1) OpServerStatus
    by (simp add: store_inv_def)
next
  case (OpTransition now tr cur)
  have "snd (run_op L x d) = snd (tunnel_state_transition L now tr cur d)"
    by (cases "tunnel_state_transition L now tr cur d"; cases "fst (tunnel_state_transition L now tr cur d)")
      (simp_all add: OpTransition and_then_def)
  then show ?thesis using transition_view [of d L now tr cur] assms(1) OpTransition
    by (simp add: store_inv_def)
qed

lemma view_faults [simp]: "session_view (d\<lparr>faults := fs\<rparr>) = session_view d"
  by (simp add: session_view_def)

section \<open>Properties\<close>

text \<open>The same server status handled a second time, at any later moment, leaves the table
  as the first time left it, which is what the comment in the source asks for.\<close>

lemma server_status_idempotent:
  assumes "reliable d" and "rows_ok L d"
  shows "snd (updated_server_status L later st (snd (updated_server_status L now st d)))
     = snd (updated_server_status L now st d)"
  using assms by (rule updated_twice)

text \<open>C17: the storage refines a registry from ids to "live" or "marked", operation by operation and
  whichever statements of the database fail. An operation that succeeds does to the registry what
  the specification says: a new session must be unknown and becomes live; ending marks one live
  session, or nothing if none is live; the sweep at the start marks all; deleting removes;
  a status of the server removes a live session if it is failed or ended and changes no
  mark; a transition of the tunnel, the acceptance and the query of the reclaimer change
  neither. An operation that fails leaves the table of sessions exactly as it was, and only a transition of
  the tunnel can panic, with the registry unchanged. The ids stay unique and the rows readable.\<close>

theorem storage_refines_registry:
  assumes "uuid_ok L" and "rows_ok L d" and "run_op L x d = (r, d')"
  shows "rows_ok L d' \<and> (case r of
      Ok u \<Rightarrow> registry_step L x (session_view d) (session_view d')
    | Err e \<Rightarrow> vpn_sessions d' = vpn_sessions d
    | Panic m \<Rightarrow> (\<exists>now tr cur. x = OpTransition now tr cur) \<and> session_view d' = session_view d)"
proof -
  have inv: "store_inv L (d\<lparr>faults := []\<rparr>)" using assms by (simp add: store_inv_def reliable_def)
  note a = atomicD [OF run_op_atomic assms(3)]
  have ok: "rows_ok L d'" using keepsD [OF run_op_keeps [OF assms(1)] assms(2,3)] .
  show ?thesis
  proof (cases r)
    case (Err e)
    then show ?thesis using a ok by simp
  next
    case (Ok u)
    then show ?thesis using a ok run_op_view [OF inv, of x] by simp
  next
    case (Panic m)
    then have "\<not> quiet_op x"
      using run_op_calm [OF assms(1), of x] assms(2,3) calmD by fastforce
    then have x: "\<exists>now tr cur. x = OpTransition now tr cur"
      by (cases x) (simp_all add: quiet_op_def)
    moreover have "registry_step L x (session_view d) (session_view d')"
      using a Panic run_op_view [OF inv, of x] by simp
    ultimately show ?thesis using ok Panic by auto
  qed
qed

definition sample_open :: "db_err option list \<Rightarrow> db" where
  \<comment> \<open>one live session that the server has not accepted yet, and what happens to the statements\<close>
  "sample_open fs = empty_db\<lparr>vpn_sessions := [session_row_of sample_lib 5 0 sample_location], faults := fs\<rparr>"

lemma sample_open_rows [simp]: "rows_ok sample_lib (sample_open fs)"
  by (simp add: rows_ok_def sample_open_def row_ok_new)

lemma sample_open_view: "session_view (sample_open fs) = session_view (sample_open [])"
  "vpn_sessions (sample_open fs) = vpn_sessions (sample_open [])"
  by (simp_all add: sample_open_def session_view_def)

theorem storage_refines_registry_witness:
  "registry_step sample_lib OpEndSession (session_view (sample_open []))
      (session_view (snd (run_op sample_lib OpEndSession (sample_open [None, None]))))
   \<and> vpn_sessions (snd (run_op sample_lib OpEndSession (sample_open [None, Some RecordNotUpdated])))
      = vpn_sessions (sample_open [])"
proof
  have live: "unmarked (session_row_of sample_lib 5 0 sample_location)"
    "row_session_uuid (session_row_of sample_lib 5 0 sample_location) = None"
    by (simp_all add: unmarked_def session_row_of_def)
  have "fst (run_op sample_lib OpEndSession (sample_open [None, None])) = Ok ()"
    by (simp add: storage_end_session_def prog_simps sql_one_def sql_update_many_def statement_def
        sample_open_def live)
  with storage_refines_registry [of sample_lib "sample_open [None, None]" OpEndSession, OF _ _ surjective_pairing]
  show "registry_step sample_lib OpEndSession (session_view (sample_open []))
      (session_view (snd (run_op sample_lib OpEndSession (sample_open [None, None]))))"
    by (simp add: sample_open_view(1) [of "[None, None]"] del: run_op.simps registry_step.simps)
  have "fst (run_op sample_lib OpEndSession (sample_open [None, Some RecordNotUpdated])) = Err RecordNotUpdated"
    by (simp add: storage_end_session_def prog_simps sql_one_def sql_update_many_def statement_def
        sample_open_def live)
  with storage_refines_registry [of sample_lib "sample_open [None, Some RecordNotUpdated]" OpEndSession,
      OF _ _ surjective_pairing]
  show "vpn_sessions (snd (run_op sample_lib OpEndSession (sample_open [None, Some RecordNotUpdated])))
      = vpn_sessions (sample_open [])"
    by (simp add: sample_open_view(2) [of "[None, Some RecordNotUpdated]"] del: run_op.simps)
qed

text \<open>Whatever storage operations run, in any order and whichever statements fail, ids stay
  unique and every row stays readable; and without transitions of the tunnel no operation
  panics.\<close>

lemma storage_never_panics:
  assumes "uuid_ok L" and "rows_ok L d"
  shows "rows_ok L (snd (serve (run_op L) ops d))
     \<and> (list_all quiet_op ops \<longrightarrow> \<not> is_panic (fst (serve (run_op L) ops d)))"
proof -
  have "rows_ok L (snd (serve (run_op L) ops d))"
    using storage_ops.serve_keeps [of ops L] assms by (simp add: keeps_def)
  moreover have "\<not> is_panic (fst (serve (run_op L) ops d))" if "list_all quiet_op ops"
    using quiet_storage.serve_calm [of ops L] that assms by (simp add: calm_def list_all_iff)
  ultimately show ?thesis by blast
qed

end
