(* ===== verification/Token_Storage.thy ===== *)
theory Token_Storage
  imports Errors
begin

text \<open>
  modvpn-daemon/src/token\_storage.rs and the authorization layer of modvpn-server/src/auth.rs
  that reads from it. A sign-in saves the server's token and deletes the older ones; a request
  to the server carries the stored token.
\<close>

definition get_token :: "lib \<Rightarrow> (db, string option, db_err) prog" where
  "get_token L = and_then (sql_one L token_table (\<lambda>_. True)) (\<lambda>v. ret (map_option tok_token v))"

definition save_token :: "string \<Rightarrow> (db, unit, db_err) prog" where
  "save_token t =
     and_then fresh_id (\<lambda>i.
     and_then (sql_insert token_table tok_id \<lparr>tok_id = i, tok_token = t\<rparr>) (\<lambda>_.
     and_then (sql_delete_many token_table (\<lambda>r. tok_id r < i)) (\<lambda>_. ret ())))"

definition remove_all :: "(db, unit, db_err) prog" where
  "remove_all = and_then (sql_delete_many token_table (\<lambda>_. True)) (\<lambda>_. ret ())"

definition bearer_token :: "lib \<Rightarrow> (db, string option, 'e) prog" where
  \<comment> \<open>an error of the database is logged and there is no token\<close>
  "bearer_token L = attempt (get_token L) (\<lambda>r. ret (case r of Ok t \<Rightarrow> t | _ \<Rightarrow> None))"

definition authorization :: "lib \<Rightarrow> (db, string option, 'e) prog" where
  \<comment> \<open>\<open>AuthLayer::call\<close>: the header of a request to the server, whose \<open>unwrap\<close> panics on a
    token that is no header value\<close>
  "authorization L =
     and_then (bearer_token L) (\<lambda>t. case t of
       Some b \<Rightarrow> give (map_ok Some (parsed (header_value L (''Bearer '' @ b))))
     | None \<Rightarrow> ret None)"

definition authorized_call ::
    "lib \<Rightarrow> (string option \<Rightarrow> ('a, grpc_status) res) \<Rightarrow> (db, 'a, grpc_status) prog" where
  \<comment> \<open>a call through the layer: the argument is the server's answer to this header\<close>
  "authorized_call L server = and_then (authorization L) (\<lambda>h. give (server h))"

section \<open>The stored token\<close>

definition tokens_ok :: "db \<Rightarrow> bool" where
  "tokens_ok d \<longleftrightarrow> (\<forall>r \<in> set (tokens d). tok_id r < next_id d)"

lemma tokens_ok_empty [simp]: "tokens_ok empty_db"
  by (simp add: tokens_ok_def empty_db_def)

lemma save_token_run [prog_simps]:
  assumes "reliable d" and "tokens_ok d"
  shows "save_token t d =
     (Ok (), d\<lparr>tokens := [\<lparr>tok_id = next_id d, tok_token = t\<rparr>], next_id := Suc (next_id d)\<rparr>)"
proof -
  have "next_id d \<notin> tok_id ` set (tokens d)" and
    old: "filter (\<lambda>r. \<not> tok_id r < next_id d) (tokens d) = []"
    using assms(2) by (auto simp: tokens_ok_def filter_empty_conv)
  with assms(1) show ?thesis by (simp add: save_token_def prog_simps)
qed

lemma remove_all_run [prog_simps]: "reliable d \<Longrightarrow> remove_all d = (Ok (), tokens_update (\<lambda>_. []) d)"
  by (simp add: remove_all_def prog_simps)

lemma get_token_run [prog_simps]:
  "reliable d \<Longrightarrow> get_token L d = (Ok (map_option tok_token (pick_row L (tokens d))), d)"
  by (simp add: get_token_def prog_simps)

lemma bearer_token_run [prog_simps]:
  "reliable d \<Longrightarrow> bearer_token L d = (Ok (map_option tok_token (pick_row L (tokens d))), d)"
  by (simp add: bearer_token_def prog_simps)

lemma token_calm [calm_intros, simp]:
  "no_panic (get_token L d)"
  "no_panic (save_token t d)"
  "no_panic (remove_all d)"
  "no_panic (bearer_token L d)"
  unfolding get_token_def save_token_def remove_all_def bearer_token_def
  by (auto intro!: calm_intros simp: fresh_id_run)

end
