(* ===== verification/Device.thy ===== *)
theory Device
  imports Token_Storage
begin

text \<open>
  modvpn-daemon/src/device/name.rs, storage.rs and init.rs: how the device gets its name from
  the system, and the table with the one row that describes it. The outputs of the commands and
  the values of the platform are the record \<open>host\<close>; the values drawn at random or read from the
  clock for a new device are the record \<open>draw\<close>.
\<close>

section \<open>The name of the device (name.rs)\<close>

record host =
  host_os :: string  \<comment> \<open>\<open>std::env::consts::OS\<close>\<close>
  host_arch :: string
  host_last :: "string option"  \<comment> \<open>what \<open>last\<close> prints, if it runs\<close>
  host_hostname :: "string option"
  host_version :: string  \<comment> \<open>\<open>talpid\_platform\_metadata::version\<close>\<close>

definition is_space :: "char \<Rightarrow> bool" where
  "is_space c \<longleftrightarrow> (let n = of_char c :: nat in n = 32 \<or> 9 \<le> n \<and> n \<le> 13)"

definition trim :: "string \<Rightarrow> string" where
  "trim s = rev (dropWhile is_space (rev (dropWhile is_space s)))"

definition strip_cr :: "string \<Rightarrow> string" where
  "strip_cr s = (if s \<noteq> [] \<and> last s = CHR 0x0D then butlast s else s)"

fun lines_from :: "string \<Rightarrow> string \<Rightarrow> string list" where
  \<comment> \<open>\<open>str::lines\<close>; the first argument is the line read so far, reversed\<close>
  "lines_from acc [] = (if acc = [] then [] else [rev acc])"
| "lines_from acc (c # s) =
     (if c = CHR 0x0A then strip_cr (rev acc) # lines_from [] s else lines_from (c # acc) s)"

fun contains :: "string \<Rightarrow> string \<Rightarrow> bool" where
  "contains p [] = (p = [])"
| "contains p (c # s) = (take (length p) (c # s) = p \<or> contains p s)"

definition first_word :: "string \<Rightarrow> string option" where
  "first_word s =
     (let w = takeWhile (\<lambda>c. \<not> is_space c) (dropWhile is_space s) in
      if w = [] then None else Some w)"

definition command_stdout_lossy :: "string option \<Rightarrow> string option" where
  "command_stdout_lossy output = map_option trim output"

fun find_logged_in :: "string list \<Rightarrow> string option" where
  "find_logged_in [] = None"
| "find_logged_in (line # rest) =
     (if contains ''logged in'' line then
        (case first_word line of Some name \<Rightarrow> Some name | None \<Rightarrow> find_logged_in rest)
      else find_logged_in rest)"

definition logged_in_user :: "host \<Rightarrow> string option" where
  "logged_in_user h =
     (let output = (if host_os h = ''windows'' then None else command_stdout_lossy (host_last h)) in
      case output of Some out \<Rightarrow> find_logged_in (lines_from [] out) | None \<Rightarrow> None)"

definition hostname :: "host \<Rightarrow> string option" where
  "hostname h = command_stdout_lossy (host_hostname h)"

definition device_name :: "host \<Rightarrow> string" where
  "device_name h =
     (case (case logged_in_user h of Some u \<Rightarrow> Some u | None \<Rightarrow> hostname h) of
        Some user \<Rightarrow> if user = [] then ''[unknown]'' else user
      | None \<Rightarrow> ''[unknown]'')"

definition device_version :: "host \<Rightarrow> string" where
  "device_version h = host_version h"

lemma device_name_nonempty: "device_name h \<noteq> []"
  by (auto simp: device_name_def split: option.split)

lemma first_word_no_space:
  assumes "first_word s = Some w"
  shows "w \<noteq> [] \<and> (\<forall>c \<in> set w. \<not> is_space c)"
proof -
  have "w = takeWhile (\<lambda>c. \<not> is_space c) (dropWhile is_space s)" and "w \<noteq> []"
    using assms unfolding first_word_def Let_def by (metis option.distinct(1) option.inject)+
  then show ?thesis using set_takeWhileD by metis
qed

lemma find_logged_in_Some:
  "find_logged_in ls = Some w \<Longrightarrow> \<exists>l \<in> set ls. contains ''logged in'' l \<and> first_word l = Some w"
proof (induction ls)
  case Nil
  then show ?case by simp
next
  case (Cons l ls)
  then consider "contains ''logged in'' l" "first_word l = Some w" | "find_logged_in ls = Some w"
    unfolding find_logged_in.simps by (metis option.case_eq_if option.collapse)
  then show ?case using Cons.IH by cases auto
qed

section \<open>The device's row (storage.rs)\<close>

record draw =
  draw_uid :: uuid
  draw_key :: wg_key
  draw_now :: datetime

definition device_type_of_os :: "string \<Rightarrow> (device_type, string) res" where
  "device_type_of_os os =
     (if os = ''linux'' then Ok Linux
      else if os = ''macos'' then Ok MacOS
      else if os = ''windows'' then Ok Windows
      else if os = ''android'' then Ok Android
      else if os = ''ios'' then Ok IOS
      else Err (''OS not supported: '' @ os))"

definition create_new :: "host \<Rightarrow> draw \<Rightarrow> (device_details, string) res" where
  "create_new h w =
     res_bind (device_type_of_os (host_os h)) (\<lambda>dt.
       Ok \<lparr>dd_name = device_name h, dd_version = device_version h, dd_arch = host_arch h,
           dd_unique_id = draw_uid w, dd_device_type = dt,
           dd_wireguard_meta = wireguard_default (draw_key w), dd_created_at = draw_now w\<rparr>)"

definition any_row :: "'r \<Rightarrow> bool" where
  "any_row r \<longleftrightarrow> True"

definition device_init :: "lib \<Rightarrow> host \<Rightarrow> draw \<Rightarrow> (db, device_details, string) prog" where
  "device_init L h w =
     and_then (with_err (\<lambda>e. ''unable to get device details: '' @ db_err_display e)
         (sql_one L device_table any_row))
       (\<lambda>v. case v of
          Some r \<Rightarrow> give (device_details_of_row L r)
        | None \<Rightarrow>
            and_then (give (create_new h w)) (\<lambda>dd.
            and_then (with_err (\<lambda>e. ''failed to save device detail '' @ db_err_display e)
                (sql_insert device_table dev_unique_id (device_row_of_details L dd)))
              (\<lambda>_. ret dd)))"

definition initialize_device :: "lib \<Rightarrow> host \<Rightarrow> draw \<Rightarrow> (db, device_details, string) prog" where
  "initialize_device L h w = device_init L h w"

definition reinitialize :: "lib \<Rightarrow> host \<Rightarrow> draw \<Rightarrow> (db, unit, db_err) prog" where
  \<comment> \<open>the result of \<open>init\<close> is dropped\<close>
  "reinitialize L h w =
     and_then (sql_delete_many device_table any_row) (\<lambda>_.
       attempt (device_init L h w) (\<lambda>_. ret ()))"

definition get_device_unique_id :: "lib \<Rightarrow> (db, uuid, db_err) prog" where
  "get_device_unique_id L =
     and_then (sql_one L device_table any_row) (\<lambda>v.
     and_then (give (unwrap v)) (\<lambda>r. give (parse_uuid L (dev_unique_id r))))"

definition get_device :: "lib \<Rightarrow> (db, device_details option, db_err) prog" where
  "get_device L =
     and_then (sql_one L device_table any_row) (\<lambda>v. case v of
       Some r \<Rightarrow> give (map_ok Some (map_err Custom (device_details_of_row L r)))
     | None \<Rightarrow> ret None)"

definition set_ipv4 :: "ipv4 \<Rightarrow> device_row \<Rightarrow> device_row" where
  "set_ipv4 a r = r\<lparr>dev_ipv4_address := Some (ipv4_to_string a)\<rparr>"

definition update_ipv4_address :: "lib \<Rightarrow> uuid \<Rightarrow> ipv4 \<Rightarrow> (db, device_details, db_err) prog" where
  "update_ipv4_address L unique_id a =
     (let i = uuid_to_string L unique_id in
      and_then (sql_one L device_table (\<lambda>r. dev_unique_id r = i)) (\<lambda>v.
      and_then (give (ok_or (RecordNotFound (''device with unique id '' @ i @ '' not found'')) v)) (\<lambda>r.
      and_then (sql_update device_table (\<lambda>x. dev_unique_id x = dev_unique_id r) (set_ipv4 a)) (\<lambda>_.
        give (map_err Custom (device_details_of_row L (set_ipv4 a r)))))))"

section \<open>The invariant: at most one row, and it converts\<close>

definition describes :: "lib \<Rightarrow> device_row \<Rightarrow> device_details \<Rightarrow> bool" where
  \<comment> \<open>the row converts, and its id is the text the library prints for it\<close>
  "describes L r dd \<longleftrightarrow> device_details_of_row L r = Ok dd
     \<and> uuid_to_string L (dd_unique_id dd) = dev_unique_id r"

definition device_ok :: "lib \<Rightarrow> db \<Rightarrow> bool" where
  "device_ok L d \<longleftrightarrow> length (devices d) \<le> 1
     \<and> (\<forall>r \<in> set (devices d). \<exists>dd. describes L r dd)"

definition lib_ok :: "lib \<Rightarrow> bool" where
  "lib_ok L \<longleftrightarrow> uuid_ok L \<and> key_ok L \<and> chrono_ok L"

lemma sample_lib_ok [simp]: "lib_ok sample_lib"
  by (simp add: lib_ok_def)

lemma device_ok_empty [simp]: "device_ok L empty_db"
  by (simp add: device_ok_def empty_db_def)

lemma any_row_True [simp]: "any_row = (\<lambda>_. True)"
  by (simp add: any_row_def fun_eq_iff)

lemma device_ok_cases:
  assumes "device_ok L d"
  obtains (none) "devices d = []"
  | (one) r dd where "devices d = [r]" and "describes L r dd"
  using assms by (cases "devices d") (auto simp: device_ok_def)

lemma row_converts: "lib_ok L \<Longrightarrow> device_details_of_row L (device_row_of_details L dd) = Ok dd"
  by (simp add: device_row_roundtrip lib_ok_def)

lemma row_describes: "lib_ok L \<Longrightarrow> describes L (device_row_of_details L dd) dd"
  by (simp add: describes_def row_converts) (simp add: device_row_of_details_def)

lemma describesD: "describes L r dd \<Longrightarrow> device_details_of_row L r = Ok dd"
  by (simp add: describes_def)

definition with_ipv4 :: "ipv4 \<Rightarrow> device_details \<Rightarrow> device_details" where
  "with_ipv4 a dd = dd\<lparr>dd_wireguard_meta :=
     (dd_wireguard_meta dd)\<lparr>wg_device_addresses := Some \<lparr>da_ipv4_address = a\<rparr>\<rparr>\<rparr>"

lemma set_ipv4_converts:
  "device_details_of_row L r = Ok dd \<Longrightarrow>
     device_details_of_row L (set_ipv4 a r) = Ok (with_ipv4 a dd)"
  unfolding device_details_of_row_def set_ipv4_def wireguard_from_json_def with_ipv4_def
  by (cases "dev_ipv4_address r") (auto simp: res_bind_Ok_iff ipv4_text_roundtrip)

lemma set_ipv4_describes: "describes L r dd \<Longrightarrow> describes L (set_ipv4 a r) (with_ipv4 a dd)"
  by (simp add: describes_def set_ipv4_converts) (simp add: set_ipv4_def with_ipv4_def)

lemma device_init_none:
  assumes "devices d = []" and "reliable d"
  shows "device_init L h w d =
     (case create_new h w of
        Ok dd \<Rightarrow> (Ok dd, d\<lparr>devices := [device_row_of_details L dd]\<rparr>)
      | Err e \<Rightarrow> (Err e, d)
      | Panic m \<Rightarrow> (Panic m, d))"
  using assms
  by (cases "create_new h w") (simp_all add: device_init_def prog_simps device_row_of_details_def)

lemma device_init_some:
  "devices d = [r] \<Longrightarrow> reliable d \<Longrightarrow> device_init L h w d = (device_details_of_row L r, d)"
  by (simp add: device_init_def prog_simps)

lemma device_one_cases:
  obtains (fault) e fs where "sql_one L device_table P d = (Err e, d\<lparr>faults := fs\<rparr>)"
  | (run) fs where "sql_one L device_table P d
      = (Ok (pick_row L (filter P (devices d))), d\<lparr>faults := fs\<rparr>)"
  unfolding sql_one_def
  by (rule statement_cases [of "\<lambda>d. (Ok (pick_row L (filter P (fst device_table d))), d)" d])
    simp_all

lemma device_insert_cases:
  obtains (fault) e fs where "sql_insert device_table dev_unique_id r d = (Err e, d\<lparr>faults := fs\<rparr>)"
  | (run) fs where "sql_insert device_table dev_unique_id r d
      = (Ok (), devices_update (\<lambda>rs. rs @ [r]) (d\<lparr>faults := fs\<rparr>))"
  unfolding sql_insert_def
  by (rule statement_cases [of "\<lambda>d. if dev_unique_id r \<in> dev_unique_id ` set (fst device_table d)
      then (Err UniqueViolation, d) else (Ok (), snd device_table (\<lambda>rs. rs @ [r]) d)" d])
    (auto split: if_splits)

text \<open>Whatever statement fails, initialising never leaves two rows or a row that does not convert.\<close>

lemma device_ok_faults [simp]: "device_ok L (d\<lparr>faults := fs\<rparr>) = device_ok L d"
  by (simp add: device_ok_def)

lemma device_init_ok:
  assumes L: "lib_ok L" and ok: "device_ok L d" and run: "device_init L h w d = (r, d')"
  shows "device_ok L d'"
  using device_one_cases [of L any_row d]
proof cases
  case (fault e fs)
  with ok run show ?thesis by (auto simp: device_init_def prog_simps)
next
  case one: (run fs)
  show ?thesis
  proof (cases "devices d = [] \<and> (\<exists>dd. create_new h w = Ok dd)")
    case False
    with one ok run show ?thesis
      by (cases "create_new h w"; cases "pick_row L (devices d)") (auto simp: device_init_def prog_simps)
  next
    case True
    then obtain dd where dd: "create_new h w = Ok dd" and empty: "devices d = []" by blast
    note converts = row_describes [OF L, of dd]
    from device_insert_cases [of "device_row_of_details L dd" "d\<lparr>faults := fs\<rparr>"] show ?thesis
    proof cases
      case (fault e fs2)
      with one run dd empty ok show ?thesis by (simp add: device_init_def prog_simps) auto
    next
      case ins: (run fs2)
      then have "d' = devices_update (\<lambda>rs. rs @ [device_row_of_details L dd]) (d\<lparr>faults := fs2\<rparr>)"
        using one run dd empty by (auto simp: device_init_def prog_simps)
      with converts empty show ?thesis by (auto simp: device_ok_def)
    qed
  qed
qed

lemma keeps_device_init [keeps_intros]: "lib_ok L \<Longrightarrow> keeps (device_ok L) (device_init L h w)"
  unfolding keeps_def by (metis device_init_ok prod.collapse)

lemma keeps_device_delete [keeps_intros]: "keeps (device_ok L) (sql_delete_many device_table P)"
  unfolding sql_delete_many_def
  using le_trans [OF length_filter_le]
  by (intro keeps_statement) (simp_all add: keeps_def device_ok_def, blast)

lemma keeps_device_one [keeps_intros]: "keeps (device_ok L) (sql_one M device_table P)"
  unfolding sql_one_def by (rule keeps_statement) (simp_all add: keeps_def)

lemma keeps_set_ipv4 [keeps_intros]: "keeps (device_ok L) (sql_update device_table P (set_ipv4 a))"
  unfolding sql_update_def
  using set_ipv4_describes [of L]
  by (intro keeps_statement) (simp_all add: keeps_def device_ok_def, blast)

lemma keeps_reinitialize [keeps_intros]: "lib_ok L \<Longrightarrow> keeps (device_ok L) (reinitialize L h w)"
  unfolding reinitialize_def by (auto intro!: keeps_intros)

lemma keeps_update_ipv4 [keeps_intros]: "keeps (device_ok L) (update_ipv4_address L u a)"
  unfolding update_ipv4_address_def Let_def by (auto intro!: keeps_intros)

lemma keeps_get_device [keeps_intros]:
  "keeps (device_ok L) (get_device M)" "keeps (device_ok L) (get_device_unique_id M)"
  unfolding get_device_def get_device_unique_id_def
  by (auto intro!: keeps_intros split: option.split)

section \<open>What the operations do\<close>

lemma get_device_run [prog_simps]:
  "reliable d \<Longrightarrow> get_device L d = (case pick_row L (devices d) of
      Some r \<Rightarrow> (map_ok Some (map_err Custom (device_details_of_row L r)), d)
    | None \<Rightarrow> (Ok None, d))"
  by (simp add: get_device_def prog_simps split: option.split)

text \<open>\<open>init\<close> followed by \<open>get_device\<close> finds a device: the \<open>unwrap\<close> of the sign-in is safe.\<close>

lemma init_then_get:
  assumes "lib_ok L" and "reliable d" and "device_ok L d" and "device_init L h w d = (Ok dd, d')"
  shows "get_device L d' = (Ok (Some dd), d')"
  using assms(3)
proof (cases rule: device_ok_cases)
  case none
  with assms show ?thesis
    by (auto simp: device_init_none prog_simps row_converts split: res.splits)
next
  case (one r dd')
  with assms show ?thesis by (simp add: device_init_some prog_simps describesD)
qed

lemma create_new_Ok_iff:
  "(\<exists>dd. create_new h w = Ok dd) \<longleftrightarrow>
     host_os h \<in> {''linux'', ''macos'', ''windows'', ''android'', ''ios''}"
  by (auto simp: create_new_def device_type_of_os_def)

text \<open>Asking for the device's id panics exactly when the statement succeeds and there is no row.\<close>

lemma unique_id_panics_iff:
  assumes "device_ok L d"
  shows "is_panic (fst (get_device_unique_id L d)) \<longleftrightarrow>
     devices d = [] \<and> (faults d = [] \<or> hd (faults d) = None)"
proof -
  have "uuid_parse_str L (dev_unique_id r) \<noteq> None" if "r \<in> set (devices d)" for r
    using assms that
    by (auto simp: device_ok_def describes_def device_details_of_row_def res_bind_Ok_iff dest!: bspec)
  then have "uuid_parse_str L (dev_unique_id r) \<noteq> None" if "pick_row L (devices d) = Some r" for r
    using that pick_row_Some by fast
  then show ?thesis
    by (cases "faults d"; cases "pick_row L (devices d)")
      (auto simp: get_device_unique_id_def sql_one_def statement_def prog_simps parse_uuid_panics_iff
        split: option.split)
qed

lemma unique_id_run [prog_simps]:
  assumes "reliable d" and "devices d = [r]" and "device_details_of_row L r = Ok dd"
  shows "get_device_unique_id L d = (Ok (dd_unique_id dd), d)"
  using assms
  by (auto simp: get_device_unique_id_def prog_simps device_details_of_row_def res_bind_Ok_iff
      parse_uuid_def)

lemma reinitialize_run:
  assumes "reliable d"
  shows "reinitialize L h w d =
     (case create_new h w of
        Ok dd \<Rightarrow> (Ok (), d\<lparr>devices := [device_row_of_details L dd]\<rparr>)
      | Err e \<Rightarrow> (Ok (), d\<lparr>devices := []\<rparr>)
      | Panic m \<Rightarrow> (Panic m, d\<lparr>devices := []\<rparr>))"
  using assms
  by (cases "create_new h w") (simp_all add: reinitialize_def prog_simps device_init_none)

lemma update_ipv4_run:
  assumes "reliable d" and "devices d = [r]" and "device_details_of_row L r = Ok dd"
    and "uuid_to_string L u = dev_unique_id r"
  shows "update_ipv4_address L u a d = (Ok (with_ipv4 a dd), d\<lparr>devices := [set_ipv4 a r]\<rparr>)"
  using assms set_ipv4_converts [OF assms(3)]
  by (simp add: update_ipv4_address_def Let_def prog_simps)

lemma device_calm [calm_intros, simp]:
  "no_panic (device_init L h w d)"
  "no_panic (reinitialize L h w d)"
  "no_panic (get_device L d)"
  "no_panic (update_ipv4_address L u a d)"
  unfolding device_init_def reinitialize_def get_device_def update_ipv4_address_def Let_def
  by (auto intro!: calm_intros simp: device_details_of_row_calm create_new_def device_type_of_os_def
      split: option.split)

section \<open>Sample values\<close>

text \<open>The concrete device, table and location at which witnesses evaluate the theorems.\<close>

definition sample_details :: device_details where
  "sample_details = \<lparr>dd_name = ''laptop'', dd_version = ''1'', dd_arch = ''x86_64'',
     dd_unique_id = 1, dd_device_type = Linux, dd_wireguard_meta = wireguard_default 7,
     dd_created_at = 0\<rparr>"

definition sample_host :: host where
  "sample_host = \<lparr>host_os = ''linux'', host_arch = ''x86_64'', host_last = None,
     host_hostname = Some ''laptop'', host_version = ''1''\<rparr>"

definition sample_db :: db where
  "sample_db = empty_db\<lparr>devices := [device_row_of_details sample_lib sample_details]\<rparr>"

lemma sample_uuid_ne [simp]:
  "uuid_to_string sample_lib a = uuid_to_string sample_lib b \<longleftrightarrow> a = b"
  by (rule uuid_show_inject) simp

lemma sample_converts [simp]:
  "device_details_of_row sample_lib (device_row_of_details sample_lib d) = Ok d"
  by (rule row_converts) simp

lemma sample_db_simps [simp]:
  "reliable sample_db"
  "devices sample_db = [device_row_of_details sample_lib sample_details]"
  "vpn_sessions sample_db = []"
  "tokens sample_db = []"
  "recents sample_db = []"
  "next_id sample_db = 1"
  "faults sample_db = []"
  by (simp_all add: sample_db_def empty_db_def reliable_def)

lemma sample_device_ok [simp]: "device_ok sample_lib sample_db"
  using row_describes [OF sample_lib_ok, of sample_details] by (auto simp: device_ok_def)

lemma sample_unique_id [simp]:
  "reliable d \<Longrightarrow> devices d = [device_row_of_details sample_lib sample_details] \<Longrightarrow>
     get_device_unique_id sample_lib d = (Ok 1, d)"
  using unique_id_run [of d _ sample_lib sample_details] by (simp add: sample_details_def)

lemma logged_in_sound:
  assumes "logged_in_user h = Some u"
  shows "u \<noteq> [] \<and> (\<forall>c \<in> set u. \<not> is_space c)
     \<and> (\<exists>out line. host_last h = Some out \<and> line \<in> set (lines_from [] (trim out))
          \<and> contains ''logged in'' line \<and> first_word line = Some u)"
proof -
  obtain out where out: "host_last h = Some out" and u: "find_logged_in (lines_from [] (trim out)) = Some u"
    using assms by (cases "host_last h")
      (simp_all add: logged_in_user_def Let_def command_stdout_lossy_def split: if_splits)
  then show ?thesis using find_logged_in_Some [OF u] first_word_no_space by blast
qed

section \<open>Properties\<close>

text \<open>The name a new device gets is never empty, whatever the commands print, and the name of
  a logged-in user is the first word of a line that says so.\<close>

lemma device_name_sound:
  "device_name h \<noteq> [] \<and> (\<forall>u. logged_in_user h = Some u \<longrightarrow>
     device_name h = u \<and> (\<forall>c \<in> set u. \<not> is_space c)
     \<and> (\<exists>out line. host_last h = Some out \<and> line \<in> set (lines_from [] (trim out))
          \<and> contains ''logged in'' line \<and> first_word line = Some u))"
  using logged_in_sound [of h] device_name_nonempty [of h]
  by (auto simp: device_name_def)

end
