(* ===== verification/Locations.thy ===== *)
theory Locations
  imports Errors
begin

text \<open>
  modvpn-daemon/src/location\_storage.rs: the locations used most recently. The table is kept in
  the order of its autoincrement ids, which is the order of insertion; \<open>add_recent\<close> moves a
  location to the end of it and drops all but the last \<open>RECENT_LIMIT\<close>, and \<open>recent\<close> lists the
  newest first. \<open>recent_view\<close> is the abstract list the two operations refine: the most recently
  used, without duplicates, cut at the limit.
\<close>

definition RECENT_LIMIT :: nat where
  "RECENT_LIMIT = 2"

definition recent_row_of :: "nat \<Rightarrow> location \<Rightarrow> recent_row" where
  "recent_row_of i l = \<lparr>rec_id = i, rec_code = loc_code l, rec_city = loc_city l,
     rec_city_code = loc_city_code l, rec_country = loc_country l,
     rec_country_code = loc_country_code l, rec_state = loc_state l,
     rec_state_code = loc_state_code l\<rparr>"

definition newest_ids :: "nat \<Rightarrow> recent_row list \<Rightarrow> nat list" where
  \<comment> \<open>the subquery: \<open>SELECT id ORDER BY id DESC LIMIT n\<close>\<close>
  "newest_ids n rs = take n (rev (sort (map rec_id rs)))"

definition add_recent :: "location \<Rightarrow> (db, unit, db_err) prog" where
  "add_recent l =
     and_then (sql_delete_many recent_table (\<lambda>r. rec_code r = loc_code l)) (\<lambda>_.
     and_then fresh_id (\<lambda>i.
     and_then (sql_insert recent_table rec_id (recent_row_of i l)) (\<lambda>_.
     and_then (\<lambda>d. sql_delete_many recent_table
         (\<lambda>r. rec_id r \<notin> set (newest_ids RECENT_LIMIT (recents d))) d) (\<lambda>_.
       ret ()))))"

definition one_per_code :: "lib \<Rightarrow> recent_row list \<Rightarrow> recent_row list" where
  \<comment> \<open>\<open>GROUP BY code\<close>: the row that stands for a group is the database's choice\<close>
  "one_per_code L rs =
     List.map_filter (\<lambda>c. pick_row L (filter (\<lambda>r. rec_code r = c) rs)) (remdups (map rec_code rs))"

definition recent :: "lib \<Rightarrow> (db, location list, db_err) prog" where
  "recent L = statement (\<lambda>d.
     (Ok (map location_of_recent_row (rev (sort_key rec_id (one_per_code L (recents d))))), d))"

section \<open>The invariant\<close>

text \<open>Ids ascend and are below the next one; no two rows have the same code.\<close>

definition recents_ok :: "db \<Rightarrow> bool" where
  "recents_ok d \<longleftrightarrow> sorted_wrt (<) (map rec_id (recents d))
     \<and> (\<forall>r \<in> set (recents d). rec_id r < next_id d)
     \<and> distinct (map rec_code (recents d))"

lemma recents_ok_empty [simp]: "recents_ok empty_db"
  by (simp add: recents_ok_def empty_db_def)

lemma recents_ok_faults [simp]: "recents_ok (d\<lparr>faults := fs\<rparr>) = recents_ok d"
  by (simp add: recents_ok_def)

lemma sorted_wrt_map_filter: "sorted_wrt P (map f xs) \<Longrightarrow> sorted_wrt P (map f (filter Q xs))"
  by (induction xs) auto

lemma recents_ok_filter: "recents_ok d \<Longrightarrow> recents_ok (recents_update (filter P) d)"
  by (auto simp: recents_ok_def sorted_wrt_map_filter distinct_map inj_on_def)

lemma recents_ok_next: "recents_ok d \<Longrightarrow> recents_ok (d\<lparr>next_id := Suc (next_id d)\<rparr>)"
  by (auto simp: recents_ok_def less_Suc_eq)

definition all_other :: "location \<Rightarrow> nat \<Rightarrow> db \<Rightarrow> bool" where
  \<comment> \<open>between the first deletion and the insertion\<close>
  "all_other l i d \<longleftrightarrow> recents_ok d
     \<and> (\<forall>r \<in> set (recents d). rec_code r \<noteq> loc_code l \<and> rec_id r < i) \<and> i < next_id d"

lemma recents_ok_add: "all_other l i d \<Longrightarrow> recents_ok (recents_update (\<lambda>rs. rs @ [recent_row_of i l]) d)"
  by (auto simp: all_other_def recents_ok_def sorted_wrt_append recent_row_of_def)

lemma delete_recent_cases:
  obtains (fault) e fs where "sql_delete_many recent_table P d = (Err e, d\<lparr>faults := fs\<rparr>)"
  | (run) n fs where "sql_delete_many recent_table P d
      = (Ok n, recents_update (filter (\<lambda>r. \<not> P r)) (d\<lparr>faults := fs\<rparr>))"
  unfolding sql_delete_many_def
  by (rule statement_cases [of "\<lambda>d. (Ok (length (filter P (fst recent_table d))),
        snd recent_table (filter (\<lambda>r. \<not> P r)) d)" d]) simp_all

lemma keeps_delete_recent [keeps_intros]: "keeps recents_ok (sql_delete_many recent_table P)"
  unfolding sql_delete_many_def
  by (rule keeps_statement) (simp_all add: keeps_def recents_ok_filter)

lemma insert_recent_ok:
  "all_other l i d \<Longrightarrow> recents_ok (snd (sql_insert recent_table rec_id (recent_row_of i l) d))"
  using recents_ok_add [of l i d] recents_ok_add [of l i "d\<lparr>faults := tl (faults d)\<rparr>"]
  by (auto simp: sql_insert_def statement_def all_other_def split: list.split option.split)

text \<open>Whichever of the four statements fails, the invariant holds afterwards.\<close>

lemma keeps_add_recent [keeps_intros]: "keeps recents_ok (add_recent l)"
proof -
  have rest: "keeps recents_ok (\<lambda>d. sql_delete_many recent_table
      (\<lambda>r. rec_id r \<notin> set (newest_ids RECENT_LIMIT (recents d))) d)"
    using keeps_delete_recent by (simp add: keeps_def)
  have "recents_ok (snd (add_recent l d))" if ok: "recents_ok d" for d
  proof (cases rule: delete_recent_cases [of "\<lambda>r. rec_code r = loc_code l" d])
    case (fault e fs)
    with ok show ?thesis by (simp add: add_recent_def and_then_def)
  next
    case (run n fs)
    define d1 where "d1 = recents_update (filter (\<lambda>r. rec_code r \<noteq> loc_code l)) (d\<lparr>faults := fs\<rparr>)"
    let ?d2 = "d1\<lparr>next_id := Suc (next_id d1)\<rparr>"
    have other: "all_other l (next_id d1) ?d2"
      using recents_ok_next [OF recents_ok_filter, of "d\<lparr>faults := fs\<rparr>" "\<lambda>r. rec_code r \<noteq> loc_code l"] ok
      by (auto simp: d1_def all_other_def recents_ok_def)
    obtain q d3 where ins: "sql_insert recent_table rec_id (recent_row_of (next_id d1) l) ?d2 = (q, d3)"
      by fastforce
    then have "recents_ok d3" using insert_recent_ok [OF other] by simp
    then show ?thesis
      using run ins keepsD [OF rest, of d3]
      by (auto simp: add_recent_def and_then_def fresh_id_run d1_def [symmetric]
          split: res.split prod.split)
  qed
  then show ?thesis by (simp add: keeps_def)
qed

section \<open>The two operations refine a list of the most recently used\<close>

definition recent_view :: "db \<Rightarrow> location list" where
  "recent_view d = map location_of_recent_row (rev (recents d))"

lemma filter_tail:
  assumes "distinct (map f xs)"
  shows "filter (\<lambda>x. f x \<in> f ` set (drop k xs)) xs = drop k xs"
proof -
  have split: "filter Q xs = filter Q (take k xs) @ filter Q (drop k xs)" for Q
    by (metis append_take_drop_id filter_append)
  have "distinct (map f (take k xs @ drop k xs))" using assms by simp
  then have disj: "f ` set (take k xs) \<inter> f ` set (drop k xs) = {}"
    unfolding map_append distinct_append by simp
  then have "filter (\<lambda>x. f x \<in> f ` set (drop k xs)) (take k xs) = []"
    by (auto simp: filter_empty_conv)
  moreover have "filter (\<lambda>x. f x \<in> f ` set (drop k xs)) (drop k xs) = drop k xs"
    by (rule filter_True) simp
  ultimately show ?thesis by (simp only: split append_Nil)
qed

lemma ascending_distinct: "sorted_wrt (<) (map f xs) \<Longrightarrow> distinct (map f xs)"
  for f :: "'a \<Rightarrow> nat"
  using strict_sorted_iff by blast

lemma keep_newest:
  assumes "sorted_wrt (<) (map rec_id rs)"
  shows "filter (\<lambda>r. rec_id r \<in> set (newest_ids n rs)) rs = rev (take n (rev rs))"
proof -
  have "sort (map rec_id rs) = map rec_id rs"
    using assms by (simp add: sorted_sort_id strict_sorted_iff)
  then have "set (newest_ids n rs) = rec_id ` set (drop (length rs - n) rs)"
    by (simp add: newest_ids_def take_rev drop_map)
  with filter_tail [OF ascending_distinct [OF assms], of "length rs - n"]
  show ?thesis by (simp add: take_rev)
qed

lemma map_filter_inverse:
  "(\<And>x. x \<in> set xs \<Longrightarrow> g (f x) = Some x) \<Longrightarrow> List.map_filter g (map f xs) = xs"
  by (induction xs) (simp_all add: List.map_filter_simps)

lemma one_per_code_id:
  assumes "distinct (map rec_code rs)"
  shows "one_per_code L rs = rs"
  using assms unfolding one_per_code_def distinct_remdups_id [OF assms]
  by (intro map_filter_inverse pick_row_unique)

lemma recent_run:
  "reliable d \<Longrightarrow> recents_ok d \<Longrightarrow> recent L d = (Ok (recent_view d), d)"
  by (auto simp: recent_def statement_reliable recent_view_def recents_ok_def one_per_code_id
      strict_sorted_iff intro!: sort_key_id_if_sorted arg_cong [of _ _ "map location_of_recent_row"])

lemma location_of_recent_row_of: "location_of_recent_row (recent_row_of i l) = l\<lparr>loc_estimate := None\<rparr>"
  by (simp add: location_of_recent_row_def recent_row_of_def)

lemma add_recent_run:
  assumes "reliable d" and "recents_ok d"
  shows "fst (add_recent l d) = Ok ()"
    and "recent_view (snd (add_recent l d)) = take RECENT_LIMIT
      (l\<lparr>loc_estimate := None\<rparr> # filter (\<lambda>x. loc_code x \<noteq> loc_code l) (recent_view d))"
    and "reliable (snd (add_recent l d))"
proof -
  let ?d1 = "recents_update (filter (\<lambda>r. rec_code r \<noteq> loc_code l)) d"
  let ?rs = "recents ?d1 @ [recent_row_of (next_id d) l]"
  have other: "all_other l (next_id d) (?d1\<lparr>next_id := Suc (next_id d)\<rparr>)"
    using recents_ok_next [OF recents_ok_filter, of d "\<lambda>r. rec_code r \<noteq> loc_code l"] assms
    by (auto simp: all_other_def recents_ok_def)
  then have new: "next_id d \<notin> rec_id ` set (recents ?d1)"
    by (auto simp: all_other_def)
  have sorted: "sorted_wrt (<) (map rec_id ?rs)"
    using recents_ok_add [OF other] by (simp add: recents_ok_def)
  have run: "add_recent l d = (Ok (), recents_update (\<lambda>_. rev (take RECENT_LIMIT (rev ?rs)))
      (d\<lparr>next_id := Suc (next_id d)\<rparr>))"
    using assms(1) new sorted keep_newest [OF sorted, of RECENT_LIMIT]
    by (simp add: add_recent_def prog_simps recent_row_of_def comp_def)
  then show "fst (add_recent l d) = Ok ()" "reliable (snd (add_recent l d))"
    using assms(1) by (simp_all add: reliable_def)
  show "recent_view (snd (add_recent l d)) = take RECENT_LIMIT
      (l\<lparr>loc_estimate := None\<rparr> # filter (\<lambda>x. loc_code x \<noteq> loc_code l) (recent_view d))"
    by (simp add: run recent_view_def take_map [symmetric] rev_filter [symmetric] filter_map comp_def
        location_of_recent_row_of) (simp add: location_of_recent_row_def)
qed

lemma add_recent_calm [calm_intros, simp]: "no_panic (add_recent l d)"
  unfolding add_recent_def by (auto intro!: calm_intros simp: fresh_id_run)

lemma recent_calm [calm_intros, simp]: "no_panic (recent L d)"
  unfolding recent_def by (rule statement_no_panic) simp

interpretation recents_actor: calm_actor add_recent recents_ok "\<lambda>_. True"
  by unfold_locales (simp_all add: keeps_add_recent calm_iff)

section \<open>Properties\<close>

text \<open>C22: adding a recent location moves it to the front of the listing, forgets the older entry
  with its code, and keeps at most \<open>RECENT_LIMIT\<close> entries.\<close>

theorem add_recent_lists_newest:
  assumes "reliable d" and "recents_ok d" and "fst (recent L d) = Ok ls"
  shows "fst (add_recent l d) = Ok ()
     \<and> fst (recent L (snd (add_recent l d))) = Ok (take RECENT_LIMIT
         (l\<lparr>loc_estimate := None\<rparr> # filter (\<lambda>x. loc_code x \<noteq> loc_code l) ls))"
proof -
  have "recents_ok (snd (add_recent l d))" using keeps_add_recent assms(2) by (simp add: keeps_def)
  then show ?thesis using assms add_recent_run [OF assms(1,2), of l] by (simp add: recent_run)
qed

theorem add_recent_lists_newest_witness:
  "fst (recent sample_lib (snd (add_recent
      \<lparr>loc_code = ''a'', loc_country = [], loc_country_code = [], loc_city = [], loc_city_code = [],
       loc_state = None, loc_state_code = None, loc_estimate = Some 3\<rparr> empty_db)))
   = Ok [\<lparr>loc_code = ''a'', loc_country = [], loc_country_code = [], loc_city = [], loc_city_code = [],
       loc_state = None, loc_state_code = None, loc_estimate = None\<rparr>]"
proof -
  have "fst (recent sample_lib empty_db) = Ok []"
    by (simp add: recent_run recent_view_def) (simp add: empty_db_def)
  from add_recent_lists_newest [OF reliable_empty recents_ok_empty this] show ?thesis
    by (simp add: RECENT_LIMIT_def)
qed

text \<open>Whatever locations are added and whichever statements fail on the way, no call panics,
  ids ascend, and the listing never shows a location twice.\<close>

lemma recents_stay_distinct:
  assumes "recents_ok d"
  shows "\<not> is_panic (fst (serve add_recent ls d)) \<and> recents_ok (snd (serve add_recent ls d))
     \<and> distinct (map loc_code (recent_view (snd (serve add_recent ls d))))"
  using recents_actor.serve_calm [of ls] assms
  by (auto simp: calm_def recents_ok_def recent_view_def location_of_recent_row_def comp_def
      simp flip: rev_map)

end
