(* ===== verification/Daemon.thy ===== *)
theory Daemon
  imports Daemon_State Session_Storage Device Locations
begin

text \<open>
  modvpn-daemon/src/daemon.rs: the task in the middle. It handles one event after the other:
  commands of the clients, statuses of the session that the watchers bring, transitions of the
  tunnel, and the shutdown. Its state is what it keeps in memory, the database, and what it has
  sent: broadcasts to the clients, commands to the tunnel, replies, and the tasks it has spawned.
  A spawned task runs beside the daemon; what it does is a definition of its own, a program on
  the database.
\<close>

section \<open>Commands and events\<close>

datatype daemon_command =
    CmdIsAuthenticated
  | CmdAccountSignIn user_credentials
  | CmdAccountSignOut
  | CmdListLocations
  | CmdRecentLocations
  | CmdConnect location
  | CmdDisconnect
  | CmdGetVpnStatus
  | CmdGetNotifications
  | CmdAckNotification string
  | CmdLatestAppVersion

datatype daemon_event =
    EvCommand daemon_command
  | EvShutdown
  | EvVpnSessionStatus vpn_session_status
  | EvTunnelStateTransition tunnel_transition

fun daemon_error_display :: "daemon_error \<Rightarrow> string" where
  "daemon_error_display DaemonUnavailable = ''daemon is offline''"
| "daemon_error_display (AnotherVpnSessionInProgress l) =
     ''another vpn session in progress: '' @ location_display l"
| "daemon_error_display (InvalidOpVpnSessionInProgress m) =
     ''invalid op when vpn session in progress: '' @ m"
| "daemon_error_display (DaemonDbErr e) = ''''"
| "daemon_error_display (DaemonDeviceError e) = ''device error: '' @ device_error_display e"
| "daemon_error_display (DaemonVpnSessionError e) =
     ''vpn session error: '' @ vpn_session_error_display e"

fun daemon_command_display :: "daemon_command \<Rightarrow> string" where
  "daemon_command_display CmdIsAuthenticated = ''IsAuthenticated''"
| "daemon_command_display (CmdAccountSignIn c) = ''AccountSignIn: '' @ uc_email c"
| "daemon_command_display CmdAccountSignOut = ''AccountSignOut''"
| "daemon_command_display CmdListLocations = ''ListLocations''"
| "daemon_command_display CmdRecentLocations = ''RecentLocations''"
| "daemon_command_display (CmdConnect l) = ''Connect: '' @ loc_code l"
| "daemon_command_display CmdDisconnect = ''Disconnect''"
| "daemon_command_display CmdGetVpnStatus = ''GetVpnStatus''"
| "daemon_command_display CmdGetNotifications = ''GetNotifications''"
| "daemon_command_display (CmdAckNotification i) = ''AckNotification: '' @ i"
| "daemon_command_display CmdLatestAppVersion = ''LatestAppVersion''"

fun daemon_event_display :: "lib \<Rightarrow> daemon_event \<Rightarrow> string" where
  "daemon_event_display L (EvCommand c) = daemon_command_display c"
| "daemon_event_display L EvShutdown = ''Shutdown''"
| "daemon_event_display L (EvVpnSessionStatus s) =
     ''VpnSessionStatus: '' @ vpn_session_status_display L s"
| "daemon_event_display L (EvTunnelStateTransition t) = ''TunnelStateTransition: '' @ (case t of
      TunDisconnected \<Rightarrow> ''Disconnected''
    | TunConnecting e \<Rightarrow> e
    | TunConnected e \<Rightarrow> e
    | TunDisconnecting a \<Rightarrow> a
    | TunError e \<Rightarrow> err_debug e)"

section \<open>State\<close>

datatype broadcast = StatusBroadcast vpn_status | NotificationBroadcast notification

datatype daemon_task =
    TaskAddRecent location
  | TaskEndSession "session_info option" string
  | TaskClientConnected session_info
  | TaskIsAuthenticated
  | TaskSignIn user_credentials
  | TaskSignOut
  | TaskListLocations
  | TaskRecentLocations
  | TaskLatestAppVersion

datatype daemon_reply =
    StatusReply "(vpn_status, daemon_error) res"
  | DoneReply "(unit, daemon_error) res"
  | AuthenticatedReply "(bool, daemon_error) res"
  | LocationListReply "(location list, daemon_error) res"
  | NotificationsReply "(notification list, daemon_error) res"
  | VersionReply "(string, daemon_error) res"

datatype shutdown_step =
    JoinTunnel | StopSessionService | ClearSubscribers | JoinController | StopDeviceService

record daemon =
  dm_state :: daemon_state
  dm_db :: db
  dm_tunnel_up :: bool  \<comment> \<open>the tunnel's state machine still receives\<close>
  dm_tunnel_commands :: "tunnel_command list"
  dm_broadcasts :: "broadcast list"
  dm_tasks :: "daemon_task list"
  dm_replies :: "daemon_reply list"
  dm_shutdown_steps :: "shutdown_step list"

text \<open>What one event meets: a fresh id, the time, and the session service's answer.\<close>

record daemon_world =
  dmw_uuid :: uuid
  dmw_now :: datetime
  dmw_new_session :: "new_session \<Rightarrow> (accepted, vpn_session_error) res"
  dmw_order :: "notification list \<Rightarrow> notification list"  \<comment> \<open>of the \<open>HashMap\<close>'s values\<close>

type_synonym 'a dm = "(daemon, 'a, daemon_error) prog"

definition daemon_new :: "db \<Rightarrow> daemon" where
  "daemon_new d = \<lparr>dm_state = ds_new, dm_db = d, dm_tunnel_up = True, dm_tunnel_commands = [],
     dm_broadcasts = [], dm_tasks = [], dm_replies = [], dm_shutdown_steps = []\<rparr>"

abbreviation in_dm_db :: "(db, 'a, 'e) prog \<Rightarrow> (daemon, 'a, 'e) prog" where
  "in_dm_db p \<equiv> zoom dm_db (\<lambda>d s. s\<lparr>dm_db := d\<rparr>) p"

definition on_db :: "(db, 'a, db_err) prog \<Rightarrow> 'a dm" where
  "on_db p = with_err DaemonDbErr (in_dm_db p)"

definition spawn :: "daemon_task \<Rightarrow> (daemon, unit, 'e) prog" where
  "spawn t = writes (\<lambda>s. s\<lparr>dm_tasks := dm_tasks s @ [t]\<rparr>)"

definition dm_reply :: "daemon_reply \<Rightarrow> (daemon, unit, 'e) prog" where
  "dm_reply r = writes (\<lambda>s. s\<lparr>dm_replies := dm_replies s @ [r]\<rparr>)"

definition to_state :: "(daemon_state \<Rightarrow> daemon_state) \<Rightarrow> (daemon, unit, 'e) prog" where
  "to_state f = writes (\<lambda>s. s\<lparr>dm_state := f (dm_state s)\<rparr>)"

definition broadcast_dm :: "broadcast \<Rightarrow> (daemon, unit, 'e) prog" where
  "broadcast_dm b = writes (\<lambda>s. s\<lparr>dm_broadcasts := dm_broadcasts s @ [b]\<rparr>)"

definition send_tunnel_command :: "tunnel_command \<Rightarrow> (daemon, unit, 'e) prog" where
  "send_tunnel_command c = (\<lambda>s.
     if dm_tunnel_up s then (Ok (), s\<lparr>dm_tunnel_commands := dm_tunnel_commands s @ [c]\<rparr>)
     else (Panic ''Tunnel state machine has stopped'', s))"

section \<open>Helpers of the handlers\<close>

definition add_notification_dm :: "notification \<Rightarrow> (daemon, unit, 'e) prog" where
  "add_notification_dm n =
     and_then (to_state (add_notification n)) (\<lambda>_. broadcast_dm (NotificationBroadcast n))"

definition set_vpn_status_dm :: "vpn_status \<Rightarrow> (daemon, unit, 'e) prog" where
  "set_vpn_status_dm v = and_then (to_state (set_vpn_status v)) (\<lambda>_. broadcast_dm (StatusBroadcast v))"

definition when_some :: "'a option \<Rightarrow> ('a \<Rightarrow> ('s, unit, 'e) prog) \<Rightarrow> ('s, unit, 'e) prog" where
  "when_some v f = (case v of Some x \<Rightarrow> f x | None \<Rightarrow> ret ())"

definition update_tunnel_on_new_status :: "vpn_status \<Rightarrow> (daemon, unit, 'e) prog" where
  "update_tunnel_on_new_status v =
     (case v of VpnServerReady l \<Rightarrow> send_tunnel_command TunnelConnect | _ \<Rightarrow> ret ())"

definition tunnel_command_on_disconnect :: "(daemon, unit, 'e) prog" where
  "tunnel_command_on_disconnect =
     and_then (reads (\<lambda>s. vpn_status (dm_state s))) (\<lambda>v. case v of
       VpnServerReady l \<Rightarrow> send_tunnel_command TunnelDisconnect
     | VpnConnecting l \<Rightarrow> send_tunnel_command TunnelDisconnect
     | VpnConnected l t \<Rightarrow> send_tunnel_command TunnelDisconnect
     | _ \<Rightarrow> ret ())"

definition end_session_dm :: "lib \<Rightarrow> string \<Rightarrow> unit dm" where
  "end_session_dm L end_reason =
     and_then (on_db (storage_end_session L)) (\<lambda>info. spawn (TaskEndSession info end_reason))"

definition client_connected_dm :: "session_info \<Rightarrow> (daemon, unit, 'e) prog" where
  "client_connected_dm info = spawn (TaskClientConnected info)"

section \<open>Connecting and disconnecting\<close>

definition connect_rejected :: "lib \<Rightarrow> daemon_world \<Rightarrow> uuid \<Rightarrow> location \<Rightarrow> vpn_session_error \<Rightarrow> vpn_status dm" where
  "connect_rejected L w request_id l err =
     and_then (on_db (storage_delete L request_id)) (\<lambda>_.
     and_then (\<lambda>s. let (n, st) = add_notification_for_failed_new_session L (dmw_now w) request_id l err
           (dm_state s) in (Ok n, s\<lparr>dm_state := st\<rparr>)) (\<lambda>n.
     and_then (add_notification_dm n) (\<lambda>_. ret VpnDisconnected)))"

definition connect_accepted :: "lib \<Rightarrow> location \<Rightarrow> accepted \<Rightarrow> vpn_status dm" where
  "connect_accepted L l a =
     and_then (on_db (storage_update_on_accepted L a)) (\<lambda>_.
     and_then (to_state (accepted_at l)) (\<lambda>_. ret (VpnAccepted l)))"

definition on_connect_inner :: "lib \<Rightarrow> daemon_world \<Rightarrow> location \<Rightarrow> vpn_status dm" where
  "on_connect_inner L w l =
     and_then (reads (\<lambda>s. vpn_session_in_progress (dm_state s))) (\<lambda>busy. case busy of
       Some other \<Rightarrow> give (Err (AnotherVpnSessionInProgress other))
     | None \<Rightarrow>
         and_then (on_db (storage_new_session L (dmw_uuid w) (dmw_now w) l)) (\<lambda>request_id.
         and_then (on_db (get_device_unique_id L)) (\<lambda>device_unique_id.
           case dmw_new_session w \<lparr>ns_request_id = request_id, ns_device_unique_id = device_unique_id,
               ns_location_code = loc_code l\<rparr> of
             Ok a \<Rightarrow> connect_accepted L l a
           | Err err \<Rightarrow> connect_rejected L w request_id l err
           | Panic m \<Rightarrow> give (Panic m))))"

definition respond_dm :: "(('a, daemon_error) res \<Rightarrow> daemon_reply) \<Rightarrow> 'a dm \<Rightarrow> unit dm" where
  "respond_dm mk p = attempt p (\<lambda>r. dm_reply (mk r))"

definition on_connect :: "lib \<Rightarrow> daemon_world \<Rightarrow> location \<Rightarrow> unit dm" where
  "on_connect L w l =
     and_then (spawn (TaskAddRecent l)) (\<lambda>_. respond_dm StatusReply (on_connect_inner L w l))"

definition on_disconnect_inner :: "lib \<Rightarrow> string \<Rightarrow> vpn_status dm" where
  "on_disconnect_inner L end_reason =
     and_then tunnel_command_on_disconnect (\<lambda>_.
     and_then (end_session_dm L end_reason) (\<lambda>_.
     and_then (\<lambda>s. let (v, st) = update_state_on_disconnect (dm_state s) in (Ok v, s\<lparr>dm_state := st\<rparr>))
       (\<lambda>status.
     and_then (broadcast_dm (StatusBroadcast status)) (\<lambda>_. ret status))))"

definition on_disconnect :: "lib \<Rightarrow> unit dm" where
  "on_disconnect L = respond_dm StatusReply (on_disconnect_inner L ''client requested'')"

section \<open>Statuses and transitions\<close>

definition handle_tunnel_state_transition :: "lib \<Rightarrow> daemon_world \<Rightarrow> tunnel_transition \<Rightarrow> unit dm" where
  "handle_tunnel_state_transition L w tr =
     and_then (\<lambda>s. expect ''failed to process tunnel state transition''
         (in_dm_db (tunnel_state_transition L (dmw_now w) tr (vpn_status (dm_state s)))) s) (\<lambda>p.
     and_then (when_some (tp_client_connected p) client_connected_dm) (\<lambda>_.
     and_then (when_some (tp_tunnel_command p) send_tunnel_command) (\<lambda>_.
     and_then (when_some (tp_notification p) add_notification_dm) (\<lambda>_.
     and_then (when_some (tp_end_session p) (\<lambda>reason.
         attempt (end_session_dm L reason) (\<lambda>_. ret ()))) (\<lambda>_.
       set_vpn_status_dm (tp_vpn_status p))))))"

definition handle_vpn_session_status :: "lib \<Rightarrow> daemon_world \<Rightarrow> vpn_session_status \<Rightarrow> unit dm" where
  "handle_vpn_session_status L w st =
     and_then (expect ''unrecoverable db error in handle_vpn_session_status''
         (in_dm_db (updated_server_status L (dmw_now w) st))) (\<lambda>p.
     and_then (when_some (sp_notification p) add_notification_dm) (\<lambda>_.
       when_some (sp_vpn_status p) (\<lambda>v.
         and_then (set_vpn_status_dm v) (\<lambda>_. update_tunnel_on_new_status v))))"

section \<open>The other commands\<close>

definition on_latest_app_version :: "unit dm" where
  "on_latest_app_version = spawn TaskLatestAppVersion"

definition on_get_notifications :: "daemon_world \<Rightarrow> unit dm" where
  "on_get_notifications w =
     and_then (reads (\<lambda>s. notifications (dmw_order w) (dm_state s))) (\<lambda>ns.
       dm_reply (NotificationsReply (Ok ns)))"

definition on_ack_notification :: "string \<Rightarrow> unit dm" where
  "on_ack_notification i =
     and_then (to_state (remove_notification i)) (\<lambda>_. dm_reply (DoneReply (Ok ())))"

definition on_get_vpn_status :: "unit dm" where
  "on_get_vpn_status =
     and_then (reads (\<lambda>s. vpn_status (dm_state s))) (\<lambda>v. dm_reply (StatusReply (Ok v)))"

definition on_is_authenticated :: "unit dm" where
  "on_is_authenticated = spawn TaskIsAuthenticated"

definition unless_in_session :: "string \<Rightarrow> daemon_task \<Rightarrow> unit dm" where
  "unless_in_session verb t =
     and_then (reads (\<lambda>s. vpn_session_in_progress (dm_state s))) (\<lambda>busy. case busy of
       Some l \<Rightarrow> dm_reply (DoneReply (Err (InvalidOpVpnSessionInProgress
         (''cannot '' @ verb @ '' when a vpn session is in progress (to city '' @ loc_city l @ '')''))))
     | None \<Rightarrow> spawn t)"

definition on_account_sign_in :: "user_credentials \<Rightarrow> unit dm" where
  "on_account_sign_in creds = unless_in_session ''sign in'' (TaskSignIn creds)"

definition on_account_sign_out :: "unit dm" where
  "on_account_sign_out = unless_in_session ''sign out'' TaskSignOut"

definition on_list_locations_dm :: "unit dm" where
  "on_list_locations_dm = spawn TaskListLocations"

definition on_recent_locations :: "unit dm" where
  "on_recent_locations = spawn TaskRecentLocations"

fun handle_command :: "lib \<Rightarrow> daemon_world \<Rightarrow> daemon_command \<Rightarrow> unit dm" where
  "handle_command L w CmdIsAuthenticated = on_is_authenticated"
| "handle_command L w (CmdAccountSignIn c) = on_account_sign_in c"
| "handle_command L w CmdAccountSignOut = on_account_sign_out"
| "handle_command L w CmdListLocations = on_list_locations_dm"
| "handle_command L w CmdRecentLocations = on_recent_locations"
| "handle_command L w (CmdConnect l) = on_connect L w l"
| "handle_command L w CmdDisconnect = on_disconnect L"
| "handle_command L w CmdGetVpnStatus = on_get_vpn_status"
| "handle_command L w CmdGetNotifications = on_get_notifications w"
| "handle_command L w (CmdAckNotification i) = on_ack_notification i"
| "handle_command L w CmdLatestAppVersion = on_latest_app_version"

fun handle_event :: "lib \<Rightarrow> daemon_world \<times> daemon_event \<Rightarrow> unit dm" where
  "handle_event L (w, EvCommand c) = handle_command L w c"
| "handle_event L (w, EvVpnSessionStatus st) = handle_vpn_session_status L w st"
| "handle_event L (w, EvTunnelStateTransition tr) = handle_tunnel_state_transition L w tr"
| "handle_event L (w, EvShutdown) = ret ()"

section \<open>The loop\<close>

definition do_shutdown_step :: "shutdown_step \<Rightarrow> (daemon, unit, 'e) prog" where
  "do_shutdown_step x = writes (\<lambda>s. s\<lparr>dm_shutdown_steps := dm_shutdown_steps s @ [x]\<rparr>)"

definition handle_shutdown :: "lib \<Rightarrow> unit dm" where
  "handle_shutdown L =
     attempt (on_disconnect_inner L ''daemon shutdown'') (\<lambda>_.
     and_then (do_shutdown_step JoinTunnel) (\<lambda>_.
     and_then (do_shutdown_step StopSessionService) (\<lambda>_.
     and_then (do_shutdown_step ClearSubscribers) (\<lambda>_.
     and_then (do_shutdown_step JoinController) (\<lambda>_.
       do_shutdown_step StopDeviceService)))))"

fun daemon_run :: "lib \<Rightarrow> (daemon_world \<times> daemon_event) list \<Rightarrow> unit dm" where
  "daemon_run L [] = handle_shutdown L"
| "daemon_run L (e # es) =
     (if snd e = EvShutdown then handle_shutdown L
      else attempt (handle_event L e) (\<lambda>_. daemon_run L es))"

section \<open>What the spawned tasks do\<close>

definition run_add_recent :: "location \<Rightarrow> (db, unit, 'e) prog" where
  "run_add_recent l = attempt (add_recent l) (\<lambda>_. ret ())"

definition run_recent_locations :: "lib \<Rightarrow> (db, daemon_reply, 'e) prog" where
  "run_recent_locations L =
     attempt (with_err DaemonDbErr (recent L)) (\<lambda>r. ret (LocationListReply r))"

definition run_end_session ::
    "lib \<Rightarrow> (end_session \<Rightarrow> (ended, vpn_session_error) res) \<Rightarrow> session_info option \<Rightarrow> string
       \<Rightarrow> (db, unit, db_err) prog" where
  "run_end_session L answer info end_reason =
     (case info of
        Some i \<Rightarrow>
          attempt (get_device_unique_id L) (\<lambda>v. case v of
            Ok device_unique_id \<Rightarrow>
              (case answer \<lparr>es_request_id = si_request_id i, es_device_unique_id = device_unique_id,
                  es_vpn_session_uuid = si_vpn_session_id i, es_reason = end_reason\<rparr> of
                 Ok ended \<Rightarrow> attempt (storage_delete L (si_request_id i)) (\<lambda>_. ret ())
               | Err err \<Rightarrow> ret ()
               | Panic m \<Rightarrow> give (Panic m))
          | _ \<Rightarrow> ret ())
      | None \<Rightarrow> ret ())"

definition run_client_connected :: "lib \<Rightarrow> session_info \<Rightarrow> (db, client_connected option, db_err) prog" where
  \<comment> \<open>the call it makes on the server, whose answer it ignores\<close>
  "run_client_connected L i =
     attempt (get_device_unique_id L) (\<lambda>v. ret (case v of
       Ok device_unique_id \<Rightarrow> Some \<lparr>cc_request_id = si_request_id i,
         cc_device_unique_id = device_unique_id, cc_vpn_session_uuid = si_vpn_session_id i\<rparr>
     | _ \<Rightarrow> None))"

definition map_device_error :: "('a, device_error) res \<Rightarrow> ('a, daemon_error) res" where
  \<comment> \<open>the answers of the device service to a sign-in, a sign-out or a version request\<close>
  "map_device_error r = map_err DaemonDeviceError r"

definition map_session_error :: "('a, vpn_session_error) res \<Rightarrow> ('a, daemon_error) res" where
  "map_session_error r = map_err DaemonVpnSessionError r"

section \<open>The invariant of the daemon\<close>

definition store_ok :: "lib \<Rightarrow> db \<Rightarrow> bool" where
  "store_ok L d \<longleftrightarrow> lib_ok L \<and> rows_ok L d \<and> device_ok L d \<and> devices d \<noteq> []"

definition dm_inv :: "(db \<Rightarrow> bool) \<Rightarrow> bool \<Rightarrow> daemon \<Rightarrow> bool" where
  \<comment> \<open>\<open>J\<close> of the database; the flag asks for a running tunnel\<close>
  "dm_inv J up s \<longleftrightarrow> J (dm_db s) \<and> ds_wf (dm_state s) \<and> (up \<longrightarrow> dm_tunnel_up s)"

definition dm_ok :: "lib \<Rightarrow> daemon \<Rightarrow> bool" where
  "dm_ok L = dm_inv (store_ok L) False"

definition dm_good :: "lib \<Rightarrow> daemon \<Rightarrow> bool" where
  "dm_good L = dm_inv (\<lambda>d. store_ok L d \<and> reliable d) True"

lemma same_devices:
  "devices d' = devices d \<Longrightarrow> rows_ok L d' \<Longrightarrow> store_ok L d \<Longrightarrow> store_ok L d'"
  by (simp add: store_ok_def device_ok_def)

definition same_device_rows :: "device_row list \<Rightarrow> db \<Rightarrow> bool" where
  "same_device_rows rs d \<longleftrightarrow> devices d = rs"

lemma session_statements_keep_devices [keeps_intros]:
  "keeps (same_device_rows rs) (sql_one L session_table P)"
  "keeps (same_device_rows rs) (sql_insert session_table key r)"
  "keeps (same_device_rows rs) (sql_update_many session_table P f)"
  "keeps (same_device_rows rs) (sql_update session_table P f)"
  "keeps (same_device_rows rs) (sql_delete_many session_table P)"
  "keeps (same_device_rows rs) (sql_one L device_table Q)"
  unfolding sql_one_def sql_insert_def sql_update_many_def sql_update_def sql_delete_many_def
  by (rule keeps_statement; simp add: keeps_def same_device_rows_def)+

lemma storage_keeps_devices [keeps_intros]:
  "keeps (same_device_rows rs) (storage_new_session L k now l)"
  "keeps (same_device_rows rs) (storage_end_session L)"
  "keeps (same_device_rows rs) (storage_update_on_accepted L a)"
  "keeps (same_device_rows rs) (storage_delete L k)"
  "keeps (same_device_rows rs) (get_device_unique_id L)"
  unfolding storage_new_session_def storage_end_session_def storage_update_on_accepted_def
    storage_delete_def get_device_unique_id_def
  by (auto intro!: keeps_intros split: option.split)

lemma status_keeps_devices [keeps_intros]:
  "keeps (same_device_rows rs) (updated_server_status L now st)"
  unfolding updated_server_status_def apply_server_status_def update_row_def delete_row_def Let_def
  by (cases st) (auto intro!: keeps_intros split: option.split)

lemma transition_keeps_devices [keeps_intros]:
  "keeps (same_device_rows rs) (tunnel_state_transition L now tr cur)"
  unfolding tunnel_state_transition_def transition_with_session_def
    transition_without_session_def update_row_def Let_def
  by (cases tr) (auto intro!: keeps_intros split: option.split vpn_status.split)

lemma storage_keeps_reliable [keeps_intros]:
  "keeps reliable (storage_new_session L k now l)"
  "keeps reliable (storage_end_session L)"
  "keeps reliable (storage_update_on_accepted L a)"
  "keeps reliable (storage_delete L k)"
  "keeps reliable (get_device_unique_id L)"
  unfolding storage_new_session_def storage_end_session_def storage_update_on_accepted_def
    storage_delete_def get_device_unique_id_def
  by (auto intro!: keeps_intros split: option.split)

lemma status_keeps_reliable [keeps_intros]: "keeps reliable (updated_server_status L now st)"
  unfolding updated_server_status_def apply_server_status_def update_row_def delete_row_def Let_def
  by (cases st) (auto intro!: keeps_intros split: option.split)

lemma transition_keeps_reliable [keeps_intros]: "keeps reliable (tunnel_state_transition L now tr cur)"
  unfolding tunnel_state_transition_def transition_with_session_def
    transition_without_session_def update_row_def Let_def
  by (cases tr) (auto intro!: keeps_intros split: option.split vpn_status.split)

lemma keeps_store_ok:
  assumes "lib_ok L \<Longrightarrow> keeps (rows_ok L) p" and "\<And>rs. keeps (same_device_rows rs) p"
  shows "keeps (store_ok L) p"
  using assms unfolding keeps_def same_device_rows_def
  by (metis same_devices store_ok_def)

lemma rows_keep_unique_id [keeps_intros]: "keeps (rows_ok L) (get_device_unique_id M)"
proof -
  have "keeps (rows_ok L) (sql_one M device_table P)" for P
    unfolding sql_one_def by (rule keeps_statement) (simp_all add: keeps_def)
  then show ?thesis unfolding get_device_unique_id_def by (auto intro!: keeps_intros)
qed

lemma lib_uuid: "lib_ok L \<Longrightarrow> uuid_ok L"
  by (simp add: lib_ok_def)

text \<open>A storage operation keeps the store in order, with its device row.\<close>

lemma storage_keeps_store:
  "keeps (store_ok L) (storage_new_session L k now l)"
  "keeps (store_ok L) (storage_end_session L)"
  "keeps (store_ok L) (storage_update_on_accepted L a)"
  "keeps (store_ok L) (storage_delete L k)"
  "keeps (store_ok L) (updated_server_status L now st)"
  "keeps (store_ok L) (tunnel_state_transition L now tr cur)"
  "keeps (store_ok L) (get_device_unique_id L)"
  by (rule keeps_store_ok; intro keeps_intros; erule lib_uuid)+

section \<open>Every event keeps it\<close>

lemma keeps_when_some [keeps_intros]: "(\<And>x. keeps I (f x)) \<Longrightarrow> keeps I (when_some v f)"
  by (simp add: when_some_def keeps_ret split: option.split)

lemma keeps_res_case [keeps_intros]:
  "(\<And>x. keeps I (p x)) \<Longrightarrow> (\<And>e. keeps I (q e)) \<Longrightarrow> (\<And>m. keeps I (t m)) \<Longrightarrow>
     keeps I (case r of Ok x \<Rightarrow> p x | Err e \<Rightarrow> q e | Panic m \<Rightarrow> t m)"
  by (simp split: res.split)

definition world_ok :: "(uuid \<Rightarrow> bool) \<Rightarrow> (accepted \<Rightarrow> bool) \<Rightarrow> daemon_world \<Rightarrow> bool" where
  \<comment> \<open>the id it may draw, and what the server may accept a request with that id with, are allowed\<close>
  "world_ok K A w \<longleftrightarrow> K (dmw_uuid w)
     \<and> (\<forall>ns a. ns_request_id ns = dmw_uuid w \<longrightarrow> dmw_new_session w ns = Ok a \<longrightarrow> A a)"

definition event_ok ::
    "(uuid \<Rightarrow> bool) \<Rightarrow> (vpn_session_status \<Rightarrow> bool) \<Rightarrow> (accepted \<Rightarrow> bool) \<Rightarrow> daemon_world \<times> daemon_event \<Rightarrow> bool" where
  \<comment> \<open>and the status it may carry\<close>
  "event_ok K S A e \<longleftrightarrow> world_ok K A (fst e) \<and> (\<forall>st. snd e = EvVpnSessionStatus st \<longrightarrow> S st)"

lemma world_ok_any [simp]: "world_ok (\<lambda>_. True) (\<lambda>_. True) w"
  by (simp add: world_ok_def)

text \<open>
  The handlers touch the database only through the storage operations. What those keep of the
  database, every event keeps; the argument is made once, for any such property. \<open>K\<close> says which
  ids may be drawn for a new session, \<open>D\<close> whose row may be deleted, \<open>S\<close> what the server may report,
  and \<open>A\<close> how it may accept a session.
\<close>

locale kept_store =
  fixes L :: lib
    and J :: "db \<Rightarrow> bool"
    and K :: "uuid \<Rightarrow> bool"
    and D :: "uuid \<Rightarrow> bool"
    and S :: "vpn_session_status \<Rightarrow> bool"
    and A :: "accepted \<Rightarrow> bool"
  assumes new_keeps: "K k \<Longrightarrow> keeps J (storage_new_session L k now l)"
    and delete_keeps: "D k \<Longrightarrow> keeps J (storage_delete L k)"
    and drawn_deletable: "K k \<Longrightarrow> D k"
    and status_keeps: "S st \<Longrightarrow> keeps J (updated_server_status L now st)"
    and end_keeps: "keeps J (storage_end_session L)"
    and accepted_keeps: "A a \<Longrightarrow> keeps J (storage_update_on_accepted L a)"
    and transition_keeps: "keeps J (tunnel_state_transition L now tr cur)"
    and unique_id_keeps: "keeps J (get_device_unique_id L)"
begin

lemma drop_keeps: "K k \<Longrightarrow> keeps J (storage_delete L k)"
  by (intro delete_keeps drawn_deletable)

lemmas storage_keeps = new_keeps end_keeps accepted_keeps drop_keeps status_keeps
  transition_keeps unique_id_keeps

lemma keeps_on_db [keeps_intros]: "keeps J p \<Longrightarrow> keeps (dm_inv J up) (on_db p)"
  unfolding on_db_def
  by (rule keeps_with_err, rule keeps_zoom [where J = J]) (simp_all add: dm_inv_def)

lemma keeps_in_dm_db [keeps_intros]: "keeps J p \<Longrightarrow> keeps (dm_inv J up) (in_dm_db p)"
  by (rule keeps_zoom [where J = J]) (simp_all add: dm_inv_def)

lemma keeps_effects [keeps_intros]:
  "keeps (dm_inv J up) (spawn t)"
  "keeps (dm_inv J up) (dm_reply r)"
  "keeps (dm_inv J up) (broadcast_dm b)"
  "keeps (dm_inv J up) (send_tunnel_command c)"
  "keeps (dm_inv J up) (do_shutdown_step x)"
  by (simp_all add: keeps_def dm_inv_def spawn_def dm_reply_def broadcast_dm_def send_tunnel_command_def
      do_shutdown_step_def)

lemma keeps_to_state [keeps_intros]:
  "(\<And>s. ds_wf s \<Longrightarrow> ds_wf (f s)) \<Longrightarrow> keeps (dm_inv J up) (to_state f)"
  by (simp add: keeps_def dm_inv_def to_state_def)

lemma keeps_helpers [keeps_intros]:
  "keeps (dm_inv J up) (add_notification_dm n)"
  "keeps (dm_inv J up) (set_vpn_status_dm v)"
  "keeps (dm_inv J up) (update_tunnel_on_new_status v)"
  "keeps (dm_inv J up) tunnel_command_on_disconnect"
  "keeps (dm_inv J up) (end_session_dm L reason)"
  "keeps (dm_inv J up) (client_connected_dm info)"
  unfolding add_notification_dm_def set_vpn_status_dm_def update_tunnel_on_new_status_def
    tunnel_command_on_disconnect_def end_session_dm_def client_connected_dm_def
  by (auto intro!: keeps_intros storage_keeps split: vpn_status.split)

lemma keeps_rejected [keeps_intros]:
  assumes "D k"
  shows "keeps (dm_inv J up) (connect_rejected L w k l e)"
proof -
  have "keeps (dm_inv J up) (\<lambda>s. let (n, st) = add_notification_for_failed_new_session L (dmw_now w) k l e
      (dm_state s) in (Ok n, s\<lparr>dm_state := st\<rparr>))"
    by (auto simp: keeps_def dm_inv_def split: prod.split) (metis ds_wf_ops(5) snd_conv)+
  then show ?thesis
    unfolding connect_rejected_def using assms by (auto intro!: keeps_intros delete_keeps)
qed

lemma keeps_accepted [keeps_intros]: "A a \<Longrightarrow> keeps (dm_inv J up) (connect_accepted L l a)"
  unfolding connect_accepted_def by (auto intro!: keeps_intros accepted_keeps)

lemma keeps_connect [keeps_intros]:
  assumes w: "world_ok K A w"
  shows "keeps (dm_inv J up) (on_connect_inner L w l)"
proof -
  have K: "K (dmw_uuid w)" using w by (simp add: world_ok_def)
  have "keeps (dm_inv J up) (and_then (on_db (storage_new_session L (dmw_uuid w) (dmw_now w) l)) (\<lambda>k.
      and_then (on_db (get_device_unique_id L)) (\<lambda>dev.
        case dmw_new_session w \<lparr>ns_request_id = k, ns_device_unique_id = dev, ns_location_code = loc_code l\<rparr> of
          Ok a \<Rightarrow> connect_accepted L l a
        | Err err \<Rightarrow> connect_rejected L w k l err
        | Panic m \<Rightarrow> give (Panic m))))"
  proof (rule keeps_and_then_value, goal_cases)
    case 1
    show ?case using K by (intro keeps_intros new_keeps)
  next
    case (2 k s s')
    then have "k = dmw_uuid w"
      by (auto simp: on_db_def zoom_def storage_new_session_def and_then_def
          split: prod.splits res.splits)
    have answer: "keeps (dm_inv J up) (case dmw_new_session w ns of
          Ok a \<Rightarrow> connect_accepted L l a
        | Err err \<Rightarrow> connect_rejected L w k l err
        | Panic m \<Rightarrow> give (Panic m))" if "ns_request_id ns = k" for ns
    proof (cases "dmw_new_session w ns")
      case (Ok a)
      then show ?thesis using w that \<open>k = dmw_uuid w\<close> by (auto simp: world_ok_def intro!: keeps_intros)
    qed (use drawn_deletable [OF K] \<open>k = dmw_uuid w\<close> in \<open>auto intro!: keeps_intros\<close>)
    show ?case by (rule keeps_and_then [OF keeps_on_db [OF unique_id_keeps]]) (rule answer, simp)
  qed
  then show ?thesis unfolding on_connect_inner_def
    by (rule keeps_and_then [OF keeps_reads keeps_option, OF _ keeps_give])
qed

lemma keeps_disconnect [keeps_intros]: "keeps (dm_inv J up) (on_disconnect_inner L reason)"
proof -
  have "keeps (dm_inv J up) (\<lambda>s. let (v, st) = update_state_on_disconnect (dm_state s)
      in (Ok v, s\<lparr>dm_state := st\<rparr>))"
    by (auto simp: keeps_def dm_inv_def split: prod.split) (metis ds_wf_ops(4) snd_conv)+
  then show ?thesis unfolding on_disconnect_inner_def by (auto intro!: keeps_intros storage_keeps)
qed

lemma keeps_transition: "keeps (dm_inv J up) (handle_tunnel_state_transition L w tr)"
proof -
  have "keeps (dm_inv J up) (\<lambda>s. expect m (in_dm_db (tunnel_state_transition L now tr (f s))) s)" for m now f
    using keeps_expect [OF keeps_in_dm_db [OF transition_keeps], of up m now tr]
    unfolding keeps_def by blast
  then show ?thesis unfolding handle_tunnel_state_transition_def by (auto intro!: keeps_intros storage_keeps)
qed

lemma keeps_status: "S st \<Longrightarrow> keeps (dm_inv J up) (handle_vpn_session_status L w st)"
  unfolding handle_vpn_session_status_def by (auto intro!: keeps_intros storage_keeps)

lemma keeps_respond_dm [keeps_intros]: "keeps (dm_inv J up) p \<Longrightarrow> keeps (dm_inv J up) (respond_dm mk p)"
  unfolding respond_dm_def by (auto intro!: keeps_intros storage_keeps)

lemma keeps_command: "world_ok K A w \<Longrightarrow> keeps (dm_inv J up) (handle_command L w c)"
  by (cases c) (auto simp: on_is_authenticated_def on_account_sign_in_def on_account_sign_out_def
      unless_in_session_def on_list_locations_dm_def on_recent_locations_def on_connect_def
      on_disconnect_def on_get_vpn_status_def on_get_notifications_def on_ack_notification_def
      on_latest_app_version_def ds_wf_remove intro!: keeps_intros storage_keeps)

lemma keeps_event: "event_ok K S A e \<Longrightarrow> keeps (dm_inv J up) (handle_event L e)"
  by (cases "(L, e)" rule: handle_event.cases)
    (auto simp: event_ok_def keeps_command keeps_status keeps_transition intro!: keeps_intros storage_keeps)

lemma keeps_shutdown: "keeps (dm_inv J up) (handle_shutdown L)"
  unfolding handle_shutdown_def by (auto intro!: keeps_intros)

end

interpretation kst: kept_store L "store_ok L" "\<lambda>_. True" "\<lambda>_. True" "\<lambda>_. True" "\<lambda>_. True" for L
  by unfold_locales (simp | rule storage_keeps_store)+

interpretation krel: kept_store L "\<lambda>d. store_ok L d \<and> reliable d" "\<lambda>_. True" "\<lambda>_. True" "\<lambda>_. True" "\<lambda>_. True" for L
  by unfold_locales (simp | intro keeps_conj storage_keeps_store keeps_intros)+

lemma kst_keeps_event: "keeps (dm_inv (store_ok L) up) (handle_event L e)"
  by (rule kst.keeps_event) (simp add: event_ok_def)

lemma krel_keeps_event: "keeps (dm_inv (\<lambda>d. store_ok L d \<and> reliable d) up) (handle_event L e)"
  by (rule krel.keeps_event) (simp add: event_ok_def)

section \<open>What an event does when the database is reliable and the tunnel is there\<close>

lemma dm_goodD:
  "dm_good L s \<Longrightarrow> dm_ok L s \<and> reliable (dm_db s) \<and> dm_tunnel_up s \<and> lib_ok L
     \<and> rows_ok L (dm_db s) \<and> device_ok L (dm_db s) \<and> ds_wf (dm_state s)"
  by (simp add: dm_good_def dm_ok_def dm_inv_def store_ok_def)

lemma dm_device:
  assumes "dm_ok L s"
  obtains r dd where "devices (dm_db s) = [r]" and "describes L r dd"
proof -
  have "device_ok L (dm_db s)" and "devices (dm_db s) \<noteq> []"
    using assms by (simp_all add: dm_ok_def dm_inv_def store_ok_def)
  then show thesis using that by (auto elim: device_ok_cases)
qed

abbreviation status_of :: "daemon \<Rightarrow> vpn_status" where
  "status_of s \<equiv> ds_vpn_status (dm_state s)"

text \<open>The combinators of the daemon, run.\<close>

lemma effects_run [prog_simps]:
  "spawn t s = (Ok (), s\<lparr>dm_tasks := dm_tasks s @ [t]\<rparr>)"
  "dm_reply r s = (Ok (), s\<lparr>dm_replies := dm_replies s @ [r]\<rparr>)"
  "to_state f s = (Ok (), s\<lparr>dm_state := f (dm_state s)\<rparr>)"
  "broadcast_dm b s = (Ok (), s\<lparr>dm_broadcasts := dm_broadcasts s @ [b]\<rparr>)"
  "do_shutdown_step x s = (Ok (), s\<lparr>dm_shutdown_steps := dm_shutdown_steps s @ [x]\<rparr>)"
  by (simp_all add: spawn_def dm_reply_def to_state_def broadcast_dm_def do_shutdown_step_def)

lemma send_run [prog_simps]:
  "dm_tunnel_up s \<Longrightarrow> send_tunnel_command c s =
     (Ok (), s\<lparr>dm_tunnel_commands := dm_tunnel_commands s @ [c]\<rparr>)"
  by (simp add: send_tunnel_command_def)

lemma add_notification_run [prog_simps]:
  "add_notification_dm n s = (Ok (), s\<lparr>dm_state := add_notification n (dm_state s),
     dm_broadcasts := dm_broadcasts s @ [NotificationBroadcast n]\<rparr>)"
  by (simp add: add_notification_dm_def prog_simps)

lemma set_status_run [prog_simps]:
  "set_vpn_status_dm v s = (Ok (), s\<lparr>dm_state := set_vpn_status v (dm_state s),
     dm_broadcasts := dm_broadcasts s @ [StatusBroadcast v]\<rparr>)"
  by (simp add: set_vpn_status_dm_def prog_simps)

lemma on_db_run [prog_simps]:
  "p (dm_db s) = (r, d') \<Longrightarrow> on_db p s = (map_err DaemonDbErr r, s\<lparr>dm_db := d'\<rparr>)"
  by (simp add: on_db_def prog_simps)

lemma when_some_simps [simp]:
  "when_some None f = ret ()"
  "when_some (Some x) f = f x"
  by (simp_all add: when_some_def)

text \<open>A second session is refused, and nothing but the reply and the recent location changes.\<close>

lemma connect_refused:
  assumes "vpn_session_in_progress (dm_state s) = Some other"
  shows "on_connect L w l s =
     (Ok (), s\<lparr>dm_tasks := dm_tasks s @ [TaskAddRecent l],
        dm_replies := dm_replies s @ [StatusReply (Err (AnotherVpnSessionInProgress other))]\<rparr>)"
  using assms by (simp add: on_connect_def respond_dm_def on_connect_inner_def prog_simps)

definition session_request :: "daemon_world \<Rightarrow> uuid \<Rightarrow> location \<Rightarrow> new_session" where
  "session_request w dev l = \<lparr>ns_request_id = dmw_uuid w, ns_device_unique_id = dev,
     ns_location_code = loc_code l\<rparr>"

definition fresh_for :: "lib \<Rightarrow> daemon_world \<Rightarrow> daemon \<Rightarrow> bool" where
  \<comment> \<open>the id drawn is not in the table\<close>
  "fresh_for L w s \<longleftrightarrow> uuid_to_string L (dmw_uuid w) \<notin> row_request_id ` set (vpn_sessions (dm_db s))"

definition accepted_row :: "lib \<Rightarrow> daemon_world \<Rightarrow> location \<Rightarrow> accepted \<Rightarrow> session_row" where
  "accepted_row L w l a = (session_row_of L (dmw_uuid w) (dmw_now w) l)\<lparr>
     row_server_status := Some (storage_status_text StoredAccepted),
     row_session_uuid := Some (uuid_to_string L (acc_vpn_session_uuid a))\<rparr>"

lemma session_row_id [simp]: "row_request_id (session_row_of L k now l) = uuid_to_string L k"
  by (simp add: session_row_of_def)

lemma connect_accepted_run:
  assumes ok: "dm_ok L s" and rel: "reliable (dm_db s)"
    and idle: "status_of s = VpnDisconnected" and fresh: "fresh_for L w s"
    and dev: "get_device_unique_id L (dm_db s) = (Ok dev, dm_db s)"
    and answer: "dmw_new_session w (session_request w dev l) = Ok a"
    and echo: "acc_request_id a = dmw_uuid w"
  shows "on_connect L w l s =
     (Ok (), s\<lparr>dm_tasks := dm_tasks s @ [TaskAddRecent l],
        dm_state := accepted_at l (dm_state s),
        dm_db := (dm_db s)\<lparr>vpn_sessions := vpn_sessions (dm_db s) @ [accepted_row L w l a]\<rparr>,
        dm_replies := dm_replies s @ [StatusReply (Ok (VpnAccepted l))]\<rparr>)"
proof -
  let ?d1 = "vpn_sessions_update (\<lambda>rs. rs @ [session_row_of L (dmw_uuid w) (dmw_now w) l]) (dm_db s)"
  obtain r dd where r: "devices (dm_db s) = [r]" "describes L r dd" using dm_device [OF ok] .
  have id1: "get_device_unique_id L ?d1 = (Ok dev, ?d1)"
    using rel r dev by (simp add: unique_id_run [OF _ _ describesD])
  have same: "map (\<lambda>r. if has_id (uuid_to_string L (dmw_uuid w)) r
        then r\<lparr>row_server_status := Some (storage_status_text StoredAccepted),
               row_session_uuid := Some (uuid_to_string L (acc_vpn_session_uuid a))\<rparr> else r)
      (vpn_sessions (dm_db s)) = vpn_sessions (dm_db s)"
    using fresh by (intro map_idI) (auto simp: fresh_for_def image_iff)
  have free: "vpn_session_in_progress (dm_state s) = None" using idle by (simp add: in_progress_iff)
  show ?thesis
    using free rel fresh id1 answer echo same
    by (simp add: on_connect_def respond_dm_def on_connect_inner_def prog_simps
        fresh_for_def session_request_def connect_accepted_def accepted_row_def)
qed

lemma connect_rejected_run:
  assumes ok: "dm_ok L s" and rel: "reliable (dm_db s)"
    and idle: "status_of s = VpnDisconnected" and fresh: "fresh_for L w s"
    and dev: "get_device_unique_id L (dm_db s) = (Ok dev, dm_db s)"
    and answer: "dmw_new_session w (session_request w dev l) = Err err"
  shows "on_connect L w l s =
     (let n = \<lparr>ntf_id = uuid_to_string L (dmw_uuid w), ntf_message = failed_session_message err,
               ntf_type = ServerFailed, ntf_timestamp = dmw_now w\<rparr> in
      (Ok (), s\<lparr>dm_tasks := dm_tasks s @ [TaskAddRecent l],
         dm_state := add_notification n (dm_state s),
         dm_broadcasts := dm_broadcasts s @ [NotificationBroadcast n],
         dm_replies := dm_replies s @ [StatusReply (Ok VpnDisconnected)]\<rparr>))"
proof -
  let ?d1 = "vpn_sessions_update (\<lambda>rs. rs @ [session_row_of L (dmw_uuid w) (dmw_now w) l]) (dm_db s)"
  obtain r dd where r: "devices (dm_db s) = [r]" "describes L r dd" using dm_device [OF ok] .
  have id1: "get_device_unique_id L ?d1 = (Ok dev, ?d1)"
    using rel r dev by (simp add: unique_id_run [OF _ _ describesD])
  have same: "filter (\<lambda>r. \<not> has_id (uuid_to_string L (dmw_uuid w)) r) (vpn_sessions (dm_db s))
      = vpn_sessions (dm_db s)"
    using fresh by (intro filter_True) (auto simp: fresh_for_def image_iff)
  have free: "vpn_session_in_progress (dm_state s) = None" using idle by (simp add: in_progress_iff)
  show ?thesis
    using free rel fresh id1 answer same
    by (simp add: on_connect_def respond_dm_def on_connect_inner_def prog_simps
        fresh_for_def session_request_def connect_rejected_def Let_def
        add_notification_for_failed_new_session_def add_notification_def insert_notification_def
        update_same_twice)
qed

text \<open>Disconnecting.\<close>

definition tunnel_active :: "vpn_status \<Rightarrow> bool" where
  \<comment> \<open>the tunnel may have something to disconnect\<close>
  "tunnel_active v \<longleftrightarrow> (case v of VpnServerReady l \<Rightarrow> True | VpnConnecting l \<Rightarrow> True
     | VpnConnected l t \<Rightarrow> True | _ \<Rightarrow> False)"

lemma tunnel_disconnect_run [prog_simps]:
  "dm_tunnel_up s \<or> \<not> tunnel_active (status_of s) \<Longrightarrow> tunnel_command_on_disconnect s =
     (Ok (), s\<lparr>dm_tunnel_commands := dm_tunnel_commands s
        @ (if tunnel_active (status_of s) then [TunnelDisconnect] else [])\<rparr>)"
  by (cases "status_of s")
    (auto simp: tunnel_command_on_disconnect_def prog_simps vpn_status_def tunnel_active_def)

lemma end_session_calm_run:
  assumes "reliable d" and "rows_ok L d"
  obtains info where "storage_end_session L d = (Ok info, snd (storage_end_session L d))"
    and "info = (case picked L d of None \<Rightarrow> None | Some r \<Rightarrow> row_info L r)"
  using assms end_session_some [OF assms] end_session_none [OF assms(1), of L]
  by (cases "picked L d") (auto simp: picked_def)

lemma end_session_table:
  assumes "reliable d" and "rows_ok L d"
  shows "snd (storage_end_session L d) = (case picked L d of
      None \<Rightarrow> d
    | Some r \<Rightarrow> d\<lparr>vpn_sessions := map (\<lambda>x. if has_id (row_request_id r) x
        then x\<lparr>row_mark_for_deletion := True\<rparr> else x) (vpn_sessions d)\<rparr>)"
  using assms end_session_some [OF assms] end_session_none [OF assms(1), of L]
  by (cases "picked L d") (simp_all add: picked_def mark_row_def [abs_def])

definition session_to_end :: "lib \<Rightarrow> db \<Rightarrow> session_info option" where
  "session_to_end L d = (case picked L d of None \<Rightarrow> None | Some r \<Rightarrow> row_info L r)"

lemma disconnect_inner_run:
  assumes rel: "reliable (dm_db s)" and ok: "rows_ok L (dm_db s)"
    and up: "dm_tunnel_up s \<or> \<not> tunnel_active (status_of s)"
  shows "on_disconnect_inner L reason s =
     (Ok (status_on_disconnect (status_of s)), s\<lparr>
        dm_tunnel_commands := dm_tunnel_commands s
          @ (if tunnel_active (status_of s) then [TunnelDisconnect] else []),
        dm_db := snd (storage_end_session L (dm_db s)),
        dm_tasks := dm_tasks s @ [TaskEndSession (session_to_end L (dm_db s)) reason],
        dm_state := set_vpn_status (status_on_disconnect (status_of s)) (dm_state s),
        dm_broadcasts := dm_broadcasts s @ [StatusBroadcast (status_on_disconnect (status_of s))]\<rparr>)"
proof -
  obtain d' where "storage_end_session L (dm_db s) = (Ok (session_to_end L (dm_db s)), d')"
    using end_session_calm_run [OF rel ok] unfolding session_to_end_def by metis
  then show ?thesis
    using up by (simp add: on_disconnect_inner_def end_session_dm_def prog_simps on_db_def
        update_state_on_disconnect_def Let_def)
qed

lemma disconnect_run:
  assumes "reliable (dm_db s)" and "rows_ok L (dm_db s)"
    and "dm_tunnel_up s \<or> \<not> tunnel_active (status_of s)"
  shows "on_disconnect L s =
     (Ok (), s\<lparr>
        dm_tunnel_commands := dm_tunnel_commands s
          @ (if tunnel_active (status_of s) then [TunnelDisconnect] else []),
        dm_db := snd (storage_end_session L (dm_db s)),
        dm_tasks := dm_tasks s @ [TaskEndSession (session_to_end L (dm_db s)) ''client requested''],
        dm_state := set_vpn_status (status_on_disconnect (status_of s)) (dm_state s),
        dm_broadcasts := dm_broadcasts s @ [StatusBroadcast (status_on_disconnect (status_of s))],
        dm_replies := dm_replies s @ [StatusReply (Ok (status_on_disconnect (status_of s)))]\<rparr>)"
  using disconnect_inner_run [OF assms, of "''client requested''"]
  by (simp add: on_disconnect_def respond_dm_def attempt_def effects_run)

text \<open>The statuses of the server.\<close>

lemma status_run:
  assumes "reliable (dm_db s)" and "rows_ok L (dm_db s)" and "dm_tunnel_up s"
    and live: "session_with L (si_request_id (get_session_info st)) (dm_db s) = Some r"
  shows "handle_vpn_session_status L w st s =
     (let l = location_of_session_row r;
          n = (case st of SessFailed f \<Rightarrow> Some (failed_notification L (dmw_now w) (get_session_info st))
               | _ \<Rightarrow> None);
          v = announced st l
      in (Ok (), s\<lparr>
        dm_db := vpn_sessions_update (update_session (row_request_id r) (apply_status L st)) (dm_db s),
        dm_state := (case v of None \<Rightarrow> id | Some x \<Rightarrow> set_vpn_status x)
          ((case n of None \<Rightarrow> id | Some x \<Rightarrow> add_notification x) (dm_state s)),
        dm_broadcasts := dm_broadcasts s
          @ (case n of None \<Rightarrow> [] | Some x \<Rightarrow> [NotificationBroadcast x])
          @ (case v of None \<Rightarrow> [] | Some x \<Rightarrow> [StatusBroadcast x]),
        dm_tunnel_commands := dm_tunnel_commands s
          @ (case st of SessServerReady sr \<Rightarrow> [TunnelConnect] | _ \<Rightarrow> [])\<rparr>))"
  using assms
  by (cases st)
    (simp_all add: handle_vpn_session_status_def prog_simps updated_server_status_run processed_def
      update_tunnel_on_new_status_def Let_def)

lemma status_unknown:
  assumes "reliable (dm_db s)" and "rows_ok L (dm_db s)"
    and "session_with L (si_request_id (get_session_info st)) (dm_db s) = None"
  shows "handle_vpn_session_status L w st s = (Ok (), s)"
  using assms
  by (simp add: handle_vpn_session_status_def prog_simps updated_server_status_run processed_def)

section \<open>Absence of panics\<close>

lemma unique_id_calm: "store_ok L d \<Longrightarrow> no_panic (get_device_unique_id L d)"
  by (simp add: no_panic_def unique_id_panics_iff store_ok_def)

lemma on_db_no_panic [calm_intros]: "no_panic (p (dm_db s)) \<Longrightarrow> no_panic (on_db p s)"
  unfolding on_db_def by (auto intro!: calm_intros)

lemma effects_calm [calm_intros, simp]:
  "no_panic (spawn t s)" "no_panic (dm_reply r s)" "no_panic (to_state f s)"
  "no_panic (broadcast_dm b s)" "no_panic (do_shutdown_step x s)"
  "no_panic (add_notification_dm n s)" "no_panic (set_vpn_status_dm v s)"
  by (simp_all add: prog_simps)

definition world_calm :: "daemon_world \<Rightarrow> bool" where
  \<comment> \<open>the session service answers through a channel: it may be down, but it does not panic here\<close>
  "world_calm w \<longleftrightarrow> (\<forall>ns. \<not> is_panic (dmw_new_session w ns))"

lemma respond_dm_calm [calm_intros]: "no_panic (p s) \<Longrightarrow> no_panic (respond_dm mk p s)"
  unfolding respond_dm_def by (auto intro!: calm_intros)

lemma connect_answer_calm:
  assumes "world_calm w"
  shows "no_panic ((case dmw_new_session w ns of Ok a \<Rightarrow> connect_accepted L l a
     | Err err \<Rightarrow> connect_rejected L w k l err | Panic m \<Rightarrow> give (Panic m)) s)"
proof (cases "dmw_new_session w ns")
  case (Ok a)
  then show ?thesis by (auto simp: connect_accepted_def intro!: calm_intros)
next
  case (Err err)
  then show ?thesis
    by (auto simp: connect_rejected_def intro!: calm_intros split: prod.split)
next
  case (Panic m)
  with assms show ?thesis by (metis is_panic.simps(1) world_calm_def)
qed

lemma connect_inner_calm:
  assumes "world_calm w" and ok: "dm_ok L s"
  shows "no_panic (on_connect_inner L w l s)"
proof -
  have "no_panic (get_device_unique_id L (dm_db s'))"
    if "on_db (storage_new_session L k now l) s = (Ok x, s')" for k now x s'
  proof -
    have "dm_ok L s'"
      using keepsD [OF kst.keeps_on_db [OF kst.new_keeps] _ that] ok by (simp add: dm_ok_def)
    then show ?thesis by (simp add: dm_ok_def dm_inv_def unique_id_calm)
  qed
  then show ?thesis unfolding on_connect_inner_def
    by (auto intro!: calm_intros connect_answer_calm assms(1) split: option.split)
qed

lemma tunnel_disconnect_calm:
  "dm_tunnel_up s \<or> \<not> tunnel_active (status_of s) \<Longrightarrow> no_panic (tunnel_command_on_disconnect s)"
  by (simp add: tunnel_disconnect_run)

lemma end_session_dm_calm: "rows_ok L (dm_db s) \<Longrightarrow> no_panic (end_session_dm L reason s)"
  unfolding end_session_dm_def by (auto intro!: calm_intros)

lemma disconnect_inner_calm:
  assumes "dm_ok L s" and up: "dm_tunnel_up s \<or> \<not> tunnel_active (status_of s)"
  shows "no_panic (on_disconnect_inner L reason s)"
proof -
  have "rows_ok L (dm_db s')" if "tunnel_command_on_disconnect s = (Ok (), s')" for s'
    using that assms by (auto simp: tunnel_disconnect_run dm_ok_def dm_inv_def store_ok_def)
  then show ?thesis unfolding on_disconnect_inner_def
    by (auto intro!: calm_intros tunnel_disconnect_calm up end_session_dm_calm split: prod.split)
qed

lemma command_calm:
  assumes "dm_ok L s" and "world_calm w" and "dm_tunnel_up s \<or> \<not> tunnel_active (status_of s)"
  shows "no_panic (handle_command L w c s)"
proof -
  have "no_panic (on_connect L w l s)" for l
    using connect_inner_calm [OF assms(2), of L "s\<lparr>dm_tasks := dm_tasks s @ [TaskAddRecent l]\<rparr>"] assms(1)
    by (auto simp: on_connect_def prog_simps dm_ok_def dm_inv_def intro!: respond_dm_calm
        simp del: attempt_def)
  then show ?thesis using disconnect_inner_calm [OF assms(1,3)]
    by (cases c) (auto simp: on_is_authenticated_def on_account_sign_in_def on_account_sign_out_def
        unless_in_session_def on_list_locations_dm_def on_recent_locations_def
        on_disconnect_def on_get_vpn_status_def on_get_notifications_def on_ack_notification_def
        on_latest_app_version_def intro!: calm_intros split: option.split)
qed

lemma shutdown_calm:
  assumes "dm_ok L s" and "dm_tunnel_up s \<or> \<not> tunnel_active (status_of s)"
  shows "no_panic (handle_shutdown L s)"
  unfolding handle_shutdown_def
  by (auto intro!: calm_intros disconnect_inner_calm assms)

lemma status_calm:
  assumes "dm_good L s"
  shows "no_panic (handle_vpn_session_status L w st s)"
  using dm_goodD [OF assms]
  by (cases "session_with L (si_request_id (get_session_info st)) (dm_db s)")
    (auto simp: status_unknown status_run [where L = L] Let_def)

section \<open>The tunnel's transitions, handled\<close>

definition after_transition :: "lib \<Rightarrow> tunnel_processed \<Rightarrow> unit dm" where
  \<comment> \<open>what the handler does with what the storage returned\<close>
  "after_transition L p =
     and_then (when_some (tp_client_connected p) client_connected_dm) (\<lambda>_.
     and_then (when_some (tp_tunnel_command p) send_tunnel_command) (\<lambda>_.
     and_then (when_some (tp_notification p) add_notification_dm) (\<lambda>_.
     and_then (when_some (tp_end_session p) (\<lambda>reason.
         attempt (end_session_dm L reason) (\<lambda>_. ret ()))) (\<lambda>_.
       set_vpn_status_dm (tp_vpn_status p)))))"

lemma transition_run:
  "handle_tunnel_state_transition L w tr s =
     (case tunnel_state_transition L (dmw_now w) tr (status_of s) (dm_db s) of
        (Ok p, d) \<Rightarrow> after_transition L p (s\<lparr>dm_db := d\<rparr>)
      | (Err e, d) \<Rightarrow> (Panic ''failed to process tunnel state transition'', s\<lparr>dm_db := d\<rparr>)
      | (Panic m, d) \<Rightarrow> (Panic m, s\<lparr>dm_db := d\<rparr>))"
  by (auto simp: handle_tunnel_state_transition_def after_transition_def prog_simps vpn_status_def
      split: prod.split res.split)

lemma after_transition_calm:
  assumes "rows_ok L (dm_db s)" and "dm_tunnel_up s"
  shows "no_panic (after_transition L p s)"
proof -
  obtain r d where e: "storage_end_session L (dm_db s) = (r, d)" by fastforce
  then have "\<not> is_panic r" using no_panicD [of "storage_end_session L"] end_session_calm assms(1) by blast
  then show ?thesis using assms(2) e
    by (cases r; cases "tp_client_connected p"; cases "tp_tunnel_command p"; cases "tp_notification p";
        cases "tp_end_session p")
      (simp_all add: after_transition_def client_connected_dm_def prog_simps on_db_def end_session_dm_def)
qed

lemma tunnel_transition_no_error:
  assumes "reliable d" and "rows_ok L d"
  shows "fst (tunnel_state_transition L now tr cur d) \<noteq> Err e"
proof (cases "picked L d")
  case None
  with assms show ?thesis
    by (cases tr; cases cur) (simp_all add: tunnel_transition_run transition_without_session_def)
next
  case (Some r)
  then have mem: "r \<in> set (vpn_sessions d)" by (auto dest: pickedD)
  with Some assms show ?thesis
    by (cases tr) (simp_all add: tunnel_transition_run transition_with_session_def Let_def prog_simps
        update_row_def sessions.run_update [of _ r] info_of_row_not_Err map_ok_Err_iff)
qed

lemma transition_panics:
  assumes "dm_good L s"
  shows "is_panic (fst (handle_tunnel_state_transition L w tr s)) \<longleftrightarrow>
     is_panic (fst (tunnel_state_transition L (dmw_now w) tr (status_of s) (dm_db s)))"
proof -
  note g = dm_goodD [OF assms]
  obtain r d where e: "tunnel_state_transition L (dmw_now w) tr (status_of s) (dm_db s) = (r, d)"
    by fastforce
  then have "rows_ok L d" using keepsD [OF keeps_tunnel_state_transition] g by blast
  then have "no_panic (after_transition L p (s\<lparr>dm_db := d\<rparr>))" for p
    using g by (intro after_transition_calm) auto
  moreover have "r \<noteq> Err x" for x
    using tunnel_transition_no_error [of "dm_db s" L "dmw_now w" tr "status_of s" x] g e by simp
  ultimately show ?thesis
    by (cases r) (auto simp: transition_run e no_panic_def)
qed

definition fails_at :: "nat \<Rightarrow> db \<Rightarrow> bool" where
  \<comment> \<open>the statement to come with this number, counted from 0, fails\<close>
  "fails_at n d \<longleftrightarrow> n < length (faults d) \<and> faults d ! n \<noteq> None"

lemma statement_at:
  "statement p d = (if fails_at 0 d then (Err (the (hd (faults d))), d\<lparr>faults := tl (faults d)\<rparr>)
     else p (d\<lparr>faults := tl (faults d)\<rparr>))"
proof (cases "faults d")
  case Nil
  then have "d\<lparr>faults := []\<rparr> = d" by simp
  from arg_cong [OF this, of p] Nil show ?thesis by (simp add: statement_def fails_at_def)
qed (simp add: statement_def fails_at_def split: option.split)

lemma fails_later: "fails_at n (d\<lparr>faults := tl (faults d)\<rparr>) = fails_at (Suc n) d"
  by (cases "faults d") (auto simp: fails_at_def)

lemma picked_faults [simp]: "picked L (d\<lparr>faults := fs\<rparr>) = picked L d"
  by (simp add: picked_def)

lemma transition_one:
  "tunnel_state_transition L now tr cur d =
     (let d' = d\<lparr>faults := tl (faults d)\<rparr> in
      if fails_at 0 d then (Err (the (hd (faults d))), d')
      else case picked L d of
        Some r \<Rightarrow> transition_with_session L now tr r d'
      | None \<Rightarrow> transition_without_session now tr cur d')"
  by (simp add: tunnel_state_transition_def sql_one_def and_then_def statement_at Let_def picked_def
      split: option.split)

lemma update_row_at:
  assumes "r \<in> set (vpn_sessions d)"
  shows "update_row r f d =
     (let d' = d\<lparr>faults := tl (faults d)\<rparr> in
      if fails_at 0 d then (Err (the (hd (faults d))), d')
      else (Ok (), vpn_sessions_update (map (\<lambda>x. if has_id (row_request_id r) x then f x else x)) d'))"
  using assms by (auto simp: update_row_def sql_update_def statement_at filter_empty_conv Let_def)

lemma info_of_row_none: "row_session_uuid r = None \<Longrightarrow> info_of_row L r \<noteq> Ok i"
  by (cases "uuid_parse_str L (row_request_id r)") (simp_all add: info_of_row_def parse_uuid_def)

lemma tunnel_transition_bad_iff:
  assumes "rows_ok L d"
  shows "(\<forall>p. fst (tunnel_state_transition L now tr cur d) \<noteq> Ok p) \<longleftrightarrow>
     fails_at 0 d \<or> (case picked L d of
        None \<Rightarrow> (\<exists>a. tr = TunDisconnecting a) \<and> (\<forall>l. cur \<noteq> VpnDisconnecting l)
      | Some r \<Rightarrow> (\<exists>e. tr = TunConnected e) \<and> (row_session_uuid r = None \<or> fails_at 1 d))"
proof (cases "picked L d")
  case None
  then show ?thesis
    by (cases tr; cases cur) (simp_all add: transition_one transition_without_session_def Let_def)
next
  case (Some r)
  then have mem: "r \<in> set (vpn_sessions d)" and ok: "row_ok L r"
    using assms by (auto dest: pickedD simp: rows_ok_def)
  then show ?thesis using Some
    by (cases tr; cases "row_session_uuid r")
      (simp_all add: transition_one transition_with_session_def Let_def prog_simps update_row_at
        fails_later info_of_row_ok info_of_row_none map_ok_Ok_iff)
qed

lemma after_transition_panics_iff:
  assumes "rows_ok L (dm_db s)"
  shows "is_panic (fst (after_transition L p s)) \<longleftrightarrow> tp_tunnel_command p \<noteq> None \<and> \<not> dm_tunnel_up s"
proof -
  obtain r d where e: "storage_end_session L (dm_db s) = (r, d)" by fastforce
  then have "\<not> is_panic r" using no_panicD [of "storage_end_session L"] end_session_calm assms(1) by blast
  then show ?thesis using e
    by (cases r; cases "tp_client_connected p"; cases "tp_tunnel_command p"; cases "tp_notification p";
        cases "tp_end_session p")
      (simp_all add: after_transition_def client_connected_dm_def prog_simps on_db_def end_session_dm_def
        send_tunnel_command_def)
qed

lemma tunnel_transition_command:
  assumes "rows_ok L d" and "tunnel_state_transition L now tr cur d = (Ok p, d')"
  shows "tp_tunnel_command p \<noteq> None \<longleftrightarrow> (\<exists>es. tr = TunError es)"
proof (cases "picked L d")
  case None
  with assms show ?thesis
    by (cases tr; cases cur) (auto simp: transition_one transition_without_session_def Let_def
        tunnel_now_def tunnel_failed_def split: if_splits)
next
  case (Some r)
  then have mem: "r \<in> set (vpn_sessions d)" and ok: "row_ok L r"
    using assms by (auto dest: pickedD simp: rows_ok_def)
  with Some assms show ?thesis
    by (cases tr; cases "row_session_uuid r")
      (auto simp: transition_one transition_with_session_def Let_def prog_simps update_row_at
        info_of_row_ok info_of_row_none map_ok_Ok_iff tunnel_now_def tunnel_failed_def split: if_splits res.splits)
qed

text \<open>The events that never panic a daemon in order.\<close>

definition calm_event :: "daemon_world \<times> daemon_event \<Rightarrow> bool" where
  "calm_event e \<longleftrightarrow> world_calm (fst e) \<and> (case snd e of
      EvTunnelStateTransition tr \<Rightarrow> (case tr of
        TunConnected x \<Rightarrow> False | TunDisconnecting a \<Rightarrow> False | _ \<Rightarrow> True)
    | _ \<Rightarrow> True)"

lemma event_calm:
  assumes "calm_event e"
  shows "calm (dm_good L) (handle_event L e)"
proof -
  have "keeps (dm_good L) (handle_event L e)"
    unfolding dm_good_def by (rule krel_keeps_event)
  moreover have "no_panic (handle_event L e s)" if good: "dm_good L s" for s
  proof (cases "(L, e)" rule: handle_event.cases)
    case (1 L' w c)
    then show ?thesis using assms command_calm [of L s w c] dm_goodD [OF good]
      by (simp add: calm_event_def)
  next
    case (2 L' w st)
    then show ?thesis using status_calm [OF good] by simp
  next
    case (3 L' w tr)
    then show ?thesis using assms transition_panics [OF good, of w tr] dm_goodD [OF good]
      by (auto simp: no_panic_def calm_event_def tunnel_transition_panics_iff
          split: tunnel_transition.splits option.split)
  qed simp
  ultimately show ?thesis by (simp add: calm_iff)
qed

interpretation daemon_actor: actor "handle_event L" "dm_ok L" "\<lambda>_. True" for L
  unfolding dm_ok_def by unfold_locales (rule kst_keeps_event)

interpretation quiet_daemon: calm_actor "handle_event L" "dm_good L" calm_event for L
  by unfold_locales (auto intro: event_calm simp: calm_keeps [OF event_calm])

section \<open>A sample daemon\<close>

definition sample_world :: daemon_world where
  "sample_world = \<lparr>dmw_uuid = 5, dmw_now = 0,
     dmw_new_session = (\<lambda>ns. Ok \<lparr>acc_request_id = ns_request_id ns, acc_vpn_session_uuid = 9\<rparr>),
     dmw_order = id\<rparr>"

definition sample_daemon :: daemon where
  "sample_daemon = daemon_new sample_db"

definition sample_live :: session_row where
  "sample_live = accepted_row sample_lib sample_world sample_location
     \<lparr>acc_request_id = 5, acc_vpn_session_uuid = 9\<rparr>"

definition sample_busy :: daemon where
  \<comment> \<open>with a live session whose server is ready\<close>
  "sample_busy = sample_daemon\<lparr>dm_db := sample_db\<lparr>vpn_sessions := [sample_live]\<rparr>,
     dm_state := set_vpn_status (VpnServerReady sample_location) ds_new\<rparr>"

lemma sample_daemon_simps [simp]:
  "dm_db sample_daemon = sample_db" "dm_state sample_daemon = ds_new" "dm_tunnel_up sample_daemon"
  by (simp_all add: sample_daemon_def daemon_new_def)

lemma sample_world_simps [simp]:
  "dmw_uuid sample_world = 5"
  "dmw_new_session sample_world ns = Ok \<lparr>acc_request_id = ns_request_id ns, acc_vpn_session_uuid = 9\<rparr>"
  by (simp_all add: sample_world_def)

lemma ds_new_status [simp]: "ds_vpn_status ds_new = VpnDisconnected"
  by (simp add: ds_new_def)

lemma sample_store_ok: "store_ok sample_lib sample_db"
  by (simp add: store_ok_def rows_ok_def)

lemma sample_daemon_good [simp]: "dm_good sample_lib sample_daemon"
  by (simp add: dm_good_def dm_inv_def sample_store_ok)

lemma sample_daemon_ok [simp]: "dm_ok sample_lib sample_daemon"
  by (simp add: dm_ok_def dm_inv_def sample_store_ok)

lemma sample_live_simps [simp]:
  "row_request_id sample_live = uuid_to_string sample_lib 5"
  "row_session_uuid sample_live = Some (uuid_to_string sample_lib 9)"
  "row_mark_for_deletion sample_live = False"
  by (simp_all add: sample_live_def accepted_row_def session_row_of_def)

lemma sample_busy_simps [simp]:
  "dm_db sample_busy = sample_db\<lparr>vpn_sessions := [sample_live]\<rparr>"
  "dm_state sample_busy = set_vpn_status (VpnServerReady sample_location) ds_new"
  "dm_tunnel_up sample_busy"
  by (simp_all add: sample_busy_def)

lemma sample_busy_good [simp]: "dm_good sample_lib sample_busy"
  using sample_store_ok
  by (simp add: dm_good_def dm_inv_def store_ok_def rows_ok_def row_ok_def device_ok_def)

lemma sample_world_calm [simp]: "world_calm sample_world"
  by (simp add: world_calm_def)

section \<open>Properties\<close>

text \<open>C10: a connect request that the server accepts. From an idle daemon with its store in order,
  the reply is \<open>Accepted\<close>, the status is \<open>Accepted\<close>, the table gets exactly one more row, with the
  server's id and the status Accepted, and the request is filed as a recent location.\<close>

theorem connect_accepted_effect:
  assumes "dm_good L s" and "status_of s = VpnDisconnected" and "fresh_for L w s"
    and "get_device_unique_id L (dm_db s) = (Ok dev, dm_db s)"
    and "dmw_new_session w (session_request w dev l) = Ok a" and "acc_request_id a = dmw_uuid w"
  shows "handle_event L (w, EvCommand (CmdConnect l)) s =
     (Ok (), s\<lparr>dm_tasks := dm_tasks s @ [TaskAddRecent l],
        dm_state := accepted_at l (dm_state s),
        dm_db := (dm_db s)\<lparr>vpn_sessions := vpn_sessions (dm_db s) @ [accepted_row L w l a]\<rparr>,
        dm_replies := dm_replies s @ [StatusReply (Ok (VpnAccepted l))]\<rparr>)"
  using assms dm_goodD [OF assms(1)] by (simp add: connect_accepted_run)

theorem connect_accepted_effect_witness:
  "vpn_sessions (dm_db (snd (handle_event sample_lib (sample_world, EvCommand (CmdConnect sample_location))
      sample_daemon))) = [sample_live]"
  using connect_accepted_effect [of sample_lib sample_daemon sample_world 1 sample_location
      "\<lparr>acc_request_id = 5, acc_vpn_session_uuid = 9\<rparr>"]
  by (simp add: fresh_for_def session_request_def sample_live_def)


text \<open>C11: a connect request that the server refuses, or that does not reach it. The row made for
  it is gone again, the status stays \<open>Disconnected\<close>, and exactly one notification, under the
  request's id and with the message for the error, is filed and broadcast.\<close>

theorem connect_rejected_effect:
  assumes "dm_good L s" and "status_of s = VpnDisconnected" and "fresh_for L w s"
    and "get_device_unique_id L (dm_db s) = (Ok dev, dm_db s)"
    and "dmw_new_session w (session_request w dev l) = Err err"
    and "n = \<lparr>ntf_id = uuid_to_string L (dmw_uuid w), ntf_message = failed_session_message err,
              ntf_type = ServerFailed, ntf_timestamp = dmw_now w\<rparr>"
  shows "handle_event L (w, EvCommand (CmdConnect l)) s =
     (Ok (), s\<lparr>dm_tasks := dm_tasks s @ [TaskAddRecent l],
        dm_state := add_notification n (dm_state s),
        dm_broadcasts := dm_broadcasts s @ [NotificationBroadcast n],
        dm_replies := dm_replies s @ [StatusReply (Ok VpnDisconnected)]\<rparr>)"
  using assms dm_goodD [OF assms(1)] by (simp add: connect_rejected_run Let_def)

theorem connect_rejected_effect_witness:
  "dm_replies (snd (handle_event sample_lib
      (sample_world\<lparr>dmw_new_session := \<lambda>_. Err VpnSessionServiceDown\<rparr>, EvCommand (CmdConnect sample_location))
      sample_daemon)) = [StatusReply (Ok VpnDisconnected)]"
  using connect_rejected_effect [of sample_lib sample_daemon
      "sample_world\<lparr>dmw_new_session := \<lambda>_. Err VpnSessionServiceDown\<rparr>" 1 sample_location
      VpnSessionServiceDown, OF _ _ _ _ _ refl]
  by (simp add: fresh_for_def) (simp add: sample_daemon_def daemon_new_def)


text \<open>While a session is in progress a second connect is refused, whatever the database and
  the server would do: the reply names the location of the session in progress, and the state,
  the table, the tunnel and the broadcasts are untouched.\<close>

lemma connect_while_busy:
  assumes "status_of s \<noteq> VpnDisconnected"
  shows "\<exists>other. status_location (status_of s) = Some other
     \<and> handle_event L (w, EvCommand (CmdConnect l)) s =
        (Ok (), s\<lparr>dm_tasks := dm_tasks s @ [TaskAddRecent l],
           dm_replies := dm_replies s @ [StatusReply (Err (AnotherVpnSessionInProgress other))]\<rparr>)"
  using assms connect_refused [of s _ L w l]
  by (cases "status_of s") (simp_all add: vpn_session_in_progress_def)

text \<open>C12: a disconnect request, at a daemon in order whose database and tunnel work. The tunnel is told
  to disconnect exactly when it may be active; one live session is marked for deletion in the
  table, if there is one, and no other row changes; its ids, if the server has accepted it, are
  handed to the task that ends it on the server; the status goes to \<open>Disconnecting\<close>
  or \<open>Disconnected\<close>, and is broadcast and returned.\<close>

theorem disconnect_effect:
  assumes "dm_good L s"
  shows "handle_event L (w, EvCommand CmdDisconnect) s =
     (Ok (), s\<lparr>
        dm_tunnel_commands := dm_tunnel_commands s
          @ (if tunnel_active (status_of s) then [TunnelDisconnect] else []),
        dm_db := (case picked L (dm_db s) of
            None \<Rightarrow> dm_db s
          | Some r \<Rightarrow> (dm_db s)\<lparr>vpn_sessions := map (\<lambda>x. if row_request_id x = row_request_id r
              then x\<lparr>row_mark_for_deletion := True\<rparr> else x) (vpn_sessions (dm_db s))\<rparr>),
        dm_tasks := dm_tasks s @ [TaskEndSession (session_to_end L (dm_db s)) ''client requested''],
        dm_state := set_vpn_status (status_on_disconnect (status_of s)) (dm_state s),
        dm_broadcasts := dm_broadcasts s @ [StatusBroadcast (status_on_disconnect (status_of s))],
        dm_replies := dm_replies s @ [StatusReply (Ok (status_on_disconnect (status_of s)))]\<rparr>)"
  using dm_goodD [OF assms] by (simp add: disconnect_run end_session_table)

theorem disconnect_effect_witness:
  "dm_tunnel_commands (snd (handle_event sample_lib (sample_world, EvCommand CmdDisconnect) sample_busy))
     = [TunnelDisconnect]"
  using disconnect_effect [of sample_lib sample_busy sample_world]
  by (simp add: tunnel_active_def) (simp add: sample_busy_def sample_daemon_def daemon_new_def)


text \<open>C13: a status of the server for a session that is live. The row is updated or deleted, a
  failure files one notification, the new status is kept and broadcast, and the tunnel is told
  to connect exactly when the server is ready.\<close>

theorem server_status_effect:
  assumes "dm_good L s"
    and "session_with L (si_request_id (get_session_info st)) (dm_db s) = Some r"
    and "v = announced st (location_of_session_row r)"
    and "n = (case st of SessFailed f \<Rightarrow> Some (failed_notification L (dmw_now w) (get_session_info st))
           | _ \<Rightarrow> None)"
  shows "handle_event L (w, EvVpnSessionStatus st) s =
     (Ok (), s\<lparr>
        dm_db := vpn_sessions_update (update_session (row_request_id r) (apply_status L st)) (dm_db s),
        dm_state := (case v of None \<Rightarrow> id | Some x \<Rightarrow> set_vpn_status x)
          ((case n of None \<Rightarrow> id | Some x \<Rightarrow> add_notification x) (dm_state s)),
        dm_broadcasts := dm_broadcasts s
          @ (case n of None \<Rightarrow> [] | Some x \<Rightarrow> [NotificationBroadcast x])
          @ (case v of None \<Rightarrow> [] | Some x \<Rightarrow> [StatusBroadcast x]),
        dm_tunnel_commands := dm_tunnel_commands s
          @ (case st of SessServerReady sr \<Rightarrow> [TunnelConnect] | _ \<Rightarrow> [])\<rparr>)"
  using assms dm_goodD [OF assms(1)] by (simp add: status_run Let_def)

theorem server_status_effect_witness:
  "dm_broadcasts (snd (handle_event sample_lib (sample_world, EvVpnSessionStatus
      (SessServerRunning \<lparr>srun_request_id = 5, srun_vpn_session_uuid = 9\<rparr>)) sample_busy))
     = [StatusBroadcast (VpnServerRunning (location_of_session_row sample_live))]"
  using server_status_effect [of sample_lib sample_busy
      "SessServerRunning \<lparr>srun_request_id = 5, srun_vpn_session_uuid = 9\<rparr>" sample_live _ None,
      OF _ _ refl]
  by (simp add: session_with_def unmarked_def)
    (simp add: sample_busy_def sample_daemon_def daemon_new_def)


text \<open>C14: no command of a client makes the daemon panic, whichever statements of the database
  fail and whatever the session service answers, as long as the store was in order and the
  tunnel's state machine runs.\<close>

theorem commands_never_panic:
  assumes "dm_ok L s" and "world_calm w" and "dm_tunnel_up s"
  shows "\<not> is_panic (fst (handle_event L (w, EvCommand c) s)) \<and> dm_ok L (snd (handle_event L (w, EvCommand c) s))"
  using command_calm [OF assms(1,2), of c] kst.keeps_command [OF world_ok_any, of L False w c] assms
  by (simp add: no_panic_def keeps_def dm_ok_def)

theorem commands_never_panic_witness:
  "\<not> is_panic (fst (handle_event sample_lib (sample_world, EvCommand CmdDisconnect) sample_daemon))"
  using commands_never_panic [of sample_lib sample_daemon sample_world CmdDisconnect] by simp


text \<open>Whatever events arrive, in any order and with any failures of the database, the store
  stays in order (ids unique, rows and device readable, one device) and so do the notifications.\<close>

lemma events_keep_invariant:
  assumes "dm_ok L s" and "serve (handle_event L) es s = (r, s')"
  shows "dm_ok L s'"
  by (rule daemon_actor.serve_good [OF _ assms]) simp

text \<open>With a reliable database and a running tunnel, any sequence of commands, server
  statuses and the transitions \<open>Disconnected\<close>, \<open>Connecting\<close> and \<open>Error\<close> is handled to its end.\<close>

lemma events_never_panic:
  assumes "dm_good L s" and "\<forall>e \<in> set es. calm_event e"
  shows "\<not> is_panic (fst (serve (handle_event L) es s)) \<and> dm_good L (snd (serve (handle_event L) es s))"
  using quiet_daemon.serve_calm [OF assms(2), of L] assms(1) by (simp add: calm_def)

text \<open>C15: exactly when a transition of the tunnel ends the daemon, from any daemon in order, whichever
  statements fail and whether or not the tunnel's machine runs: when the query for the live
  session fails; with a live session, on \<open>Connected\<close>, if the server's id of the
  session is not known or the update of its row fails; without one, on
  \<open>Disconnecting\<close>, if the status is not \<open>Disconnecting\<close> already; and on
  an error of the tunnel, if its machine has stopped, since the daemon then commands it to
  disconnect.\<close>

theorem transition_panics_iff:
  assumes "dm_ok L s"
  shows "is_panic (fst (handle_event L (w, EvTunnelStateTransition tr) s)) \<longleftrightarrow>
     fails_at 0 (dm_db s)
     \<or> (case picked L (dm_db s) of
          None \<Rightarrow> (\<exists>a. tr = TunDisconnecting a) \<and> (\<forall>l. status_of s \<noteq> VpnDisconnecting l)
        | Some r \<Rightarrow> (\<exists>e. tr = TunConnected e)
            \<and> (row_session_uuid r = None \<or> fails_at 1 (dm_db s)))
     \<or> (\<exists>es. tr = TunError es) \<and> \<not> dm_tunnel_up s"
proof -
  let ?d = "dm_db s"
  have rows: "rows_ok L ?d" using assms by (simp add: dm_ok_def dm_inv_def store_ok_def)
  obtain r d where e: "tunnel_state_transition L (dmw_now w) tr (status_of s) ?d = (r, d)"
    by fastforce
  have rd: "rows_ok L d" using keepsD [OF keeps_tunnel_state_transition rows e] .
  note bad = tunnel_transition_bad_iff [OF rows, of "dmw_now w" tr "status_of s"]
  show ?thesis
  proof (cases r)
    case (Ok p)
    with bad e have "\<not> (fails_at 0 ?d \<or> (case picked L ?d of
        None \<Rightarrow> (\<exists>a. tr = TunDisconnecting a) \<and> (\<forall>l. status_of s \<noteq> VpnDisconnecting l)
      | Some r \<Rightarrow> (\<exists>e. tr = TunConnected e) \<and> (row_session_uuid r = None \<or> fails_at 1 ?d)))"
      by simp
    moreover have "is_panic (fst (handle_event L (w, EvTunnelStateTransition tr) s))
        \<longleftrightarrow> tp_tunnel_command p \<noteq> None \<and> \<not> dm_tunnel_up s"
      using Ok e after_transition_panics_iff [of L "s\<lparr>dm_db := d\<rparr>" p] rd by (simp add: transition_run)
    ultimately show ?thesis
      using tunnel_transition_command [OF rows, of "dmw_now w" tr "status_of s" p d] e Ok by blast
  qed (use bad e in \<open>auto simp: transition_run\<close>)
qed

theorem transition_panics_iff_witness:
  "is_panic (fst (handle_event sample_lib
     (sample_world, EvTunnelStateTransition (TunDisconnecting ''nothing'')) sample_daemon))"
  using transition_panics_iff [of sample_lib sample_daemon sample_world "TunDisconnecting ''nothing''"]
  by (simp add: picked_def)


text \<open>C16: a race that ends the daemon. The server is ready, the client disconnects, and the
  tunnel's \<open>Connecting\<close>, sent before, is handled after: the branch that means to drop it sets
  the status to \<open>Disconnected\<close>, and the \<open>Disconnecting\<close> that follows hits the \<open>panic!\<close>.\<close>

theorem late_connecting_panics:
  assumes "dm_good L s" and "status_of s = VpnServerReady l"
    and "length (filter unmarked (vpn_sessions (dm_db s))) = 1"
  shows "is_panic (fst (serve (handle_event L)
     [(w1, EvCommand CmdDisconnect), (w2, EvTunnelStateTransition (TunConnecting e)),
      (w3, EvTunnelStateTransition (TunDisconnecting a))] s))"
proof -
  note g = dm_goodD [OF assms(1)]
  define s1 where "s1 = snd (handle_event L (w1, EvCommand CmdDisconnect) s)"
  have run1: "handle_event L (w1, EvCommand CmdDisconnect) s = (Ok (), s1)"
    using g by (simp add: s1_def disconnect_run)
  have good1: "dm_good L s1"
    using keepsD [OF krel_keeps_event _ run1] assms(1) by (simp add: dm_good_def)
  have db1: "dm_db s1 = snd (storage_end_session L (dm_db s))"
    using g by (simp add: s1_def disconnect_run)
  obtain r where r: "filter unmarked (vpn_sessions (dm_db s)) = [r]"
    using assms(3) by (metis One_nat_def length_0_conv length_Suc_conv)
  have live: "x = r" if "x \<in> set (vpn_sessions (dm_db s))" "unmarked x" for x
  proof -
    have "x \<in> set (filter unmarked (vpn_sessions (dm_db s)))" using that by simp
    then show ?thesis unfolding r by simp
  qed
  have "vpn_sessions (dm_db s1)
      = map (\<lambda>x. if has_id (row_request_id r) x then mark_row x else x) (vpn_sessions (dm_db s))"
    unfolding db1 using end_session_some [of "dm_db s" L r] g r by simp
  with live have "filter unmarked (vpn_sessions (dm_db s1)) = []"
    by (auto simp: filter_empty_conv mark_row_def unmarked_def)
  then have none: "picked L (dm_db s1) = None" by (simp add: picked_def)
  define s2 where "s2 = snd (handle_event L (w2, EvTunnelStateTransition (TunConnecting e)) s1)"
  have run2: "handle_event L (w2, EvTunnelStateTransition (TunConnecting e)) s1 = (Ok (), s2)"
    and st2: "status_of s2 = VpnDisconnected" and db2: "dm_db s2 = dm_db s1"
    using dm_goodD [OF good1] none
    by (simp_all add: s2_def transition_run tunnel_transition_run transition_without_session_def
        after_transition_def tunnel_now_def prog_simps)
  have good2: "dm_good L s2"
    using keepsD [OF krel_keeps_event _ run2] good1 by (simp add: dm_good_def)
  have "is_panic (fst (handle_event L (w3, EvTunnelStateTransition (TunDisconnecting a)) s2))"
    using dm_goodD [OF good2] none st2 db2
    by (simp add: transition_panics [OF good2] tunnel_transition_panics_iff)
  then show ?thesis
    using run1 run2
    by (simp add: prog_simps split: prod.split res.split) (metis fst_conv is_panic.simps(2,3) res.exhaust)
qed

theorem late_connecting_panics_witness:
  "is_panic (fst (serve (handle_event sample_lib)
     [(sample_world, EvCommand CmdDisconnect),
      (sample_world, EvTunnelStateTransition (TunConnecting ''endpoint'')),
      (sample_world, EvTunnelStateTransition (TunDisconnecting ''nothing''))] sample_busy))"
  using late_connecting_panics [of sample_lib sample_busy sample_location]
  by (simp add: unmarked_def)

end
