(* ===== verification/Daemon_Replies.thy ===== *)
theory Daemon_Replies
  imports Daemon
begin

text \<open>
  The answers of the daemon (modvpn-daemon/src/daemon.rs): every command of a client carries the
  sender of a oneshot channel, and each handler either sends on it or moves it into the task it
  spawns. What has been sent and what a spawned task still owes are counted together.
\<close>

datatype answer_kind =
    StatusAnswer | DoneAnswer | AuthenticatedAnswer | LocationsAnswer | NotificationsAnswer
  | VersionAnswer

fun kind_of_reply :: "daemon_reply \<Rightarrow> answer_kind" where
  "kind_of_reply (StatusReply r) = StatusAnswer"
| "kind_of_reply (DoneReply r) = DoneAnswer"
| "kind_of_reply (AuthenticatedReply r) = AuthenticatedAnswer"
| "kind_of_reply (LocationListReply r) = LocationsAnswer"
| "kind_of_reply (NotificationsReply r) = NotificationsAnswer"
| "kind_of_reply (VersionReply r) = VersionAnswer"

fun kind_of_task :: "daemon_task \<Rightarrow> answer_kind option" where
  \<comment> \<open>\<open>None\<close>: the task holds no sender\<close>
  "kind_of_task (TaskAddRecent l) = None"
| "kind_of_task (TaskEndSession i r) = None"
| "kind_of_task (TaskClientConnected i) = None"
| "kind_of_task TaskIsAuthenticated = Some AuthenticatedAnswer"
| "kind_of_task (TaskSignIn c) = Some DoneAnswer"
| "kind_of_task TaskSignOut = Some DoneAnswer"
| "kind_of_task TaskListLocations = Some LocationsAnswer"
| "kind_of_task TaskRecentLocations = Some LocationsAnswer"
| "kind_of_task TaskLatestAppVersion = Some VersionAnswer"

fun kind_of_command :: "daemon_command \<Rightarrow> answer_kind" where
  \<comment> \<open>the type of the sender each command carries\<close>
  "kind_of_command CmdIsAuthenticated = AuthenticatedAnswer"
| "kind_of_command (CmdAccountSignIn c) = DoneAnswer"
| "kind_of_command CmdAccountSignOut = DoneAnswer"
| "kind_of_command CmdListLocations = LocationsAnswer"
| "kind_of_command CmdRecentLocations = LocationsAnswer"
| "kind_of_command (CmdConnect l) = StatusAnswer"
| "kind_of_command CmdDisconnect = StatusAnswer"
| "kind_of_command CmdGetVpnStatus = StatusAnswer"
| "kind_of_command CmdGetNotifications = NotificationsAnswer"
| "kind_of_command (CmdAckNotification i) = DoneAnswer"
| "kind_of_command CmdLatestAppVersion = VersionAnswer"

definition given :: "daemon \<Rightarrow> answer_kind multiset" where
  \<comment> \<open>what is sent or promised so far\<close>
  "given s = mset (map kind_of_reply (dm_replies s)) + mset (List.map_filter kind_of_task (dm_tasks s))"

fun due :: "daemon_event \<Rightarrow> answer_kind multiset" where
  "due (EvCommand c) = {#kind_of_command c#}"
| "due e = {#}"

lemma map_filter_snoc: "List.map_filter f (xs @ [x]) = List.map_filter f xs @ (case f x of None \<Rightarrow> [] | Some y \<Rightarrow> [y])"
  by (simp add: List.map_filter_def split: option.split)

lemma given_simps [simp]:
  "given (s\<lparr>dm_state := a\<rparr>) = given s"
  "given (s\<lparr>dm_db := d\<rparr>) = given s"
  "given (s\<lparr>dm_broadcasts := bs\<rparr>) = given s"
  "given (s\<lparr>dm_tunnel_commands := cs\<rparr>) = given s"
  "given (s\<lparr>dm_replies := dm_replies s @ [r]\<rparr>) = add_mset (kind_of_reply r) (given s)"
  "given (s\<lparr>dm_state := a, dm_replies := dm_replies s @ [r]\<rparr>) = add_mset (kind_of_reply r) (given s)"
  "given (s\<lparr>dm_tasks := dm_tasks s @ [t]\<rparr>) =
     (case kind_of_task t of None \<Rightarrow> given s | Some k \<Rightarrow> add_mset k (given s))"
  by (simp_all add: given_def map_filter_snoc split: option.split)

definition owing :: "answer_kind multiset \<Rightarrow> daemon \<Rightarrow> bool" where
  "owing M s \<longleftrightarrow> given s = M"

lemma owing_effects [keeps_intros]:
  "kind_of_task t = None \<Longrightarrow> keeps (owing M) (spawn t)"
  "keeps (owing M) (to_state f)"
  "keeps (owing M) (broadcast_dm b)"
  "keeps (owing M) (send_tunnel_command c)"
  "keeps (owing M) (in_dm_db p)"
  "keeps (owing M) (on_db q)"
  by (auto simp: keeps_def owing_def prog_simps on_db_def send_tunnel_command_def split: prod.split)

lemma owing_helpers [keeps_intros]:
  "keeps (owing M) (add_notification_dm n)"
  "keeps (owing M) (set_vpn_status_dm v)"
  "keeps (owing M) (update_tunnel_on_new_status v)"
  "keeps (owing M) tunnel_command_on_disconnect"
  "keeps (owing M) (end_session_dm L reason)"
  "keeps (owing M) (client_connected_dm info)"
  unfolding add_notification_dm_def set_vpn_status_dm_def update_tunnel_on_new_status_def
    tunnel_command_on_disconnect_def end_session_dm_def client_connected_dm_def
  by (auto intro!: keeps_intros split: vpn_status.split)

lemma owing_inner [keeps_intros]:
  "keeps (owing M) (on_connect_inner L w l)"
  "keeps (owing M) (on_disconnect_inner L reason)"
proof -
  have "keeps (owing M) (\<lambda>s. let (n, st) = g (dm_state s) in (Ok n, s\<lparr>dm_state := st\<rparr>))" for g
    by (auto simp: keeps_def owing_def split: prod.split)
  then show "keeps (owing M) (on_connect_inner L w l)" "keeps (owing M) (on_disconnect_inner L reason)"
    unfolding on_connect_inner_def connect_accepted_def connect_rejected_def on_disconnect_inner_def
    by (auto intro!: keeps_intros)
qed

lemma owing_status: "keeps (owing M) (handle_vpn_session_status L w st)"
  unfolding handle_vpn_session_status_def by (auto intro!: keeps_intros)

lemma owing_transition: "keeps (owing M) (handle_tunnel_state_transition L w tr)"
proof -
  have "keeps (owing M) (\<lambda>s. expect m (in_dm_db (tunnel_state_transition L now tr (f s))) s)" for m now f
    using keeps_expect [OF owing_effects(5)] unfolding keeps_def by blast
  then show ?thesis unfolding handle_tunnel_state_transition_def by (auto intro!: keeps_intros)
qed

lemma respond_given:
  assumes "keeps (owing (given s)) p" and "\<And>r. kind_of_reply (mk r) = k"
    and "\<not> is_panic (fst (respond_dm mk p s))"
  shows "given (snd (respond_dm mk p s)) = add_mset k (given s)"
proof -
  obtain r s1 where run: "p s = (r, s1)" by fastforce
  have "given s1 = given s" using keepsD [OF assms(1) _ run] by (simp add: owing_def)
  with run assms(2,3) show ?thesis by (cases r) (simp_all add: respond_dm_def prog_simps)
qed

lemma unless_given:
  "kind_of_task t = Some DoneAnswer \<Longrightarrow> given (snd (unless_in_session v t s)) = add_mset DoneAnswer (given s)"
  by (simp add: unless_in_session_def prog_simps split: option.split)

lemma connect_given:
  assumes "\<not> is_panic (fst (on_connect L w l s))"
  shows "given (snd (on_connect L w l s)) = add_mset StatusAnswer (given s)"
  using assms respond_given [of "s\<lparr>dm_tasks := dm_tasks s @ [TaskAddRecent l]\<rparr>" "on_connect_inner L w l"
      StatusReply StatusAnswer]
  by (simp add: on_connect_def prog_simps owing_inner)

lemma command_given:
  assumes "\<not> is_panic (fst (handle_command L w c s))"
  shows "given (snd (handle_command L w c s)) = add_mset (kind_of_command c) (given s)"
  using assms
  by (cases c) (simp_all add: on_is_authenticated_def on_account_sign_in_def on_account_sign_out_def
      unless_given on_list_locations_dm_def on_recent_locations_def connect_given on_disconnect_def
      respond_given owing_inner on_get_vpn_status_def on_get_notifications_def on_ack_notification_def
      on_latest_app_version_def prog_simps)

lemma event_given:
  assumes "\<not> is_panic (fst (handle_event L (w, e) s))"
  shows "given (snd (handle_event L (w, e) s)) = due e + given s"
proof (cases e)
  case (EvCommand c)
  with assms command_given show ?thesis by simp
next
  case (EvVpnSessionStatus st)
  then show ?thesis using owing_status [of "given s" L w st] by (simp add: keeps_def owing_def)
next
  case (EvTunnelStateTransition tr)
  then show ?thesis using owing_transition [of "given s" L w tr] by (simp add: keeps_def owing_def)
qed simp

end
