(* ===== verification/Wire.thy ===== *)
theory Wire
  imports Types
begin

text \<open>
  The conversions between the program's types and the protocol buffers: modvpn-controller
  (the daemon and its clients) and modvpn-server (the daemon and the server). A message field
  of proto3 is an \<open>option\<close>; decoding unwraps it and parses ids and addresses, so every
  \<open>unwrap\<close> of the code is a \<open>Panic\<close> branch here.
\<close>

section \<open>Messages of the controller\<close>

record proto_location =
  pl_code :: string
  pl_country :: string
  pl_country_code :: string
  pl_city :: string
  pl_city_code :: string
  pl_state :: "string option"
  pl_state_code :: "string option"
  pl_estimate :: "32 word option"

record timestamp =
  ts_seconds :: int
  ts_nanos :: i32

record proto_notification =
  pn_id :: string
  pn_notification_type :: i32
  pn_message :: string
  pn_timestamp :: "timestamp option"

datatype proto_vpn_status =
    PAccepted "proto_location option"
  | PConnecting "proto_location option"
  | PServerCreated "proto_location option"
  | PServerRunning "proto_location option"
  | PServerReady "proto_location option"
  | PConnected "proto_location option" "timestamp option"
  | PDisconnecting "proto_location option"
  | PDisconnected

datatype proto_daemon_event =
    EventVpnStatus "proto_vpn_status option"
  | EventNotification proto_notification

record sign_in_request =
  sir_email :: string
  sir_password :: string

definition location_to_proto :: "location \<Rightarrow> proto_location" where
  "location_to_proto v = \<lparr>
     pl_code = loc_code v, pl_country = loc_country v, pl_country_code = loc_country_code v,
     pl_city = loc_city v, pl_city_code = loc_city_code v, pl_state = loc_state v,
     pl_state_code = loc_state_code v, pl_estimate = loc_estimate v \<rparr>"

definition location_from_proto :: "proto_location \<Rightarrow> location" where
  "location_from_proto v = \<lparr>
     loc_code = pl_code v, loc_country = pl_country v, loc_country_code = pl_country_code v,
     loc_city = pl_city v, loc_city_code = pl_city_code v, loc_state = pl_state v,
     loc_state_code = pl_state_code v, loc_estimate = pl_estimate v \<rparr>"

definition locations_to_proto :: "location list \<Rightarrow> proto_location list" where
  "locations_to_proto v = map location_to_proto v"

definition locations_from_proto :: "proto_location list \<Rightarrow> location list" where
  "locations_from_proto v = map location_from_proto v"

definition user_credentials_of_sign_in :: "sign_in_request \<Rightarrow> user_credentials" where
  "user_credentials_of_sign_in v = \<lparr>uc_email = sir_email v, uc_password = sir_password v\<rparr>"

definition timestamp_to_datetime_utc :: "lib \<Rightarrow> timestamp option \<Rightarrow> (datetime, string) res" where
  "timestamp_to_datetime_utc L timestamp =
     res_bind (ok_or ''no timestamp'' timestamp) (\<lambda>ts.
       case dt_timestamp_opt L (ts_seconds ts) (ts_nanos ts) of
         Single dtu \<Rightarrow> Ok dtu
       | NoTime \<Rightarrow> Err ''invalid utc time none''
       | Ambiguous a b \<Rightarrow> Ok a)"

definition datetime_utc_to_timestamp :: "lib \<Rightarrow> datetime \<Rightarrow> timestamp" where
  \<comment> \<open>\<open>max(nanos as i32, 0)\<close>: the comparison is on signed integers\<close>
  "datetime_utc_to_timestamp L t =
     (let nanos = dt_subsec_nanos L t
      in \<lparr>ts_seconds = dt_timestamp L t, ts_nanos = (if sint nanos < 0 then 0 else nanos)\<rparr>)"

definition notification_to_proto :: "lib \<Rightarrow> notification \<Rightarrow> proto_notification" where
  "notification_to_proto L v = \<lparr>
     pn_id = ntf_id v, pn_notification_type = i32_of_notification_type (ntf_type v),
     pn_message = ntf_message v,
     pn_timestamp = Some \<lparr>ts_seconds = dt_timestamp L (ntf_timestamp v),
                          ts_nanos = dt_subsec_nanos L (ntf_timestamp v)\<rparr> \<rparr>"

definition notification_from_proto :: "lib \<Rightarrow> proto_notification \<Rightarrow> (notification, string) res" where
  "notification_from_proto L v =
     res_bind (notification_type_of_i32 (pn_notification_type v)) (\<lambda>t.
     res_bind (timestamp_to_datetime_utc L (pn_timestamp v)) (\<lambda>ts.
       Ok \<lparr>ntf_id = pn_id v, ntf_message = pn_message v, ntf_type = t, ntf_timestamp = ts\<rparr>))"

definition notifications_to_proto :: "lib \<Rightarrow> notification list \<Rightarrow> proto_notification list" where
  "notifications_to_proto L v = map (notification_to_proto L) v"

definition notifications_from_proto ::
    "lib \<Rightarrow> proto_notification list \<Rightarrow> (notification list, string) res" where
  "notifications_from_proto L v = collect (notification_from_proto L) v"

fun vpn_status_to_proto :: "lib \<Rightarrow> vpn_status \<Rightarrow> proto_vpn_status option" where
  "vpn_status_to_proto L (VpnAccepted l) = Some (PAccepted (Some (location_to_proto l)))"
| "vpn_status_to_proto L (VpnConnecting l) = Some (PConnecting (Some (location_to_proto l)))"
| "vpn_status_to_proto L (VpnServerRunning l) = Some (PServerRunning (Some (location_to_proto l)))"
| "vpn_status_to_proto L (VpnServerReady l) = Some (PServerReady (Some (location_to_proto l)))"
| "vpn_status_to_proto L (VpnConnected l t) =
     Some (PConnected (Some (location_to_proto l)) (Some (datetime_utc_to_timestamp L t)))"
| "vpn_status_to_proto L (VpnDisconnecting l) = Some (PDisconnecting (Some (location_to_proto l)))"
| "vpn_status_to_proto L VpnDisconnected = Some PDisconnected"
| "vpn_status_to_proto L (VpnServerCreated l) = Some (PServerCreated (Some (location_to_proto l)))"

text \<open>\<open>timestamp\_to\_datetime\_utc(..).unwrap()\<close>: the error becomes a panic.\<close>

fun unwrap_res :: "('a, 'e) res \<Rightarrow> ('a, 'f) res" where
  "unwrap_res (Ok x) = Ok x"
| "unwrap_res (Err e) = Panic ''called `Result::unwrap()` on an `Err` value''"
| "unwrap_res (Panic m) = Panic m"

definition with_location ::
    "proto_location option \<Rightarrow> (location \<Rightarrow> vpn_status) \<Rightarrow> (vpn_status, unit) res" where
  "with_location l f = res_bind (unwrap l) (\<lambda>p. Ok (f (location_from_proto p)))"

fun vpn_status_of_proto :: "lib \<Rightarrow> proto_vpn_status \<Rightarrow> (vpn_status, unit) res" where
  "vpn_status_of_proto L (PAccepted l) = with_location l VpnAccepted"
| "vpn_status_of_proto L (PConnecting l) = with_location l VpnConnecting"
| "vpn_status_of_proto L (PServerRunning l) = with_location l VpnServerRunning"
| "vpn_status_of_proto L (PServerReady l) = with_location l VpnServerReady"
| "vpn_status_of_proto L (PConnected l t) =
     res_bind (unwrap l) (\<lambda>p.
     res_bind (unwrap_res (timestamp_to_datetime_utc L t)) (\<lambda>d.
       Ok (VpnConnected (location_from_proto p) d)))"
| "vpn_status_of_proto L (PDisconnecting l) = with_location l VpnDisconnecting"
| "vpn_status_of_proto L PDisconnected = Ok VpnDisconnected"
| "vpn_status_of_proto L (PServerCreated l) = with_location l VpnServerCreated"

definition vpn_status_from_proto :: "lib \<Rightarrow> proto_vpn_status option \<Rightarrow> (vpn_status, unit) res" where
  "vpn_status_from_proto L v = res_bind (unwrap v) (vpn_status_of_proto L)"

section \<open>Round trips of the controller\<close>

lemma location_proto_roundtrip [simp]: "location_from_proto (location_to_proto l) = l"
  by (simp add: location_to_proto_def location_from_proto_def)

lemma proto_location_roundtrip [simp]: "location_to_proto (location_from_proto p) = p"
  by (simp add: location_to_proto_def location_from_proto_def)

interpretation ploc: codec location_to_proto "\<lambda>p. Ok (location_from_proto p)"
  by unfold_locales simp

lemma locations_proto_roundtrip: "locations_from_proto (locations_to_proto ls) = ls"
  by (simp add: locations_from_proto_def locations_to_proto_def comp_def)

lemma unat_below_sign: "unat (w :: i32) < 2 ^ 31 \<Longrightarrow> \<not> sint w < 0"
proof -
  assume a: "unat w < 2 ^ 31"
  have "bit (unat w) 31 = odd (unat w div 2 ^ 31)" by (simp add: bit_iff_odd)
  with a have "\<not> bit (unat w) 31" by simp
  then have "\<not> bit w 31" by (simp add: bit_unsigned_iff)
  then show ?thesis using bit_last_iff [of w] by simp
qed

lemma nanos_not_negative: "chrono_ok L \<Longrightarrow> \<not> sint (dt_subsec_nanos L t) < 0"
proof -
  assume "chrono_ok L"
  then have "unat (dt_subsec_nanos L t) < 2000000000" unfolding chrono_ok_def by blast
  then have "unat (dt_subsec_nanos L t) < 2 ^ 31" by (rule order.strict_trans2) simp
  then show ?thesis by (rule unat_below_sign)
qed

lemma timestamp_roundtrip:
  "chrono_ok L \<Longrightarrow> timestamp_to_datetime_utc L (Some (datetime_utc_to_timestamp L t)) = Ok t"
  by (simp add: timestamp_to_datetime_utc_def datetime_utc_to_timestamp_def Let_def
      nanos_not_negative)

lemma notification_proto_roundtrip:
  "chrono_ok L \<Longrightarrow> notification_from_proto L (notification_to_proto L n) = Ok n"
  by (simp add: notification_from_proto_def notification_to_proto_def ntype.dec_enc
      timestamp_to_datetime_utc_def)

lemma notifications_proto_roundtrip:
  "chrono_ok L \<Longrightarrow> notifications_from_proto L (notifications_to_proto L ns) = Ok ns"
  unfolding notifications_from_proto_def notifications_to_proto_def
  by (rule collect_Ok_map) (rule notification_proto_roundtrip)

lemma vpn_status_proto_roundtrip:
  "chrono_ok L \<Longrightarrow> vpn_status_from_proto L (vpn_status_to_proto L st) = Ok st"
  by (cases st) (simp_all add: vpn_status_from_proto_def with_location_def timestamp_roundtrip)

section \<open>Messages of the server\<close>

text \<open>
  Four messages of the server carry the two ids and nothing else; the schema gives them the
  same fields, so they share one record here.
\<close>

record proto_ids =
  pi_request_id :: string
  pi_vpn_session_uuid :: string

record proto_server_ready = proto_ids +
  psr_public_key :: string
  psr_ipv4_endpoint :: string
  psr_private_ipv4 :: string

record proto_client_connected =
  pcc_request_id :: string
  pcc_device_unique_id :: string
  pcc_vpn_session_uuid :: string

record proto_ended =
  pen_request_id :: string
  pen_vpn_session_uuid :: string
  pen_reason :: string

datatype proto_session_state =
    StateAccepted proto_ids
  | StateFailed proto_ids
  | StateServerCreated proto_ids
  | StateServerRunning proto_ids
  | StateServerReady proto_server_ready
  | StateClientConnected proto_client_connected
  | StateEnded proto_ended

record proto_new_session =
  pns_request_id :: string
  pns_device_unique_id :: string
  pns_location_code :: string

record proto_end_session =
  pes_request_id :: string
  pes_device_unique_id :: string
  pes_vpn_session_uuid :: string
  pes_reason :: string

record proto_device_info =
  pdi_name :: string
  pdi_version :: string
  pdi_arch :: string
  pdi_public_key :: string
  pdi_unique_id :: string
  pdi_device_type :: i32

record proto_add_device_request =
  padr_user_creds :: "(string \<times> string) option"
  padr_device_info :: "proto_device_info option"

record proto_add_device_response =
  pads_token :: string
  pads_device_addresses :: "32 word option"

definition accepted_from_proto :: "lib \<Rightarrow> proto_ids \<Rightarrow> (accepted, 'e) res" where
  "accepted_from_proto L v =
     res_bind (parse_uuid L (pi_request_id v)) (\<lambda>r.
     res_bind (parse_uuid L (pi_vpn_session_uuid v)) (\<lambda>s.
       Ok \<lparr>acc_request_id = r, acc_vpn_session_uuid = s\<rparr>))"

definition ended_from_proto :: "lib \<Rightarrow> proto_ended \<Rightarrow> (ended, 'e) res" where
  "ended_from_proto L v =
     res_bind (parse_uuid L (pen_request_id v)) (\<lambda>r.
     res_bind (parse_uuid L (pen_vpn_session_uuid v)) (\<lambda>s.
       Ok \<lparr>en_request_id = r, en_vpn_session_uuid = s, en_reason = pen_reason v\<rparr>))"

definition server_running_from_proto :: "lib \<Rightarrow> proto_ids \<Rightarrow> (server_running, 'e) res" where
  "server_running_from_proto L v =
     res_bind (parse_uuid L (pi_request_id v)) (\<lambda>r.
     res_bind (parse_uuid L (pi_vpn_session_uuid v)) (\<lambda>s.
       Ok \<lparr>srun_request_id = r, srun_vpn_session_uuid = s\<rparr>))"

definition server_ready_from_proto :: "lib \<Rightarrow> proto_server_ready \<Rightarrow> (server_ready, 'e) res" where
  "server_ready_from_proto L v =
     res_bind (parse_uuid L (pi_request_id v)) (\<lambda>r.
     res_bind (parse_uuid L (pi_vpn_session_uuid v)) (\<lambda>s.
     res_bind (parsed (sock_from_str L (psr_ipv4_endpoint v))) (\<lambda>e.
     res_bind (parsed (ipv4_from_str (psr_private_ipv4 v))) (\<lambda>a.
       Ok \<lparr>sr_request_id = r, sr_vpn_session_uuid = s, sr_public_key = psr_public_key v,
           sr_ipv4_endpoint = e, sr_private_ipv4 = a\<rparr>))))"

definition server_created_from_proto :: "lib \<Rightarrow> proto_ids \<Rightarrow> (server_created, 'e) res" where
  "server_created_from_proto L v =
     res_bind (parse_uuid L (pi_request_id v)) (\<lambda>r.
     res_bind (parse_uuid L (pi_vpn_session_uuid v)) (\<lambda>s.
       Ok \<lparr>sc_request_id = r, sc_vpn_session_uuid = s\<rparr>))"

definition failed_from_proto :: "lib \<Rightarrow> proto_ids \<Rightarrow> (failed, 'e) res" where
  "failed_from_proto L v =
     res_bind (parse_uuid L (pi_request_id v)) (\<lambda>r.
     res_bind (parse_uuid L (pi_vpn_session_uuid v)) (\<lambda>s.
       Ok \<lparr>fl_request_id = r, fl_vpn_session_uuid = s\<rparr>))"

definition client_connected_from_proto ::
    "lib \<Rightarrow> proto_client_connected \<Rightarrow> (client_connected, 'e) res" where
  "client_connected_from_proto L v =
     res_bind (parse_uuid L (pcc_request_id v)) (\<lambda>r.
     res_bind (parse_uuid L (pcc_device_unique_id v)) (\<lambda>d.
     res_bind (parse_uuid L (pcc_vpn_session_uuid v)) (\<lambda>s.
       Ok \<lparr>cc_request_id = r, cc_device_unique_id = d, cc_vpn_session_uuid = s\<rparr>)))"

fun session_state_from_proto :: "lib \<Rightarrow> proto_session_state \<Rightarrow> (vpn_session_status, 'e) res" where
  "session_state_from_proto L (StateAccepted a) = map_ok SessAccepted (accepted_from_proto L a)"
| "session_state_from_proto L (StateFailed f) = map_ok SessFailed (failed_from_proto L f)"
| "session_state_from_proto L (StateServerCreated s) =
     map_ok SessServerCreated (server_created_from_proto L s)"
| "session_state_from_proto L (StateServerRunning s) =
     map_ok SessServerRunning (server_running_from_proto L s)"
| "session_state_from_proto L (StateServerReady s) =
     map_ok SessServerReady (server_ready_from_proto L s)"
| "session_state_from_proto L (StateClientConnected c) =
     map_ok SessClientConnected (client_connected_from_proto L c)"
| "session_state_from_proto L (StateEnded e) = map_ok SessEnded (ended_from_proto L e)"

definition vpn_session_status_from_proto ::
    "lib \<Rightarrow> proto_session_state option \<Rightarrow> (vpn_session_status, 'e) res" where
  "vpn_session_status_from_proto L v = res_bind (unwrap v) (session_state_from_proto L)"

definition new_session_to_proto :: "lib \<Rightarrow> new_session \<Rightarrow> proto_new_session" where
  "new_session_to_proto L v = \<lparr>
     pns_request_id = uuid_to_string L (ns_request_id v),
     pns_device_unique_id = uuid_to_string L (ns_device_unique_id v),
     pns_location_code = ns_location_code v \<rparr>"

definition end_session_to_proto :: "lib \<Rightarrow> end_session \<Rightarrow> proto_end_session" where
  "end_session_to_proto L v = \<lparr>
     pes_request_id = uuid_to_string L (es_request_id v),
     pes_device_unique_id = uuid_to_string L (es_device_unique_id v),
     pes_vpn_session_uuid = uuid_to_string L (es_vpn_session_uuid v),
     pes_reason = es_reason v \<rparr>"

definition client_connected_to_proto :: "lib \<Rightarrow> client_connected \<Rightarrow> proto_client_connected" where
  "client_connected_to_proto L v = \<lparr>
     pcc_request_id = uuid_to_string L (cc_request_id v),
     pcc_device_unique_id = uuid_to_string L (cc_device_unique_id v),
     pcc_vpn_session_uuid = uuid_to_string L (cc_vpn_session_uuid v) \<rparr>"

definition status_request_to_proto ::
    "lib \<Rightarrow> vpn_session_status_request \<Rightarrow> proto_client_connected" where
  \<comment> \<open>the schema gives this message the three fields of \<open>ClientConnected\<close>\<close>
  "status_request_to_proto L v = \<lparr>
     pcc_request_id = uuid_to_string L (req_request_id v),
     pcc_device_unique_id = uuid_to_string L (req_device_unique_id v),
     pcc_vpn_session_uuid = uuid_to_string L (req_vpn_session_uuid v) \<rparr>"

definition device_info_to_proto :: "lib \<Rightarrow> device_info \<Rightarrow> proto_device_info" where
  "device_info_to_proto L v = \<lparr>
     pdi_name = di_name v, pdi_version = di_version v, pdi_arch = di_arch v,
     pdi_public_key = di_public_key v, pdi_unique_id = uuid_to_string L (di_unique_id v),
     pdi_device_type = i32_of_device_type (di_device_type v) \<rparr>"

definition add_device_request_to_proto :: "lib \<Rightarrow> add_device_request \<Rightarrow> proto_add_device_request" where
  "add_device_request_to_proto L v = \<lparr>
     padr_user_creds = Some (uc_email (adr_user_creds v), uc_password (adr_user_creds v)),
     padr_device_info = Some (device_info_to_proto L (adr_device_info v)) \<rparr>"

definition add_device_response_from_proto ::
    "proto_add_device_response \<Rightarrow> (add_device_response, 'e) res" where
  "add_device_response_from_proto v =
     res_bind (unwrap (pads_device_addresses v)) (\<lambda>a.
       Ok \<lparr>ads_token = pads_token v, ads_device_addresses = \<lparr>da_ipv4_address = a\<rparr>\<rparr>)"

section \<open>When decoding a message of the server panics\<close>

definition ids_parse :: "lib \<Rightarrow> string list \<Rightarrow> bool" where
  "ids_parse L ss \<longleftrightarrow> (\<forall>s \<in> set ss. uuid_parse_str L s \<noteq> None)"

fun state_parses :: "lib \<Rightarrow> proto_session_state \<Rightarrow> bool" where
  "state_parses L (StateAccepted a) = ids_parse L [pi_request_id a, pi_vpn_session_uuid a]"
| "state_parses L (StateFailed a) = ids_parse L [pi_request_id a, pi_vpn_session_uuid a]"
| "state_parses L (StateServerCreated a) = ids_parse L [pi_request_id a, pi_vpn_session_uuid a]"
| "state_parses L (StateServerRunning a) = ids_parse L [pi_request_id a, pi_vpn_session_uuid a]"
| "state_parses L (StateServerReady s) =
     (ids_parse L [pi_request_id s, pi_vpn_session_uuid s]
      \<and> sock_from_str L (psr_ipv4_endpoint s) \<noteq> None \<and> ipv4_from_str (psr_private_ipv4 s) \<noteq> None)"
| "state_parses L (StateClientConnected c) =
     ids_parse L [pcc_request_id c, pcc_device_unique_id c, pcc_vpn_session_uuid c]"
| "state_parses L (StateEnded e) = ids_parse L [pen_request_id e, pen_vpn_session_uuid e]"

lemmas from_proto_defs =
  accepted_from_proto_def ended_from_proto_def server_running_from_proto_def
  server_ready_from_proto_def server_created_from_proto_def failed_from_proto_def
  client_connected_from_proto_def parse_uuid_def parsed_def ids_parse_def

lemma session_state_panics_iff:
  "is_panic (session_state_from_proto L p) \<longleftrightarrow> \<not> state_parses L p"
  by (cases p) (auto simp: from_proto_defs is_panic_res_bind split: option.splits)

lemma session_status_panics_iff:
  "is_panic (vpn_session_status_from_proto L v) \<longleftrightarrow> (case v of None \<Rightarrow> True | Some p \<Rightarrow> \<not> state_parses L p)"
  by (auto simp: vpn_session_status_from_proto_def is_panic_res_bind session_state_panics_iff
      split: option.splits)

lemma client_connected_roundtrip:
  "uuid_ok L \<Longrightarrow> client_connected_from_proto L (client_connected_to_proto L c) = Ok c"
  by (simp add: client_connected_to_proto_def from_proto_defs)

end
