(* ===== verification/Device_Service.thy ===== *)
theory Device_Service
  imports Device
begin

text \<open>
  modvpn-daemon/src/device/handler.rs: the task that signs the device in and out. Its state is
  the token in memory and the database; the replies it sends on the oneshot channels are kept
  in the order it sends them. What the server answers is the record \<open>device\_server\<close>: the outcome
  of connecting and, for each call, the answer as a function of the request (or of the
  authorization header it carries).
\<close>

section \<open>Messages and state\<close>

record device_server =
  srv_connect_no_auth :: "(unit, string) res"
  srv_add_device :: "add_device_request \<Rightarrow> (add_device_response, grpc_status) res"
  srv_connect :: "(unit, string) res"
  srv_sign_out :: "string option \<Rightarrow> (unit, grpc_status) res"
  srv_latest_app_version :: "string option \<Rightarrow> (string, grpc_status) res"

record device_world =
  dw_host :: host
  dw_draw :: draw
  dw_server :: device_server

datatype device_command =
    DevSignIn user_credentials
  | DevSignOut
  | DevBearerToken
  | DevIsAuthenticated
  | DevShutdown
  | DevLatestAppVersion

datatype device_reply =
    ReplySignIn "(unit, device_error) res"
  | ReplySignOut "(unit, device_error) res"
  | ReplyBearer "(string option, device_error) res"
  | ReplyAuthenticated "(bool, device_error) res"
  | ReplyVersion "(string, device_error) res"

record device_service =
  svc_token :: "string option"
  svc_db :: db
  svc_replies :: "device_reply list"

type_synonym 'a svc = "(device_service, 'a, device_error) prog"

abbreviation in_svc_db :: "(db, 'a, 'e) prog \<Rightarrow> (device_service, 'a, 'e) prog" where
  "in_svc_db p \<equiv> zoom svc_db (\<lambda>d s. s\<lparr>svc_db := d\<rparr>) p"

section \<open>The handlers\<close>

definition device_service_new :: "lib \<Rightarrow> db \<Rightarrow> (device_service, device_error) res \<times> db" where
  "device_service_new L d = (case get_token L d of
      (Ok t, d') \<Rightarrow> (Ok \<lparr>svc_token = t, svc_db = d', svc_replies = []\<rparr>, d')
    | (Err e, d') \<Rightarrow> (Err (DeviceDbErr e), d')
    | (Panic m, d') \<Rightarrow> (Panic m, d'))"

definition handle_latest_app_version_inner :: "lib \<Rightarrow> device_world \<Rightarrow> string svc" where
  "handle_latest_app_version_inner L w =
     and_then (give (map_err DeviceConnectionError (srv_connect (dw_server w)))) (\<lambda>_.
       with_err DeviceServerError
         (in_svc_db (authorized_call L (srv_latest_app_version (dw_server w)))))"

definition handle_sign_in_inner :: "lib \<Rightarrow> device_world \<Rightarrow> user_credentials \<Rightarrow> unit svc" where
  "handle_sign_in_inner L w creds =
     and_then (give (map_err DeviceConnectionError (srv_connect_no_auth (dw_server w)))) (\<lambda>_.
     and_then (with_err InitError (in_svc_db (device_init L (dw_host w) (dw_draw w)))) (\<lambda>_.
     and_then (with_err DeviceDbErr (in_svc_db (get_device L))) (\<lambda>v.
     and_then (give (unwrap v)) (\<lambda>dd.
     and_then (give (map_err DeviceServerError (srv_add_device (dw_server w)
         \<lparr>adr_user_creds = creds, adr_device_info = device_info_of_details L dd\<rparr>))) (\<lambda>resp.
     and_then (with_err DeviceDbErr (in_svc_db (save_token (ads_token resp)))) (\<lambda>_.
     and_then (with_err DeviceDbErr (in_svc_db (update_ipv4_address L (dd_unique_id dd)
         (da_ipv4_address (ads_device_addresses resp))))) (\<lambda>_.
       writes (\<lambda>s. s\<lparr>svc_token := Some (ads_token resp)\<rparr>))))))))"

definition handle_sign_out_inner :: "lib \<Rightarrow> device_world \<Rightarrow> unit svc" where
  "handle_sign_out_inner L w =
     and_then (give (map_err DeviceConnectionError (srv_connect (dw_server w)))) (\<lambda>_.
     attempt (in_svc_db (authorized_call L (srv_sign_out (dw_server w)))) (\<lambda>status.
     and_then (case status of
         Err st \<Rightarrow> if st_code st \<noteq> Unauthenticated then give (Err (DeviceServerError st)) else ret ()
       | _ \<Rightarrow> ret ()) (\<lambda>_.
     and_then (with_err DeviceDbErr (in_svc_db (reinitialize L (dw_host w) (dw_draw w)))) (\<lambda>_.
     and_then (with_err DeviceDbErr (in_svc_db remove_all)) (\<lambda>_.
       writes (\<lambda>s. s\<lparr>svc_token := None\<rparr>))))))"

definition respond :: "(('a, device_error) res \<Rightarrow> device_reply) \<Rightarrow> 'a svc \<Rightarrow> unit svc" where
  \<comment> \<open>\<open>oneshot\_send\<close> of the outcome; a panic ends the task before it\<close>
  "respond mk p = attempt p (\<lambda>r. writes (\<lambda>s. s\<lparr>svc_replies := svc_replies s @ [mk r]\<rparr>))"

definition handle_sign_in :: "lib \<Rightarrow> device_world \<Rightarrow> user_credentials \<Rightarrow> unit svc" where
  "handle_sign_in L w creds = respond ReplySignIn (handle_sign_in_inner L w creds)"

definition handle_sign_out :: "lib \<Rightarrow> device_world \<Rightarrow> unit svc" where
  "handle_sign_out L w = respond ReplySignOut (handle_sign_out_inner L w)"

definition handle_bearer_token :: "unit svc" where
  "handle_bearer_token = respond ReplyBearer (reads svc_token)"

definition handle_is_authenticated :: "unit svc" where
  "handle_is_authenticated = respond ReplyAuthenticated (reads (\<lambda>s. svc_token s \<noteq> None))"

definition handle_latest_app_version :: "lib \<Rightarrow> device_world \<Rightarrow> unit svc" where
  "handle_latest_app_version L w = respond ReplyVersion (handle_latest_app_version_inner L w)"

lemmas device_handler_defs [simp] = handle_sign_in_def handle_sign_out_def handle_bearer_token_def
  handle_is_authenticated_def handle_latest_app_version_def

fun handle_device_message :: "lib \<Rightarrow> device_world \<times> device_command \<Rightarrow> unit svc" where
  "handle_device_message L (w, DevSignIn creds) = handle_sign_in L w creds"
| "handle_device_message L (w, DevSignOut) = handle_sign_out L w"
| "handle_device_message L (w, DevBearerToken) = handle_bearer_token"
| "handle_device_message L (w, DevIsAuthenticated) = handle_is_authenticated"
| "handle_device_message L (w, DevShutdown) = ret ()"
| "handle_device_message L (w, DevLatestAppVersion) = handle_latest_app_version L w"

fun device_run :: "lib \<Rightarrow> (device_world \<times> device_command) list \<Rightarrow> bool svc" where
  \<comment> \<open>the loop; its result says whether a shutdown is acknowledged\<close>
  "device_run L [] = ret False"
| "device_run L (m # ms) =
     (if snd m = DevShutdown then ret True
      else attempt (handle_device_message L m) (\<lambda>_. device_run L ms))"

section \<open>The handle of the clients\<close>

definition device_send_command :: "('a, device_error) res option \<Rightarrow> ('a, device_error) res" where
  \<comment> \<open>\<open>None\<close>: the task has ended, before the message or before the reply\<close>
  "device_send_command reply = (case reply of None \<Rightarrow> Err DeviceServiceUnavailable | Some r \<Rightarrow> r)"

definition is_authenticated :: "(bool, device_error) res option \<Rightarrow> bool" where
  "is_authenticated reply = (case device_send_command reply of Ok b \<Rightarrow> b | _ \<Rightarrow> False)"

section \<open>The invariant of the service\<close>

text \<open>
  The device table is in order and every stored token is a header value. The second part is
  what keeps \<open>AuthLayer::call\<close> from panicking; it rests on the tokens the server issues.
\<close>

definition token_safe :: "lib \<Rightarrow> string \<Rightarrow> bool" where
  "token_safe L t \<longleftrightarrow> header_value L (''Bearer '' @ t) \<noteq> None"

definition tokens_safe :: "lib \<Rightarrow> db \<Rightarrow> bool" where
  "tokens_safe L d \<longleftrightarrow> (\<forall>r \<in> set (tokens d). token_safe L (tok_token r))"

definition svc_ok :: "lib \<Rightarrow> device_service \<Rightarrow> bool" where
  "svc_ok L s \<longleftrightarrow> device_ok L (svc_db s) \<and> tokens_safe L (svc_db s)"

definition stored_ok :: "lib \<Rightarrow> db \<Rightarrow> bool" where
  "stored_ok L d \<longleftrightarrow> device_ok L d \<and> tokens_safe L d"

lemma svc_ok_stored: "svc_ok L s = stored_ok L (svc_db s)"
  by (simp add: svc_ok_def stored_ok_def)

definition server_calm :: "lib \<Rightarrow> device_server \<Rightarrow> bool" where
  \<comment> \<open>the server's answers decode, and its tokens are header values\<close>
  "server_calm L v \<longleftrightarrow> \<not> is_panic (srv_connect_no_auth v) \<and> \<not> is_panic (srv_connect v)
     \<and> (\<forall>r. \<not> is_panic (srv_add_device v r)
          \<and> (\<forall>a. srv_add_device v r = Ok a \<longrightarrow> token_safe L (ads_token a)))
     \<and> (\<forall>h. \<not> is_panic (srv_sign_out v h) \<and> \<not> is_panic (srv_latest_app_version v h))"

lemma device_statements_keep_tokens [keeps_intros]:
  "keeps (tokens_safe L) (sql_one M device_table P)"
  "keeps (tokens_safe L) (sql_insert device_table key r)"
  "keeps (tokens_safe L) (sql_update device_table P f)"
  "keeps (tokens_safe L) (sql_delete_many device_table P)"
  "keeps (tokens_safe L) (sql_one M token_table Q)"
  unfolding sql_one_def sql_insert_def sql_update_def sql_delete_many_def
  by (rule keeps_statement; simp add: keeps_def tokens_safe_def)+

lemma device_ops_keep_tokens [keeps_intros]:
  "keeps (tokens_safe L) (device_init M h w)"
  "keeps (tokens_safe L) (reinitialize M h w)"
  "keeps (tokens_safe L) (get_device M)"
  "keeps (tokens_safe L) (update_ipv4_address M u a)"
  unfolding device_init_def reinitialize_def get_device_def update_ipv4_address_def Let_def
  by (auto intro!: keeps_intros split: option.split)

lemma token_statements_keep_tokens [keeps_intros]:
  "token_safe L (tok_token r) \<Longrightarrow> keeps (tokens_safe L) (sql_insert token_table key r)"
  "keeps (tokens_safe L) (sql_delete_many token_table P)"
  "keeps (tokens_safe L) fresh_id"
  unfolding sql_insert_def sql_delete_many_def
  by (rule keeps_statement; simp add: keeps_def tokens_safe_def)+
    (simp add: keeps_def tokens_safe_def fresh_id_run)

lemma token_ops_keep_tokens [keeps_intros]:
  "token_safe L t \<Longrightarrow> keeps (tokens_safe L) (save_token t)"
  "keeps (tokens_safe L) remove_all"
  "keeps (tokens_safe L) (get_token M)"
  "keeps (tokens_safe L) (bearer_token M)"
  "keeps (tokens_safe L) (authorized_call M f)"
  unfolding save_token_def remove_all_def get_token_def bearer_token_def authorized_call_def
    authorization_def
  by (auto intro!: keeps_intros split: option.split)

lemma token_statements_keep_device [keeps_intros]:
  "keeps (device_ok L) (sql_insert token_table key r)"
  "keeps (device_ok L) (sql_delete_many token_table P)"
  "keeps (device_ok L) (sql_one M token_table Q)"
  "keeps (device_ok L) fresh_id"
  unfolding sql_insert_def sql_delete_many_def sql_one_def
  by (rule keeps_statement; simp add: keeps_def device_ok_def)+
    (simp add: keeps_def device_ok_def fresh_id_run)

lemma token_ops_keep_device [keeps_intros]:
  "keeps (device_ok L) (save_token t)"
  "keeps (device_ok L) remove_all"
  "keeps (device_ok L) (authorized_call M f)"
  unfolding save_token_def remove_all_def get_token_def bearer_token_def authorized_call_def
    authorization_def
  by (auto intro!: keeps_intros split: option.split)

lemma keeps_in_db [keeps_intros]:
  "keeps (device_ok L) p \<Longrightarrow> keeps (tokens_safe L) p \<Longrightarrow> keeps (svc_ok L) (in_svc_db p)"
  by (rule keeps_zoom [where J = "stored_ok L"]) (simp_all add: stored_ok_def svc_ok_def keeps_def)

lemma authorized_call_calm:
  assumes "tokens_safe L d" and "\<And>h. \<not> is_panic (server h)"
  shows "no_panic (authorized_call L server d)"
proof -
  have "header_value L (''Bearer '' @ t) \<noteq> None" if "bearer_token L d = (Ok (Some t) :: (string option, grpc_status) res, d')" for t d'
    using that assms(1) token.one_Some [of L any_row d]
    by (fastforce simp: bearer_token_def get_token_def and_then_def attempt_def tokens_safe_def
        token_safe_def split: prod.splits res.splits)
  then show ?thesis using assms(2)
    unfolding authorized_call_def authorization_def
    by (auto intro!: calm_intros simp: parsed_def split: option.split)
qed

lemma save_token_good: "keeps (stored_ok L) (save_token t)" if "token_safe L t"
  unfolding stored_ok_def using that by (intro keeps_conj keeps_intros)

text \<open>Whatever fails, every message leaves the invariant of the service true.\<close>

lemma keeps_respond [keeps_intros]: "keeps (svc_ok L) p \<Longrightarrow> keeps (svc_ok L) (respond mk p)"
  unfolding respond_def by (auto intro!: keeps_intros simp: svc_ok_def)

lemma keeps_reply [keeps_intros]:
  "(\<And>x. r = Ok x \<Longrightarrow> keeps I (f x)) \<Longrightarrow> keeps I (and_then (give r) f)"
  by (cases r) (auto simp: keeps_def and_then_def)

lemma sign_in_keeps:
  assumes "lib_ok L" and "server_calm L (dw_server w)"
  shows "keeps (svc_ok L) (handle_sign_in_inner L w creds)"
  using assms unfolding handle_sign_in_inner_def
  by (auto intro!: keeps_reply keeps_and_then keeps_with_err keeps_in_db keeps_intros
      simp: server_calm_def svc_ok_def)

lemma sign_out_keeps:
  "lib_ok L \<Longrightarrow> keeps (svc_ok L) (handle_sign_out_inner L w)"
  unfolding handle_sign_out_inner_def
  by (auto intro!: keeps_intros simp: svc_ok_def split: res.split)

lemma latest_version_keeps: "keeps (svc_ok L) (handle_latest_app_version_inner L w)"
  unfolding handle_latest_app_version_inner_def by (auto intro!: keeps_intros)

lemma device_message_keeps:
  "lib_ok L \<Longrightarrow> server_calm L (dw_server (fst m)) \<Longrightarrow> keeps (svc_ok L) (handle_device_message L m)"
  by (cases "(L, m)" rule: handle_device_message.cases)
    (simp_all add: keeps_respond sign_in_keeps sign_out_keeps latest_version_keeps keeps_reads keeps_ret)

text \<open>And no message makes the task panic.\<close>

lemma init_leaves_row:
  assumes "device_init L h w d = (Ok dd, d')"
  shows "devices d' \<noteq> []"
  using device_one_cases [of L any_row d]
proof cases
  case (fault e fs)
  with assms show ?thesis by (simp add: device_init_def prog_simps)
next
  case one: (run fs)
  show ?thesis
  proof (cases "devices d = []")
    case False
    with one assms show ?thesis
      by (cases "pick_row L (devices d)") (auto simp: device_init_def prog_simps)
  next
    case True
    with one assms obtain dd' where dd': "create_new h w = Ok dd'"
      by (cases "create_new h w") (auto simp: device_init_def prog_simps)
    from device_insert_cases [of "device_row_of_details L dd'" "d\<lparr>faults := fs\<rparr>"] show ?thesis
      by cases (use one assms True dd' in \<open>auto simp: device_init_def prog_simps\<close>)
  qed
qed

lemma map_ok_Some_None [simp]: "map_ok Some r \<noteq> Ok None"
  by (cases r) auto

lemma get_device_None:
  assumes "get_device L d = (Ok None, d')"
  shows "devices d = []"
  using device_one_cases [of L any_row d]
  by cases (use assms in \<open>auto simp: get_device_def prog_simps split: option.splits\<close>)

lemma sign_in_calm:
  assumes "server_calm L (dw_server w)" and "svc_ok L s"
  shows "no_panic (handle_sign_in_inner L w creds s)"
proof -
  have "v \<noteq> None" if "in_svc_db (device_init L h x) s1 = (Ok dd, s2)"
    and "in_svc_db (get_device L) s2 = (Ok v, s3)" for h x s1 dd s2 v s3
    using that init_leaves_row [of L h x "svc_db s1"] get_device_None [of L "svc_db s2"]
    by (cases v) (auto simp: zoom_def split: prod.splits)
  then show ?thesis
    using assms unfolding handle_sign_in_inner_def
    by (auto intro!: calm_intros simp: server_calm_def)
qed

lemma sign_out_calm:
  assumes "server_calm L (dw_server w)" and "svc_ok L s"
  shows "no_panic (handle_sign_out_inner L w s)"
  using assms unfolding handle_sign_out_inner_def
  by (auto intro!: calm_intros authorized_call_calm simp: server_calm_def svc_ok_def split: res.split)

lemma latest_version_calm:
  assumes "server_calm L (dw_server w)" and "svc_ok L s"
  shows "no_panic (handle_latest_app_version_inner L w s)"
  using assms unfolding handle_latest_app_version_inner_def
  by (auto intro!: calm_intros authorized_call_calm simp: server_calm_def svc_ok_def)

lemma respond_calm: "no_panic (p s) \<Longrightarrow> no_panic (respond mk p s)"
  unfolding respond_def by (auto intro!: calm_intros)

lemma device_message_calm:
  assumes "lib_ok L" and "server_calm L (dw_server (fst m))"
  shows "calm (svc_ok L) (handle_device_message L m)"
  unfolding calm_iff using device_message_keeps [OF assms] assms(2)
  by (cases "(L, m)" rule: handle_device_message.cases)
    (simp_all add: respond_calm sign_in_calm sign_out_calm latest_version_calm)

interpretation device_actor: calm_actor "handle_device_message L" "svc_ok L"
  "\<lambda>m. lib_ok L \<and> server_calm L (dw_server (fst m))" for L
  by unfold_locales (auto intro: device_message_keeps device_message_calm)

text \<open>The loop handles the messages before the first shutdown, and acknowledges that one.\<close>

lemma device_run_serve:
  assumes "\<forall>m \<in> set ms. lib_ok L \<and> server_calm L (dw_server (fst m))" and "svc_ok L s"
  shows "device_run L ms s =
     (Ok (\<exists>m \<in> set ms. snd m = DevShutdown),
      snd (serve (handle_device_message L) (takeWhile (\<lambda>m. snd m \<noteq> DevShutdown) ms) s))"
  using assms
proof (induction ms arbitrary: s)
  case (Cons m ms)
  obtain r s' where step: "handle_device_message L m s = (r, s')" by fastforce
  then have "svc_ok L s'" and "\<not> is_panic r"
    using calmD [OF device_message_calm, of L m s] Cons.prems by auto
  with Cons step show ?case by (cases r) (auto simp: attempt_def)
qed simp

section \<open>Signing in and out\<close>

lemma init_reliable:
  assumes "lib_ok L" and "reliable d" and "device_ok L d" and "device_init L h w d = (Ok dd, d')"
  obtains r where "d' = d\<lparr>devices := [r]\<rparr>" and "describes L r dd"
  using assms(3)
proof (cases rule: device_ok_cases)
  case none
  with assms that show ?thesis by (auto simp: device_init_none row_describes split: res.splits)
next
  case (one r dd')
  with assms that [of r] show ?thesis by (auto simp: device_init_some describes_def)
qed

lemma sign_in_run:
  assumes L: "lib_ok L" and d: "reliable (svc_db s)" "device_ok L (svc_db s)" "tokens_ok (svc_db s)"
    and conn: "srv_connect_no_auth (dw_server w) = Ok ()"
    and init: "device_init L (dw_host w) (dw_draw w) (svc_db s) = (Ok dd, d1)"
    and reply: "srv_add_device (dw_server w)
        \<lparr>adr_user_creds = creds, adr_device_info = device_info_of_details L dd\<rparr> = Ok a"
  obtains r where "describes L r dd"
    and "handle_sign_in_inner L w creds s = (Ok (), s\<lparr>
       svc_token := Some (ads_token a),
       svc_db := (svc_db s)\<lparr>
         devices := [set_ipv4 (da_ipv4_address (ads_device_addresses a)) r],
         tokens := [\<lparr>tok_id = next_id (svc_db s), tok_token = ads_token a\<rparr>],
         next_id := Suc (next_id (svc_db s))\<rparr>\<rparr>)"
proof -
  obtain r where d1: "d1 = (svc_db s)\<lparr>devices := [r]\<rparr>" and r: "describes L r dd"
    using init_reliable [OF L d(1,2) init] .
  have conv: "device_details_of_row L r = Ok dd"
    and row_id: "uuid_to_string L (dd_unique_id dd) = dev_unique_id r"
    using r by (simp_all add: describes_def)
  have tok: "save_token (ads_token a) ((svc_db s)\<lparr>devices := [r]\<rparr>) = (Ok (), (svc_db s)\<lparr>
      devices := [r], tokens := [\<lparr>tok_id = next_id (svc_db s), tok_token = ads_token a\<rparr>],
      next_id := Suc (next_id (svc_db s))\<rparr>)"
    using d by (simp add: save_token_run tokens_ok_def)
  have "handle_sign_in_inner L w creds s = (Ok (), s\<lparr>
       svc_token := Some (ads_token a),
       svc_db := (svc_db s)\<lparr>
         devices := [set_ipv4 (da_ipv4_address (ads_device_addresses a)) r],
         tokens := [\<lparr>tok_id = next_id (svc_db s), tok_token = ads_token a\<rparr>],
         next_id := Suc (next_id (svc_db s))\<rparr>\<rparr>)"
    using d(1) init conn reply tok
    by (simp add: handle_sign_in_inner_def prog_simps d1 conv update_ipv4_run [OF _ _ conv row_id])
  with r that show ?thesis by blast
qed

lemma sign_out_run:
  assumes "reliable (svc_db s)" and "srv_connect (dw_server w) = Ok ()"
    and "authorized_call L (srv_sign_out (dw_server w)) (svc_db s) = (st, svc_db s)"
    and "st = Ok () \<or> (\<exists>e. st = Err e \<and> st_code e = Unauthenticated)"
    and "create_new (dw_host w) (dw_draw w) = Ok dd"
  shows "handle_sign_out_inner L w s = (Ok (), s\<lparr>svc_token := None, svc_db := (svc_db s)\<lparr>
     devices := [device_row_of_details L dd], tokens := []\<rparr>\<rparr>)"
  using assms by (auto simp: handle_sign_out_inner_def prog_simps reinitialize_run)

lemma sign_out_refused:
  assumes "srv_connect (dw_server w) = Ok ()"
    and "authorized_call L (srv_sign_out (dw_server w)) (svc_db s) = (Err e, d')"
    and "st_code e \<noteq> Unauthenticated"
  shows "handle_sign_out_inner L w s = (Err (DeviceServerError e), s\<lparr>svc_db := d'\<rparr>)"
  using assms by (simp add: handle_sign_out_inner_def prog_simps)

section \<open>Properties\<close>

text \<open>C24: a sign-in that the server accepts. The token in memory, the token in the table (the only
  one left) and the server's token are the same, and the device has the address the server gave.\<close>

theorem sign_in_effect:
  assumes "lib_ok L" and "reliable (svc_db s)" and "device_ok L (svc_db s)" and "tokens_ok (svc_db s)"
    and "srv_connect_no_auth (dw_server w) = Ok ()"
    and "device_init L (dw_host w) (dw_draw w) (svc_db s) = (Ok dd, d1)"
    and "srv_add_device (dw_server w)
        \<lparr>adr_user_creds = creds, adr_device_info = device_info_of_details L dd\<rparr> = Ok a"
  shows "\<exists>s'. handle_device_message L (w, DevSignIn creds) s = (Ok (), s')
     \<and> svc_replies s' = svc_replies s @ [ReplySignIn (Ok ())]
     \<and> svc_token s' = Some (ads_token a) \<and> map tok_token (tokens (svc_db s')) = [ads_token a]
     \<and> fst (get_device L (svc_db s'))
         = Ok (Some (with_ipv4 (da_ipv4_address (ads_device_addresses a)) dd))"
proof -
  obtain r where r: "describes L r dd" and run: "handle_sign_in_inner L w creds s = (Ok (), s\<lparr>
       svc_token := Some (ads_token a),
       svc_db := (svc_db s)\<lparr>
         devices := [set_ipv4 (da_ipv4_address (ads_device_addresses a)) r],
         tokens := [\<lparr>tok_id = next_id (svc_db s), tok_token = ads_token a\<rparr>],
         next_id := Suc (next_id (svc_db s))\<rparr>\<rparr>)"
    using sign_in_run [OF assms] .
  then show ?thesis using set_ipv4_converts [OF describesD [OF r]] assms(2)
    by (simp add: respond_def prog_simps)
qed

definition sample_device_world :: device_world where
  "sample_device_world = \<lparr>dw_host = sample_host, dw_draw = \<lparr>draw_uid = 2, draw_key = 3, draw_now = 4\<rparr>,
     dw_server = \<lparr>srv_connect_no_auth = Ok (),
       srv_add_device = (\<lambda>r. Ok \<lparr>ads_token = ''t'', ads_device_addresses = \<lparr>da_ipv4_address = 10\<rparr>\<rparr>),
       srv_connect = Ok (), srv_sign_out = (\<lambda>h. Ok ()), srv_latest_app_version = (\<lambda>h. Ok ''2'')\<rparr>\<rparr>"

definition sample_service :: device_service where
  "sample_service = \<lparr>svc_token = None, svc_db = sample_db, svc_replies = []\<rparr>"

lemma sample_init: "device_init sample_lib h w sample_db = (Ok sample_details, sample_db)"
  using device_init_some [of sample_db "device_row_of_details sample_lib sample_details" sample_lib h w]
  by simp

theorem sign_in_effect_witness:
  "svc_token (snd (handle_device_message sample_lib (sample_device_world,
     DevSignIn \<lparr>uc_email = ''a@b'', uc_password = ''p''\<rparr>) sample_service)) = Some ''t''"
  using sign_in_effect [of sample_lib sample_service sample_device_world sample_details sample_db
      "\<lparr>uc_email = ''a@b'', uc_password = ''p''\<rparr>"
      "\<lparr>ads_token = ''t'', ads_device_addresses = \<lparr>da_ipv4_address = 10\<rparr>\<rparr>"]
  by (auto simp: sample_service_def sample_device_world_def sample_init tokens_ok_def)

text \<open>C25: a sign-out that the server confirms, or answers with \<open>unauthenticated\<close>, forgets the
  token in memory and in the table and replaces the device by a new one; with any other answer
  the token and the device stay.\<close>

theorem sign_out_effect:
  assumes "reliable (svc_db s)" and "srv_connect (dw_server w) = Ok ()"
    and "authorized_call L (srv_sign_out (dw_server w)) (svc_db s) = (st, svc_db s)"
    and "\<not> is_panic st" and "create_new (dw_host w) (dw_draw w) = Ok dd"
  shows "handle_device_message L (w, DevSignOut) s =
     (case st of
        Err e \<Rightarrow> if st_code e \<noteq> Unauthenticated
          then (Ok (), s\<lparr>svc_replies := svc_replies s @ [ReplySignOut (Err (DeviceServerError e))]\<rparr>)
          else (Ok (), s\<lparr>svc_token := None,
            svc_db := (svc_db s)\<lparr>devices := [device_row_of_details L dd], tokens := []\<rparr>,
            svc_replies := svc_replies s @ [ReplySignOut (Ok ())]\<rparr>)
      | _ \<Rightarrow> (Ok (), s\<lparr>svc_token := None,
            svc_db := (svc_db s)\<lparr>devices := [device_row_of_details L dd], tokens := []\<rparr>,
            svc_replies := svc_replies s @ [ReplySignOut (Ok ())]\<rparr>))"
  using assms sign_out_run [OF assms(1-3) _ assms(5)] sign_out_refused [OF assms(2), of L s _ "svc_db s"]
  by (cases st) (simp_all add: respond_def attempt_def)

theorem sign_out_effect_witness:
  "svc_token (snd (handle_device_message sample_lib (sample_device_world, DevSignOut)
     (sample_service\<lparr>svc_token := Some ''t''\<rparr>))) = None"
proof -
  obtain dd where "create_new (dw_host sample_device_world) (dw_draw sample_device_world) = Ok dd"
    using create_new_Ok_iff [of sample_host "dw_draw sample_device_world"]
    by (auto simp: sample_host_def sample_device_world_def)
  then show ?thesis
    using sign_out_effect [of "sample_service\<lparr>svc_token := Some ''t''\<rparr>" sample_device_world sample_lib "Ok ()" dd]
    by (simp add: sample_service_def sample_device_world_def authorized_call_def authorization_def prog_simps)
qed

text \<open>Whatever messages arrive and whichever statements fail, the device service neither
  panics nor leaves more than one device, an unreadable one, or a token that is no header
  value, provided the server's answers decode and its tokens are header values.\<close>

lemma device_service_safe:
  assumes "lib_ok L" and "svc_ok L s" and "\<forall>m \<in> set ms. server_calm L (dw_server (fst m))"
  shows "\<not> is_panic (fst (serve (handle_device_message L) ms s))
     \<and> svc_ok L (snd (serve (handle_device_message L) ms s))"
  using device_actor.serve_calm [of ms L] assms by (simp add: calm_def)

end
