(* ===== verification/Controller.thy ===== *)
theory Controller
  imports Daemon Wire Device_Service
begin

text \<open>
  The interface of the daemon to its clients: modvpn-daemon/src/controller.rs (the gRPC service,
  the subscribers to events, the mapping of errors) and modvpn-controller/src/auth.rs (the
  middleware that lets only a signed-in device through).
\<close>

section \<open>Errors as gRPC statuses\<close>

definition status_with :: "grpc_code \<Rightarrow> string \<Rightarrow> grpc_status" where
  "status_with c m = \<lparr>st_code = c, st_message = m\<rparr>"

definition map_db_error :: "db_err \<Rightarrow> grpc_status" where
  "map_db_error e = status_with Internal ''daemon is unable to manage its database''"

fun map_device_status :: "device_error \<Rightarrow> grpc_status" where
  "map_device_status DeviceServiceUnavailable =
     status_with Internal ''daemon is partially up: device service unavailable''"
| "map_device_status (DeviceServerError s) = s"
| "map_device_status (DeviceConnectionError e) =
     status_with Unavailable SERVER_UNAVAILABLE_PLEASE_TRY_AGAIN_LATER"
| "map_device_status (DeviceDbErr e) = map_db_error e"
| "map_device_status (InitError m) = status_with Internal ''failed to initialize device''"

fun map_session_status :: "vpn_session_error \<Rightarrow> grpc_status" where
  "map_session_status VpnSessionServiceDown = status_with Internal VPN_SESSION_SERVICE_UNAVAILABLE"
| "map_session_status (VpnConnectionError e) =
     status_with Unavailable SERVER_UNAVAILABLE_PLEASE_TRY_AGAIN_LATER"
| "map_session_status (VpnServerError s) = s"

fun map_daemon_error :: "daemon_error \<Rightarrow> grpc_status" where
  "map_daemon_error DaemonUnavailable = status_with Internal ''daemon is unavailable''"
| "map_daemon_error (AnotherVpnSessionInProgress l) = status_with FailedPrecondition
     (''cannot start a new vpn session when another is in progress (to city '' @ loc_city l @ '')'')"
| "map_daemon_error (InvalidOpVpnSessionInProgress m) = status_with FailedPrecondition m"
| "map_daemon_error (DaemonDbErr e) = map_db_error e"
| "map_daemon_error (DaemonDeviceError e) = map_device_status e"
| "map_daemon_error (DaemonVpnSessionError e) = map_session_status e"

section \<open>The calls\<close>

datatype 'a answer =
    Gone  \<comment> \<open>the daemon no longer receives\<close>
  | Dropped  \<comment> \<open>it received the command and dropped the sender of the reply\<close>
  | Answered 'a

definition send_command_to_daemon :: "'a answer \<Rightarrow> (unit, grpc_status) res" where
  "send_command_to_daemon a = (case a of
      Gone \<Rightarrow> Err (status_with Internal ''the daemon channel receiver has been dropped'')
    | _ \<Rightarrow> Ok ())"

definition wait_for_result :: "'a answer \<Rightarrow> ('a, grpc_status) res" where
  "wait_for_result a = (case a of
      Answered r \<Rightarrow> Ok r
    | _ \<Rightarrow> Err (status_with Internal ''sender was dropped''))"

definition call_daemon ::
    "('a \<Rightarrow> 'b) \<Rightarrow> ('a, daemon_error) res answer \<Rightarrow> ('b, grpc_status) res" where
  "call_daemon f a =
     res_bind (send_command_to_daemon a) (\<lambda>_.
     res_bind (wait_for_result a) (\<lambda>r. map_err map_daemon_error (map_ok f r)))"

definition get_locations :: "(location list, daemon_error) res answer \<Rightarrow> (proto_location list, grpc_status) res" where
  "get_locations = call_daemon locations_to_proto"

definition recent_locations :: "(location list, daemon_error) res answer \<Rightarrow> (proto_location list, grpc_status) res" where
  "recent_locations = call_daemon locations_to_proto"

definition is_authenticated_rpc :: "(bool, daemon_error) res answer \<Rightarrow> (bool, grpc_status) res" where
  "is_authenticated_rpc = call_daemon id"

definition account_sign_in :: "(unit, daemon_error) res answer \<Rightarrow> (unit, grpc_status) res" where
  "account_sign_in = call_daemon id"

definition account_sign_out :: "(unit, daemon_error) res answer \<Rightarrow> (unit, grpc_status) res" where
  "account_sign_out = call_daemon id"

definition get_account_info :: "(string \<times> 32 word, grpc_status) res" where
  "get_account_info = Panic ''not yet implemented''"

definition connect_vpn ::
    "lib \<Rightarrow> (vpn_status, daemon_error) res answer \<Rightarrow> (proto_vpn_status option, grpc_status) res" where
  "connect_vpn L = call_daemon (vpn_status_to_proto L)"

definition disconnect_vpn ::
    "lib \<Rightarrow> (vpn_status, daemon_error) res answer \<Rightarrow> (proto_vpn_status option, grpc_status) res" where
  "disconnect_vpn L = call_daemon (vpn_status_to_proto L)"

definition get_vpn_status ::
    "lib \<Rightarrow> (vpn_status, daemon_error) res answer \<Rightarrow> (proto_vpn_status option, grpc_status) res" where
  "get_vpn_status L = call_daemon (vpn_status_to_proto L)"

definition get_notifications ::
    "lib \<Rightarrow> (notification list, daemon_error) res answer \<Rightarrow> (proto_notification list, grpc_status) res" where
  "get_notifications L = call_daemon (notifications_to_proto L)"

definition ack_notification :: "(unit, daemon_error) res answer \<Rightarrow> (unit, grpc_status) res" where
  "ack_notification = call_daemon id"

definition latest_app_version :: "(string, daemon_error) res answer \<Rightarrow> (string, grpc_status) res" where
  "latest_app_version = call_daemon id"

text \<open>The requests, the command each sends to the daemon, and the path it is called by.\<close>

datatype rpc_request =
    GetLocations | RecentLocations
  | IsAuthenticated | AccountSignIn sign_in_request | AccountSignOut | GetAccountInfo
  | ConnectVpn proto_location | DisconnectVpn | GetVpnStatus
  | GetNotifications | AckNotification string | LatestAppVersion | WatchEvents

fun command_of_request :: "rpc_request \<Rightarrow> daemon_command option" where
  "command_of_request GetLocations = Some CmdListLocations"
| "command_of_request RecentLocations = Some CmdRecentLocations"
| "command_of_request IsAuthenticated = Some CmdIsAuthenticated"
| "command_of_request (AccountSignIn r) = Some (CmdAccountSignIn (user_credentials_of_sign_in r))"
| "command_of_request AccountSignOut = Some CmdAccountSignOut"
| "command_of_request GetAccountInfo = None"
| "command_of_request (ConnectVpn p) = Some (CmdConnect (location_from_proto p))"
| "command_of_request DisconnectVpn = Some CmdDisconnect"
| "command_of_request GetVpnStatus = Some CmdGetVpnStatus"
| "command_of_request GetNotifications = Some CmdGetNotifications"
| "command_of_request (AckNotification i) = Some (CmdAckNotification i)"
| "command_of_request LatestAppVersion = Some CmdLatestAppVersion"
| "command_of_request WatchEvents = None"

fun rpc_name :: "rpc_request \<Rightarrow> string" where
  "rpc_name GetLocations = ''GetLocations''"
| "rpc_name RecentLocations = ''RecentLocations''"
| "rpc_name IsAuthenticated = ''IsAuthenticated''"
| "rpc_name (AccountSignIn r) = ''AccountSignIn''"
| "rpc_name AccountSignOut = ''AccountSignOut''"
| "rpc_name GetAccountInfo = ''GetAccountInfo''"
| "rpc_name (ConnectVpn p) = ''ConnectVpn''"
| "rpc_name DisconnectVpn = ''DisconnectVpn''"
| "rpc_name GetVpnStatus = ''GetVpnStatus''"
| "rpc_name GetNotifications = ''GetNotifications''"
| "rpc_name (AckNotification i) = ''AckNotification''"
| "rpc_name LatestAppVersion = ''LatestAppVersion''"
| "rpc_name WatchEvents = ''WatchEvents''"

definition rpc_path :: "rpc_request \<Rightarrow> string" where
  \<comment> \<open>the path tonic serves a method of the service under\<close>
  "rpc_path r = ''/modvpn.controller.ControllerService/'' @ rpc_name r"

section \<open>The middleware (auth.rs)\<close>

definition ALLOWED_UNAUTHORIZED_PATHS :: "string list" where
  "ALLOWED_UNAUTHORIZED_PATHS = [
     ''/modvpn.controller.ControllerService/AccountSignIn'',
     ''/modvpn.controller.ControllerService/IsAuthenticated'']"

definition auth_call :: "string \<Rightarrow> bool \<Rightarrow> ('a, grpc_status) res \<Rightarrow> ('a, grpc_status) res" where
  \<comment> \<open>\<open>authenticated\<close> is the device service's answer, \<open>inner\<close> what the service behind returns\<close>
  "auth_call path authenticated inner =
     (if path \<in> set ALLOWED_UNAUTHORIZED_PATHS \<or> authenticated then inner
      else Err (status_with Unauthenticated ''please sign in first''))"

section \<open>The subscribers\<close>

record subscriber =
  sub_open :: bool  \<comment> \<open>the client still reads its stream\<close>
  sub_received :: "proto_daemon_event list"

definition watch_events :: "subscriber list \<Rightarrow> subscriber list" where
  "watch_events subs = subs @ [\<lparr>sub_open = True, sub_received = []\<rparr>]"

definition deliver :: "proto_daemon_event \<Rightarrow> subscriber \<Rightarrow> subscriber" where
  "deliver ev t = t\<lparr>sub_received := sub_received t @ [ev]\<rparr>"

fun notify :: "proto_daemon_event \<Rightarrow> subscriber list \<Rightarrow> subscriber list" where
  \<comment> \<open>\<open>retain(|tx| tx.send(..).is\_ok())\<close>: a closed stream is dropped from the list\<close>
  "notify ev [] = []"
| "notify ev (t # ts) = (if sub_open t then deliver ev t # notify ev ts else notify ev ts)"

fun event_of_broadcast :: "lib \<Rightarrow> broadcast \<Rightarrow> proto_daemon_event" where
  "event_of_broadcast L (StatusBroadcast v) = EventVpnStatus (vpn_status_to_proto L v)"
| "event_of_broadcast L (NotificationBroadcast n) = EventNotification (notification_to_proto L n)"

definition notify_all :: "lib \<Rightarrow> broadcast list \<Rightarrow> subscriber list \<Rightarrow> subscriber list" where
  "notify_all L bs subs = fold (\<lambda>b. notify (event_of_broadcast L b)) bs subs"

definition stream_of :: "lib \<Rightarrow> broadcast list \<Rightarrow> (proto_daemon_event option, grpc_status) res list" where
  \<comment> \<open>the stream a client gets for these broadcasts\<close>
  "stream_of L bs = map (\<lambda>b. Ok (Some (event_of_broadcast L b))) bs"

fun broadcast_of_event :: "lib \<Rightarrow> proto_daemon_event \<Rightarrow> (broadcast, unit) res" where
  \<comment> \<open>what a client reads back from an event\<close>
  "broadcast_of_event L (EventVpnStatus v) = map_ok StatusBroadcast (vpn_status_from_proto L v)"
| "broadcast_of_event L (EventNotification n) =
     map_ok NotificationBroadcast (unwrap_res (notification_from_proto L n))"

section \<open>Lemmas\<close>

lemma allowed_iff:
  "rpc_path r \<in> set ALLOWED_UNAUTHORIZED_PATHS \<longleftrightarrow> (\<exists>c. r = AccountSignIn c) \<or> r = IsAuthenticated"
  by (cases r) (simp_all add: rpc_path_def ALLOWED_UNAUTHORIZED_PATHS_def)

lemma notify_open: "notify ev ts = map (deliver ev) (filter sub_open ts)"
  by (induction ts) auto

lemma deliver_simps [simp]:
  "sub_open (deliver ev t) = sub_open t"
  "sub_received (deliver ev t) = sub_received t @ [ev]"
  by (simp_all add: deliver_def)

lemma notify_all_open:
  assumes "\<forall>t \<in> set ts. sub_open t"
  shows "notify_all L bs ts =
     map (\<lambda>t. t\<lparr>sub_received := sub_received t @ map (event_of_broadcast L) bs\<rparr>) ts"
  using assms
proof (induction bs arbitrary: ts)
  case Nil
  then show ?case by (simp add: notify_all_def)
next
  case (Cons b bs)
  let ?ts = "map (deliver (event_of_broadcast L b)) ts"
  have step: "notify (event_of_broadcast L b) ts = ?ts"
    using Cons.prems by (simp add: notify_open)
  have "\<forall>t \<in> set ?ts. sub_open t" using Cons.prems by simp
  from Cons.IH [OF this] step show ?case
    by (simp add: notify_all_def deliver_def)
qed

lemma notify_all_any:
  assumes "bs \<noteq> []"
  shows "notify_all L bs ts =
     map (\<lambda>t. t\<lparr>sub_received := sub_received t @ map (event_of_broadcast L) bs\<rparr>) (filter sub_open ts)"
proof -
  obtain b bs' where bs: "bs = b # bs'" using assms by (cases bs) auto
  have "\<forall>t \<in> set (notify (event_of_broadcast L b) ts). sub_open t" by (auto simp: notify_open)
  from notify_all_open [OF this, of L bs'] show ?thesis
    by (simp add: bs notify_all_def notify_open deliver_def comp_def)
qed

lemma broadcast_roundtrip:
  "chrono_ok L \<Longrightarrow> broadcast_of_event L (event_of_broadcast L b) = Ok b"
  by (cases b) (simp_all add: vpn_status_proto_roundtrip notification_proto_roundtrip)

section \<open>Properties\<close>

text \<open>C28: whatever the mix of open and closed streams among the subscribers. After some broadcasts of
  the daemon exactly the open ones are left, in their order; each has received, after what it had
  before, exactly these broadcasts in their order, and what a client decodes from them are the
  statuses and notifications that were sent. A closed stream is dropped and keeps no other from receiving.\<close>

theorem subscribers_receive_broadcasts:
  assumes "chrono_ok L" and "bs \<noteq> []"
  shows "list_all2 (\<lambda>t t'. sub_open t' 
        \<and> take (length (sub_received t)) (sub_received t') = sub_received t
        \<and> map (broadcast_of_event L) (drop (length (sub_received t)) (sub_received t')) = map Ok bs)
      (filter sub_open ts) (notify_all L bs ts)"
  using assms by (simp add: notify_all_any list.rel_map list_all2_same broadcast_roundtrip)

theorem subscribers_receive_broadcasts_witness:
  "map (\<lambda>t. map (broadcast_of_event sample_lib) (sub_received t))
     (notify_all sample_lib [StatusBroadcast VpnDisconnected]
        [\<lparr>sub_open = False, sub_received = []\<rparr>, \<lparr>sub_open = True, sub_received = []\<rparr>])
   = [[Ok (StatusBroadcast VpnDisconnected)]]"
  using subscribers_receive_broadcasts [of sample_lib "[StatusBroadcast VpnDisconnected]"
      "[\<lparr>sub_open = False, sub_received = []\<rparr>, \<lparr>sub_open = True, sub_received = []\<rparr>]"]
  by (auto simp: list_all2_Cons1)

text \<open>C29: a client whose device is not signed in gets through to the daemon with exactly two
  requests, to sign in and to ask whether it is signed in; any other is answered by the
  middleware.\<close>

theorem only_sign_in_without_authentication:
  "auth_call (rpc_path q) False inner =
     (if (\<exists>c. q = AccountSignIn c) \<or> q = IsAuthenticated then inner
      else Err (status_with Unauthenticated ''please sign in first''))"
  by (simp add: auth_call_def allowed_iff)

end
