(* ===== verification/Session_Service.thy ===== *)
theory Session_Service
  imports Session_Storage Device
begin

text \<open>
  modvpn-daemon/src/vpn\_session/handler.rs: the task between the daemon and the server. For
  every session the server accepts it spawns a watcher, and keeps the sender with which the
  watcher is stopped in a map from request ids. A watcher's end of the channel resolves when the
  sender is used and also when it is dropped, so a watcher is asked to stop exactly when its
  sender is no longer in the map; senders are numbered in the order they are made.
\<close>

section \<open>Messages, state and the server's answers\<close>

datatype vpn_session_command =
    NewSessionCmd new_session
  | EndSessionCmd end_session
  | ClientConnectedCmd client_connected
  | ListLocationsCmd
  | ShutdownCmd

datatype session_reply =
    AcceptedReply "(accepted, vpn_session_error) res"
  | EndedReply "(ended, vpn_session_error) res"
  | ConnectedReply "(unit, vpn_session_error) res"
  | LocationsReply "(location list, vpn_session_error) res"

record end_attempt =
  ea_connect :: "(unit, string) res"
  ea_answer :: "end_session \<Rightarrow> (ended, grpc_status) res"

record session_server =
  ss_connect :: "(unit, string) res"
  ss_new_session :: "new_session \<Rightarrow> (accepted, grpc_status) res"
  ss_client_connected :: "client_connected \<Rightarrow> (unit, grpc_status) res"
  ss_list_locations :: "(location list, grpc_status) res"
  ss_first_attempt :: end_attempt
  ss_retries :: "end_attempt list"  \<comment> \<open>as many as the backoff makes in its fifteen seconds\<close>

record session_service =
  vs_watchers :: "(uuid \<times> nat) list"  \<comment> \<open>\<open>watcher\_shutdown\_txs\<close>\<close>
  vs_spawned :: "(nat \<times> vpn_session_status_request) list"  \<comment> \<open>the watchers started, by their sender\<close>
  vs_shutdown :: bool  \<comment> \<open>\<open>shutdown\_tx\<close> is present\<close>
  vs_replies :: "session_reply list"

type_synonym 'a vs = "(session_service, 'a, vpn_session_error) prog"

definition session_service_new :: session_service where
  "session_service_new = \<lparr>vs_watchers = [], vs_spawned = [], vs_shutdown = False, vs_replies = []\<rparr>"

section \<open>The operations\<close>

definition on_new_session_inner ::
    "session_server \<Rightarrow> new_session \<Rightarrow> (accepted, vpn_session_error) res" where
  "on_new_session_inner v ns =
     res_bind (map_err VpnConnectionError (ss_connect v)) (\<lambda>_.
       map_err VpnServerError (ss_new_session v ns))"

definition reply :: "session_reply \<Rightarrow> session_service \<Rightarrow> session_service" where
  "reply r s = s\<lparr>vs_replies := vs_replies s @ [r]\<rparr>"

definition insert_watcher :: "uuid \<Rightarrow> nat \<Rightarrow> session_service \<Rightarrow> session_service" where
  "insert_watcher k i s = s\<lparr>vs_watchers := AList.update k i (vs_watchers s)\<rparr>"

definition start_watcher :: "vpn_session_status_request \<Rightarrow> session_service \<Rightarrow> session_service" where
  "start_watcher q s =
     (let i = length (vs_spawned s);
          s1 = insert_watcher (req_request_id q) i s
      in s1\<lparr>vs_spawned := vs_spawned s1 @ [(i, q)]\<rparr>)"

definition stop_watcher :: "uuid \<Rightarrow> session_service \<Rightarrow> session_service" where
  "stop_watcher k s = s\<lparr>vs_watchers := AList.delete k (vs_watchers s)\<rparr>"

definition on_new_session :: "session_server \<Rightarrow> new_session \<Rightarrow> unit vs" where
  "on_new_session v ns =
     attempt (give (on_new_session_inner v ns)) (\<lambda>accepted.
     and_then (case accepted of
         Ok a \<Rightarrow> writes (start_watcher \<lparr>req_request_id = ns_request_id ns,
           req_device_unique_id = ns_device_unique_id ns,
           req_vpn_session_uuid = acc_vpn_session_uuid a\<rparr>)
       | _ \<Rightarrow> ret ()) (\<lambda>_.
       writes (reply (AcceptedReply accepted))))"

definition end_once :: "end_session \<Rightarrow> end_attempt \<Rightarrow> (ended, vpn_session_error) res" where
  "end_once e a =
     res_bind (map_err VpnConnectionError (ea_connect a)) (\<lambda>_. map_err VpnServerError (ea_answer a e))"

fun retry :: "('a, 'e) res \<Rightarrow> ('a, 'e) res list \<Rightarrow> ('a, 'e) res" where
  \<comment> \<open>\<open>backoff::future::retry\<close> of transient errors: up to the first success, else the last error\<close>
  "retry r [] = r"
| "retry (Err e) (r # rs) = retry r rs"
| "retry r rs = r"

definition on_end_session_inner ::
    "session_server \<Rightarrow> end_session \<Rightarrow> (ended, vpn_session_error) res" where
  "on_end_session_inner v e =
     retry (end_once e (ss_first_attempt v)) (map (end_once e) (ss_retries v))"

definition spawn_reply :: "(('a, 'e) res \<Rightarrow> session_reply) \<Rightarrow> ('a, 'e) res \<Rightarrow> unit vs" where
  \<comment> \<open>a spawned task answers; if it panics it ends alone and its sender is dropped\<close>
  "spawn_reply mk r = (if is_panic r then ret () else writes (reply (mk r)))"

definition on_end_session :: "session_server \<Rightarrow> end_session \<Rightarrow> unit vs" where
  "on_end_session v e =
     and_then (writes (stop_watcher (es_request_id e))) (\<lambda>_.
       spawn_reply EndedReply (on_end_session_inner v e))"

definition on_client_connected_inner ::
    "session_server \<Rightarrow> client_connected \<Rightarrow> (unit, vpn_session_error) res" where
  "on_client_connected_inner v c =
     res_bind (map_err VpnConnectionError (ss_connect v)) (\<lambda>_.
       map_err VpnServerError (ss_client_connected v c))"

definition on_client_connected :: "session_server \<Rightarrow> client_connected \<Rightarrow> unit vs" where
  "on_client_connected v c =
     and_then (writes (stop_watcher (cc_request_id c))) (\<lambda>_.
       spawn_reply ConnectedReply (on_client_connected_inner v c))"

definition on_list_locations_inner :: "session_server \<Rightarrow> (location list, vpn_session_error) res" where
  "on_list_locations_inner v =
     res_bind (map_err VpnConnectionError (ss_connect v)) (\<lambda>_.
       map_err VpnServerError (ss_list_locations v))"

definition on_list_locations :: "session_server \<Rightarrow> unit vs" where
  "on_list_locations v = spawn_reply LocationsReply (on_list_locations_inner v)"

fun handle_session_command :: "session_server \<times> vpn_session_command \<Rightarrow> unit vs" where
  "handle_session_command (v, NewSessionCmd ns) = on_new_session v ns"
| "handle_session_command (v, EndSessionCmd e) = on_end_session v e"
| "handle_session_command (v, ClientConnectedCmd c) = on_client_connected v c"
| "handle_session_command (v, ShutdownCmd) = writes (\<lambda>s. s\<lparr>vs_shutdown := True\<rparr>)"
| "handle_session_command (v, ListLocationsCmd) = on_list_locations v"

fun session_loop :: "(session_server \<times> vpn_session_command) list \<Rightarrow> unit vs" where
  "session_loop [] = ret ()"
| "session_loop (c # cs) =
     attempt (handle_session_command c) (\<lambda>_.
       \<lambda>s. if vs_shutdown s then (Ok (), s) else session_loop cs s)"

definition session_run :: "(session_server \<times> vpn_session_command) list \<Rightarrow> bool vs" where
  \<comment> \<open>the task; its result says whether the shutdown is acknowledged. The map is consumed: the
    senders in it are dropped (the code maps \<open>send\<close> over them lazily and never runs it)\<close>
  "session_run cs =
     and_then (session_loop cs) (\<lambda>_ s. (Ok (vs_shutdown s), s\<lparr>vs_watchers := []\<rparr>))"

definition session_send_command :: "('a, vpn_session_error) res option \<Rightarrow> ('a, vpn_session_error) res" where
  \<comment> \<open>\<open>None\<close>: the task has ended, before the message or before the reply\<close>
  "session_send_command r = (case r of None \<Rightarrow> Err VpnSessionServiceDown | Some r \<Rightarrow> r)"

section \<open>The handle\<close>

text \<open>
  \<open>VpnSessionHandler\<close>: every method sends a command with the sender of a oneshot channel and waits
  for what comes back on it, if the task is there and does send.
\<close>

definition session_call ::
    "bool \<Rightarrow> session_server \<Rightarrow> vpn_session_command \<Rightarrow> (session_reply \<Rightarrow> ('a, vpn_session_error) res option) \<Rightarrow>
     (session_service, ('a, vpn_session_error) res, 'e) prog" where
  "session_call up v c pick s =
     (if up
      then let (r, s') = handle_session_command (v, c) s in
        (Ok (session_send_command (case drop (length (vs_replies s)) (vs_replies s') of
            [] \<Rightarrow> None
          | x # xs \<Rightarrow> pick x)), s')
      else (Ok (session_send_command None), s))"

fun accepted_reply :: "session_reply \<Rightarrow> (accepted, vpn_session_error) res option" where
  "accepted_reply (AcceptedReply r) = Some r"
| "accepted_reply _ = None"

fun ended_reply :: "session_reply \<Rightarrow> (ended, vpn_session_error) res option" where
  "ended_reply (EndedReply r) = Some r"
| "ended_reply _ = None"

fun connected_reply :: "session_reply \<Rightarrow> (unit, vpn_session_error) res option" where
  "connected_reply (ConnectedReply r) = Some r"
| "connected_reply _ = None"

fun locations_reply :: "session_reply \<Rightarrow> (location list, vpn_session_error) res option" where
  "locations_reply (LocationsReply r) = Some r"
| "locations_reply _ = None"

definition handler_new_session ::
    "bool \<Rightarrow> session_server \<Rightarrow> new_session \<Rightarrow> (session_service, (accepted, vpn_session_error) res, 'e) prog" where
  "handler_new_session up v ns = session_call up v (NewSessionCmd ns) accepted_reply"

definition handler_end_session ::
    "bool \<Rightarrow> session_server \<Rightarrow> end_session \<Rightarrow> (session_service, (ended, vpn_session_error) res, 'e) prog" where
  "handler_end_session up v e = session_call up v (EndSessionCmd e) ended_reply"

definition handler_client_connected ::
    "bool \<Rightarrow> session_server \<Rightarrow> client_connected \<Rightarrow> (session_service, (unit, vpn_session_error) res, 'e) prog" where
  "handler_client_connected up v c = session_call up v (ClientConnectedCmd c) connected_reply"

definition handler_list_locations ::
    "bool \<Rightarrow> session_server \<Rightarrow> (session_service, (location list, vpn_session_error) res, 'e) prog" where
  "handler_list_locations up v = session_call up v ListLocationsCmd locations_reply"

definition received :: "('a, vpn_session_error) res \<Rightarrow> ('a, vpn_session_error) res" where
  \<comment> \<open>a panic of the other side is a dropped sender\<close>
  "received r = (if is_panic r then Err VpnSessionServiceDown else r)"

text \<open>A call through the handle gives the service's own answer, and no panic crosses it.\<close>

lemma handler_answers:
  "fst (handler_new_session True v ns s) = Ok (received (on_new_session_inner v ns))"
  "fst (handler_end_session True v e s) = Ok (received (on_end_session_inner v e))"
  "fst (handler_client_connected True v c s) = Ok (received (on_client_connected_inner v c))"
  "fst (handler_list_locations True v s) = Ok (received (on_list_locations_inner v))"
  by (cases "on_new_session_inner v ns")
    (auto simp: handler_new_session_def handler_end_session_def handler_client_connected_def
      handler_list_locations_def session_call_def received_def session_send_command_def prog_simps
      on_new_session_def on_end_session_def on_client_connected_def on_list_locations_def
      spawn_reply_def reply_def start_watcher_def stop_watcher_def insert_watcher_def Let_def)

lemma handler_down:
  "handler_new_session False v ns s = (Ok (Err VpnSessionServiceDown), s)"
  "handler_end_session False v e s = (Ok (Err VpnSessionServiceDown), s)"
  "handler_client_connected False v c s = (Ok (Err VpnSessionServiceDown), s)"
  "handler_list_locations False v s = (Ok (Err VpnSessionServiceDown), s)"
  by (simp_all add: handler_new_session_def handler_end_session_def handler_client_connected_def
      handler_list_locations_def session_call_def session_send_command_def)

lemma received_calm [simp]: "\<not> is_panic (received r)"
  by (simp add: received_def)

section \<open>The watchers that run\<close>

definition watcher_of :: "session_service \<Rightarrow> uuid \<Rightarrow> nat option" where
  "watcher_of s = map_of (vs_watchers s)"

definition told_to_stop :: "session_service \<Rightarrow> nat \<Rightarrow> bool" where
  "told_to_stop s i \<longleftrightarrow> i \<notin> snd ` set (vs_watchers s)"

interpretation wtc: keyed_store insert_watcher stop_watcher watcher_of
    "\<lambda>s. distinct (map fst (vs_watchers s))"
  by unfold_locales
    (simp_all add: insert_watcher_def stop_watcher_def watcher_of_def update_conv' delete_conv'
      distinct_update distinct_delete)

definition vs_ok :: "session_service \<Rightarrow> bool" where
  \<comment> \<open>the map is a map, watchers are numbered, and a sender is filed under the request its
    watcher is for\<close>
  "vs_ok s \<longleftrightarrow> distinct (map fst (vs_watchers s))
     \<and> map fst (vs_spawned s) = [0..<length (vs_spawned s)]
     \<and> (\<forall>(k, i) \<in> set (vs_watchers s). \<exists>q. (i, q) \<in> set (vs_spawned s) \<and> req_request_id q = k)"

lemma vs_ok_new [simp]: "vs_ok session_service_new"
  by (simp add: vs_ok_def session_service_new_def)

lemma vs_ok_reply [simp]: "vs_ok (reply r s) = vs_ok s"
  by (simp add: vs_ok_def reply_def)

lemma vs_ok_shutdown [simp]: "vs_ok (s\<lparr>vs_shutdown := b\<rparr>) = vs_ok s"
  by (simp add: vs_ok_def)

lemma delete_subset: "set (AList.delete k xs) \<subseteq> set xs"
  by (auto simp: AList.delete_eq)

lemma update_subset: "set (AList.update k v xs) \<subseteq> insert (k, v) (set xs)"
proof (induction xs)
  case (Cons x xs)
  then show ?case by (cases x) auto
qed simp

lemma vs_ok_stop [simp]: "vs_ok s \<Longrightarrow> vs_ok (stop_watcher k s)"
  using delete_subset [of k "vs_watchers s"]
  by (auto simp: vs_ok_def stop_watcher_def distinct_delete)

lemma vs_ok_start:
  assumes "vs_ok s"
  shows "vs_ok (start_watcher q s)"
proof -
  let ?i = "length (vs_spawned s)"
  let ?w = "AList.update (req_request_id q) ?i (vs_watchers s)"
  have "\<exists>q'. (i, q') \<in> insert (?i, q) (set (vs_spawned s)) \<and> req_request_id q' = k"
    if "(k, i) \<in> set ?w" for k i
    using that assms update_subset [of "req_request_id q" ?i "vs_watchers s"]
    by (fastforce simp: vs_ok_def)
  with assms show ?thesis
    by (auto simp: vs_ok_def start_watcher_def insert_watcher_def Let_def distinct_update)
qed

definition session_server_calm :: "session_server \<Rightarrow> bool" where
  \<comment> \<open>what the service task itself waits for does not panic\<close>
  "session_server_calm v \<longleftrightarrow> \<not> is_panic (ss_connect v) \<and> (\<forall>ns. \<not> is_panic (ss_new_session v ns))"

lemma spawn_reply_run: "spawn_reply mk r s = (Ok (), if is_panic r then s else reply (mk r) s)"
  by (simp add: spawn_reply_def)

lemma session_command_keeps: "keeps vs_ok (handle_session_command m)"
proof (cases m rule: handle_session_command.cases)
  case (1 v ns)
  then show ?thesis
    by (auto simp: on_new_session_def intro!: keeps_intros vs_ok_start split: res.split)
qed (auto simp: on_end_session_def on_client_connected_def on_list_locations_def spawn_reply_def
      intro!: keeps_intros)

lemma session_command_no_panic:
  "session_server_calm (fst m) \<Longrightarrow> no_panic (handle_session_command m s)"
  by (cases m rule: handle_session_command.cases)
    (auto simp: on_new_session_def on_end_session_def on_client_connected_def
      on_list_locations_def spawn_reply_def session_server_calm_def on_new_session_inner_def
      is_panic_res_bind intro!: calm_intros split: res.split)

lemma session_command_calm:
  "session_server_calm (fst m) \<Longrightarrow> calm vs_ok (handle_session_command m)"
  by (simp add: calm_iff session_command_keeps session_command_no_panic)

interpretation session_actor: calm_actor handle_session_command vs_ok "\<lambda>m. session_server_calm (fst m)"
  by unfold_locales (auto intro: session_command_keeps session_command_calm)

text \<open>No two running watchers are for the same request.\<close>

lemma numbered_once:
  assumes "map fst xs = [0..<length xs]" and "(i, a) \<in> set xs" and "(i, b) \<in> set xs"
  shows "a = b"
proof -
  have "distinct (map fst xs)" unfolding assms(1) by simp
  then show ?thesis using assms(2,3) by (rule eq_key_imp_eq_value)
qed

lemma running_watcher:
  assumes ok: "vs_ok s" and q: "(i, q) \<in> set (vs_spawned s)"
  shows "\<not> told_to_stop s i \<longleftrightarrow> watcher_of s (req_request_id q) = Some i"
proof
  assume "\<not> told_to_stop s i"
  then obtain k where k: "(k, i) \<in> set (vs_watchers s)" by (auto simp: told_to_stop_def)
  then obtain q' where "(i, q') \<in> set (vs_spawned s)" and "req_request_id q' = k"
    using ok unfolding vs_ok_def by blast
  then have "k = req_request_id q"
    using numbered_once [of "vs_spawned s" i q' q] ok q by (simp add: vs_ok_def)
  with k ok show "watcher_of s (req_request_id q) = Some i"
    by (simp add: watcher_of_def vs_ok_def)
next
  assume "watcher_of s (req_request_id q) = Some i"
  then have "(req_request_id q, i) \<in> set (vs_watchers s)"
    unfolding watcher_of_def by (rule map_of_SomeD)
  then show "\<not> told_to_stop s i" by (force simp: told_to_stop_def)
qed

lemma one_watcher_per_request:
  assumes "vs_ok s" and "(i, q) \<in> set (vs_spawned s)" and "(j, r) \<in> set (vs_spawned s)"
    and "req_request_id q = req_request_id r" and "\<not> told_to_stop s i" and "\<not> told_to_stop s j"
  shows "i = j"
  using running_watcher [OF assms(1,2)] running_watcher [OF assms(1,3)] assms(4-6) by simp

text \<open>The watcher an accepted session starts stays the one in charge until the session is
  ended, connected or requested again.\<close>

definition touches :: "uuid \<Rightarrow> vpn_session_command \<Rightarrow> bool" where
  "touches k c \<longleftrightarrow> (case c of
      NewSessionCmd ns \<Rightarrow> ns_request_id ns = k
    | EndSessionCmd e \<Rightarrow> es_request_id e = k
    | ClientConnectedCmd cc \<Rightarrow> cc_request_id cc = k
    | _ \<Rightarrow> False)"

lemma watcher_of_start:
  "vs_ok s \<Longrightarrow> watcher_of (start_watcher q s) = (watcher_of s)(req_request_id q \<mapsto> length (vs_spawned s))"
  using wtc.look_put [of s "req_request_id q" "length (vs_spawned s)"]
  by (simp add: start_watcher_def Let_def vs_ok_def watcher_of_def)

lemma watcher_of_simps [simp]:
  "watcher_of (reply r s) = watcher_of s"
  "watcher_of (s\<lparr>vs_shutdown := b\<rparr>) = watcher_of s"
  by (simp_all add: watcher_of_def reply_def)

lemma watcher_of_stop: "vs_ok s \<Longrightarrow> watcher_of (stop_watcher k s) = (watcher_of s)(k := None)"
  by (rule wtc.look_del) (simp add: vs_ok_def)

lemma untouched_step:
  assumes "vs_ok s" and "\<not> touches k (snd m)"
  shows "watcher_of (snd (handle_session_command m s)) k = watcher_of s k"
  using assms
  by (cases m rule: handle_session_command.cases)
    (auto simp: touches_def on_new_session_def on_end_session_def on_client_connected_def
      on_list_locations_def spawn_reply_run watcher_of_start watcher_of_stop prog_simps
      split: res.split)

lemma untouched_serve:
  "vs_ok s \<Longrightarrow> \<forall>m \<in> set ms. \<not> touches k (snd m) \<Longrightarrow>
     watcher_of (snd (serve handle_session_command ms s)) k = watcher_of s k"
proof (induction ms arbitrary: s)
  case (Cons m ms)
  obtain r s' where step: "handle_session_command m s = (r, s')" by fastforce
  then have "vs_ok s'" and "watcher_of s' k = watcher_of s k"
    using keepsD [OF session_command_keeps Cons.prems(1) step] untouched_step [of s k m] Cons.prems
    by auto
  with Cons step show ?case by (cases r) (auto simp: attempt_def)
qed simp

lemma spawned_simps [simp]:
  "vs_spawned (reply r s) = vs_spawned s"
  "vs_spawned (stop_watcher k s) = vs_spawned s"
  "vs_shutdown (reply r s) = vs_shutdown s"
  "vs_shutdown (stop_watcher k s) = vs_shutdown s"
  "vs_shutdown (start_watcher q s) = vs_shutdown s"
  by (simp_all add: reply_def stop_watcher_def start_watcher_def insert_watcher_def Let_def)

interpretation session_keeper: actor handle_session_command vs_ok "\<lambda>_. True"
  by unfold_locales (rule session_command_keeps)

definition ends_watch :: "uuid \<Rightarrow> vpn_session_command \<Rightarrow> bool" where
  "ends_watch k c \<longleftrightarrow> (case c of
      EndSessionCmd e \<Rightarrow> es_request_id e = k
    | ClientConnectedCmd cc \<Rightarrow> cc_request_id cc = k
    | _ \<Rightarrow> False)"

lemma stopped_by:
  assumes "vs_ok s" and "ends_watch k c" and "(i, q) \<in> set (vs_spawned s)" and "req_request_id q = k"
  shows "told_to_stop (snd (handle_session_command (v, c) s)) i"
proof -
  let ?s = "snd (handle_session_command (v, c) s)"
  have "vs_ok ?s" using session_command_keeps [of "(v, c)"] assms(1) by (simp add: keeps_def)
  moreover have "vs_spawned ?s = vs_spawned s" and "watcher_of ?s k = None"
    using assms(1,2)
    by (cases c; simp add: ends_watch_def on_end_session_def on_client_connected_def prog_simps
        spawn_reply_run watcher_of_stop)+
  ultimately show ?thesis using running_watcher [of ?s i q] assms(3,4) by simp
qed

lemma shutdown_step:
  "session_server_calm (fst m) \<Longrightarrow> handle_session_command m s = (r, s') \<Longrightarrow>
     r = Ok () \<and> vs_shutdown s' = (vs_shutdown s \<or> snd m = ShutdownCmd)"
  by (cases m rule: handle_session_command.cases)
    (auto simp: on_new_session_def on_end_session_def on_client_connected_def on_list_locations_def
      prog_simps spawn_reply_run session_server_calm_def on_new_session_inner_def is_panic_res_bind
      dest: is_panic_iff [THEN iffD2, OF exI] split: res.splits if_splits)

lemma session_loop_run:
  assumes "\<forall>c \<in> set cs. session_server_calm (fst c)" and "\<not> vs_shutdown s"
  shows "\<exists>s'. session_loop cs s = (Ok (), s') \<and> vs_shutdown s' = (ShutdownCmd \<in> snd ` set cs)"
  using assms
proof (induction cs arbitrary: s)
  case (Cons c cs)
  obtain r s1 where step: "handle_session_command c s = (r, s1)" by fastforce
  then have "r = Ok ()" and "vs_shutdown s1 = (snd c = ShutdownCmd)"
    using shutdown_step [of c s r s1] Cons.prems by auto
  with Cons step show ?case by (auto simp: prog_simps)
qed simp

fun is_ok :: "('a, 'e) res \<Rightarrow> bool" where
  "is_ok (Ok x) = True"
| "is_ok r = False"

lemma retry_find:
  "\<forall>x \<in> set (r # rs). \<not> is_panic x \<Longrightarrow>
     retry r rs = (case find is_ok (r # rs) of Some x \<Rightarrow> x | None \<Rightarrow> last (r # rs))"
  by (induction r rs rule: retry.induct) (auto split: option.split)

section \<open>Properties\<close>

text \<open>C20: whatever commands the session service handles, two watchers that are not told to stop
  are never for the same request.\<close>

theorem watchers_unique:
  assumes "serve handle_session_command cs session_service_new = (r, s)"
    and "(i, q) \<in> set (vs_spawned s)" and "(j, q') \<in> set (vs_spawned s)"
    and "req_request_id q = req_request_id q'" and "\<not> told_to_stop s i" and "\<not> told_to_stop s j"
  shows "i = j"
proof -
  have "vs_ok s" by (rule session_keeper.serve_good [OF _ vs_ok_new assms(1)]) simp
  then show ?thesis using one_watcher_per_request assms(2-6) by blast
qed

definition sample_session_server :: session_server where
  "sample_session_server = \<lparr>ss_connect = Ok (),
     ss_new_session = (\<lambda>ns. Ok \<lparr>acc_request_id = ns_request_id ns, acc_vpn_session_uuid = 9\<rparr>),
     ss_client_connected = (\<lambda>c. Ok ()), ss_list_locations = Ok [],
     ss_first_attempt = \<lparr>ea_connect = Err ''down'', ea_answer = (\<lambda>e. Err \<lparr>st_code = Internal, st_message = []\<rparr>)\<rparr>,
     ss_retries = [\<lparr>ea_connect = Ok (), ea_answer = (\<lambda>e. Ok \<lparr>en_request_id = es_request_id e,
       en_vpn_session_uuid = es_vpn_session_uuid e, en_reason = es_reason e\<rparr>)\<rparr>]\<rparr>"

definition sample_watched :: session_service where
  \<comment> \<open>after one accepted session\<close>
  "sample_watched = snd (handle_session_command (sample_session_server,
     NewSessionCmd \<lparr>ns_request_id = 5, ns_device_unique_id = 1, ns_location_code = []\<rparr>) session_service_new)"

lemma sample_watched_run:
  "sample_watched = \<lparr>vs_watchers = [(5, 0)],
     vs_spawned = [(0, \<lparr>req_request_id = 5, req_device_unique_id = 1, req_vpn_session_uuid = 9\<rparr>)],
     vs_shutdown = False, vs_replies = [AcceptedReply (Ok \<lparr>acc_request_id = 5, acc_vpn_session_uuid = 9\<rparr>)]\<rparr>"
  by (simp add: sample_watched_def on_new_session_def on_new_session_inner_def sample_session_server_def
      prog_simps start_watcher_def insert_watcher_def reply_def session_service_new_def Let_def)

lemma sample_twice_run:
  "serve handle_session_command (replicate 2 (sample_session_server,
     NewSessionCmd \<lparr>ns_request_id = 5, ns_device_unique_id = 1, ns_location_code = []\<rparr>)) session_service_new
   = (Ok (), \<lparr>vs_watchers = [(5, 1)],
       vs_spawned = [(0, \<lparr>req_request_id = 5, req_device_unique_id = 1, req_vpn_session_uuid = 9\<rparr>),
         (1, \<lparr>req_request_id = 5, req_device_unique_id = 1, req_vpn_session_uuid = 9\<rparr>)],
       vs_shutdown = False,
       vs_replies = replicate 2 (AcceptedReply (Ok \<lparr>acc_request_id = 5, acc_vpn_session_uuid = 9\<rparr>))\<rparr>)"
  by (simp add: numeral_2_eq_2 on_new_session_def on_new_session_inner_def sample_session_server_def
      prog_simps start_watcher_def insert_watcher_def reply_def session_service_new_def Let_def)

theorem watchers_unique_witness:
  "told_to_stop (snd (serve handle_session_command (replicate 2 (sample_session_server,
     NewSessionCmd \<lparr>ns_request_id = 5, ns_device_unique_id = 1, ns_location_code = []\<rparr>)) session_service_new)) 0"
  using watchers_unique [OF sample_twice_run,
      of 0 "\<lparr>req_request_id = 5, req_device_unique_id = 1, req_vpn_session_uuid = 9\<rparr>" 1
         "\<lparr>req_request_id = 5, req_device_unique_id = 1, req_vpn_session_uuid = 9\<rparr>"]
  by (simp add: sample_twice_run told_to_stop_def)

text \<open>Handling the end of a session, or the client's connection, tells every watcher of that
  request to stop.\<close>

lemma ended_session_unwatched:
  assumes "vs_ok s" and "ends_watch k c" and "(i, q) \<in> set (vs_spawned s)" and "req_request_id q = k"
  shows "told_to_stop (snd (handle_session_command (v, c) s)) i"
  using assms by (rule stopped_by)

text \<open>The service runs to its end without a panic, acknowledges the shutdown exactly when one
  was requested, and leaves every watcher told to stop (though the map over the senders is
  never run, they are dropped).\<close>

lemma session_run_stops_all:
  assumes "\<forall>c \<in> set cs. session_server_calm (fst c)"
  shows "fst (session_run cs session_service_new) = Ok (ShutdownCmd \<in> snd ` set cs)
     \<and> (\<forall>i. told_to_stop (snd (session_run cs session_service_new)) i)"
  using session_loop_run [OF assms, of session_service_new]
  by (force simp: session_run_def prog_simps told_to_stop_def session_service_new_def)

text \<open>Ending a session on the server is retried: the answer is the first success among the
  attempts, and the last error when there is none.\<close>

lemma end_session_retried:
  assumes "as = map (end_once e) (ss_first_attempt v # ss_retries v)" and "\<forall>r \<in> set as. \<not> is_panic r"
  shows "on_end_session_inner v e = (case find is_ok as of Some r \<Rightarrow> r | None \<Rightarrow> last as)"
  using retry_find [of "end_once e (ss_first_attempt v)" "map (end_once e) (ss_retries v)"] assms(2)
  unfolding assms(1) on_end_session_inner_def list.map by blast

end
