(* ===== verification/Watcher.thy ===== *)
theory Watcher
  imports Session_Storage
begin

text \<open>
  modvpn-daemon/src/vpn\_session/watcher.rs: the task that asks the server once a second for the
  status of a session and tells the daemon when it changes. The task is driven by a list of
  events: a tick with the server's answer, or the shutdown signal. What it sends is specified by
  HOL's \<open>remdups\_adj\<close>: the statuses seen, without immediate repetitions, up to the first final
  one.
\<close>

section \<open>The task\<close>

record watch_answer =
  wa_connect :: "(unit, string) res"
  wa_status :: "(vpn_session_status, grpc_status) res"
  wa_daemon_up :: bool  \<comment> \<open>the daemon still receives\<close>

datatype watch_event = Tick watch_answer | WatcherShutdown

record watcher =
  w_last :: "vpn_session_status option"  \<comment> \<open>\<open>last\_watch\<close>\<close>
  w_sent :: "vpn_session_status list"  \<comment> \<open>what the daemon received\<close>

definition watcher_new :: watcher where
  "watcher_new = \<lparr>w_last = None, w_sent = []\<rparr>"

fun final_status :: "vpn_session_status \<Rightarrow> bool" where
  "final_status (SessFailed f) = True"
| "final_status (SessServerReady s) = True"
| "final_status (SessClientConnected c) = True"
| "final_status (SessEnded e) = True"
| "final_status (SessServerCreated s) = False"
| "final_status (SessServerRunning s) = False"
| "final_status (SessAccepted a) = False"

definition watch_status :: "bool \<Rightarrow> vpn_session_status \<Rightarrow> (watcher, bool, unit) prog" where
  \<comment> \<open>the branch where the server answered\<close>
  "watch_status up st w =
     (let last = w_last w;
          w1 = w\<lparr>w_last := Some st\<rparr>
      in if last = Some st then (Ok False, w1)
         else if \<not> up then (Ok True, w1)
         else (Ok (final_status st), w1\<lparr>w_sent := w_sent w1 @ [st]\<rparr>))"

definition watch_ended :: "watch_answer \<Rightarrow> (watcher, bool, unit) prog" where
  "watch_ended a =
     (case wa_connect a of
        Ok u \<Rightarrow>
          (case wa_status a of
             Ok st \<Rightarrow> watch_status (wa_daemon_up a) st
           | Err e \<Rightarrow> ret False
           | Panic m \<Rightarrow> give (Panic m))
      | Err e \<Rightarrow> ret False
      | Panic m \<Rightarrow> give (Panic m))"

fun watch_run :: "watch_event list \<Rightarrow> (watcher, bool, unit) prog" where
  \<comment> \<open>\<open>True\<close>: the watcher stopped; \<open>False\<close>: it still waits for the next event\<close>
  "watch_run [] = ret False"
| "watch_run (WatcherShutdown # es) = ret True"
| "watch_run (Tick a # es) =
     and_then (watch_ended a) (\<lambda>stop. if stop then ret True else watch_run es)"

section \<open>What it sends\<close>

definition seen :: "watch_event \<Rightarrow> vpn_session_status option" where
  \<comment> \<open>the status a tick sees\<close>
  "seen e = (case e of
      Tick a \<Rightarrow> (case (wa_connect a, wa_status a) of (Ok u, Ok st) \<Rightarrow> Some st | _ \<Rightarrow> None)
    | WatcherShutdown \<Rightarrow> None)"

fun until_final :: "vpn_session_status list \<Rightarrow> vpn_session_status list" where
  "until_final [] = []"
| "until_final (st # sts) = st # (if final_status st then [] else until_final sts)"

definition calm_tick :: "watch_event \<Rightarrow> bool" where
  \<comment> \<open>the answer decodes and the daemon is there\<close>
  "calm_tick e = (case e of
      Tick a \<Rightarrow> \<not> is_panic (wa_connect a) \<and> \<not> is_panic (wa_status a) \<and> wa_daemon_up a
    | WatcherShutdown \<Rightarrow> True)"

definition before_shutdown :: "watch_event list \<Rightarrow> watch_event list" where
  "before_shutdown = takeWhile (\<lambda>e. e \<noteq> WatcherShutdown)"

lemma until_final_prefix: "\<exists>zs. xs = until_final xs @ zs"
  by (induction xs) auto

lemma until_final_last: "x \<in> set (butlast (until_final xs)) \<Longrightarrow> \<not> final_status x"
  by (induction xs) (auto split: if_splits)

lemma remdups_adj_Cons_cases:
  "remdups_adj (x # xs) = x # (case remdups_adj xs of [] \<Rightarrow> [] | y # ys \<Rightarrow> if x = y then ys else y # ys)"
  by (cases xs) (auto simp: remdups_adj_Cons split: list.split)

lemma tick_cases:
  assumes "calm_tick (Tick a)"
  obtains (none) "seen (Tick a) = None" and "watch_ended a = ret False"
  | (some) st where "seen (Tick a) = Some st" and "watch_ended a = watch_status True st"
  using assms
  by (cases "wa_connect a"; cases "wa_status a") (auto simp: calm_tick_def seen_def watch_ended_def)

text \<open>From a state whose last status is \<open>l\<close>, the rest of the run sends what comes after \<open>l\<close>.\<close>

lemma watch_run_from:
  assumes "\<forall>e \<in> set es. calm_tick e" and "\<not> final_status l" and "w_last w = Some l"
  shows "w_sent (snd (watch_run es w)) =
     w_sent w @ until_final (tl (remdups_adj (l # List.map_filter seen (before_shutdown es))))"
  using assms
proof (induction es arbitrary: w l)
  case Nil
  then show ?case by (simp add: before_shutdown_def List.map_filter_simps)
next
  case (Cons e es)
  show ?case
  proof (cases e)
    case WatcherShutdown
    then show ?thesis by (simp add: before_shutdown_def List.map_filter_simps)
  next
    case (Tick a)
    with Cons.prems have "calm_tick (Tick a)" by simp
    then show ?thesis
    proof (cases rule: tick_cases)
      case none
      then show ?thesis
        using Cons.IH [of l w] Cons.prems Tick
        by (simp add: prog_simps before_shutdown_def List.map_filter_simps)
    next
      case (some st)
      let ?rest = "List.map_filter seen (before_shutdown es)"
      have seq: "List.map_filter seen (before_shutdown (e # es)) = st # ?rest"
        using some Tick by (simp add: before_shutdown_def List.map_filter_simps)
      consider "st = l" | "st \<noteq> l" "final_status st" | "st \<noteq> l" "\<not> final_status st" by blast
      then show ?thesis
      proof cases
        case 1
        then show ?thesis
          using Cons.IH [of l "w\<lparr>w_last := Some l\<rparr>"] Cons.prems Tick some seq
          by (simp add: prog_simps watch_status_def)
      next
        case 2
        then show ?thesis
          using Cons.prems Tick some seq
          by (simp add: prog_simps watch_status_def remdups_adj_Cons_cases [of st])
      next
        case 3
        then show ?thesis
          using Cons.IH [of st "w\<lparr>w_last := Some st, w_sent := w_sent w @ [st]\<rparr>"] Cons.prems Tick some seq
          by (simp add: prog_simps watch_status_def remdups_adj_Cons_cases [of st])
      qed
    qed
  qed
qed

lemma watch_run_fresh:
  assumes "\<forall>e \<in> set es. calm_tick e" and "w_last w = None"
  shows "w_sent (snd (watch_run es w)) =
     w_sent w @ until_final (remdups_adj (List.map_filter seen (before_shutdown es)))"
  using assms
proof (induction es)
  case Nil
  then show ?case by (simp add: before_shutdown_def List.map_filter_simps)
next
  case (Cons e es)
  show ?case
  proof (cases e)
    case WatcherShutdown
    then show ?thesis by (simp add: before_shutdown_def List.map_filter_simps)
  next
    case (Tick a)
    with Cons.prems have "calm_tick (Tick a)" by simp
    then show ?thesis
    proof (cases rule: tick_cases)
      case none
      then show ?thesis
        using Cons Tick by (simp add: prog_simps before_shutdown_def List.map_filter_simps)
    next
      case (some st)
      have seq: "List.map_filter seen (before_shutdown (e # es))
          = st # List.map_filter seen (before_shutdown es)"
        using some Tick by (simp add: before_shutdown_def List.map_filter_simps)
      show ?thesis
        using watch_run_from [of es st "w\<lparr>w_last := Some st, w_sent := w_sent w @ [st]\<rparr>"]
          Cons.prems Tick some seq
        by (simp add: prog_simps watch_status_def remdups_adj_Cons_cases [of st])
    qed
  qed
qed

section \<open>When it ends\<close>

definition undecodable :: "watch_event \<Rightarrow> string option" where
  \<comment> \<open>the panic of a tick: in connecting, or in decoding the answer\<close>
  "undecodable e = (case e of
      Tick a \<Rightarrow> (case wa_connect a of
          Panic m \<Rightarrow> Some m
        | Ok u \<Rightarrow> (case wa_status a of Panic m \<Rightarrow> Some m | _ \<Rightarrow> None)
        | Err x \<Rightarrow> None)
    | WatcherShutdown \<Rightarrow> None)"

definition receiver_gone :: "watch_event \<Rightarrow> bool" where
  "receiver_gone e = (case e of Tick a \<Rightarrow> \<not> wa_daemon_up a | WatcherShutdown \<Rightarrow> False)"

definition last_seen :: "vpn_session_status option \<Rightarrow> watch_event list \<Rightarrow> vpn_session_status option" where
  "last_seen l es = (case List.map_filter seen es of [] \<Rightarrow> l | sts \<Rightarrow> Some (last sts))"

definition ends_watch :: "vpn_session_status option \<Rightarrow> watch_event list \<Rightarrow> nat \<Rightarrow> bool" where
  \<comment> \<open>the event with this number ends the watch, if no earlier one has\<close>
  "ends_watch l es i \<longleftrightarrow> es ! i = WatcherShutdown \<or> undecodable (es ! i) \<noteq> None
     \<or> (case seen (es ! i) of
          None \<Rightarrow> False
        | Some st \<Rightarrow> (\<exists>f. st = SessFailed f) \<or> (\<exists>r. st = SessServerReady r)
            \<or> (\<exists>c. st = SessClientConnected c) \<or> (\<exists>x. st = SessEnded x)
            \<or> (receiver_gone (es ! i) \<and> last_seen l (take i es) \<noteq> Some st))"

definition first_end :: "vpn_session_status option \<Rightarrow> watch_event list \<Rightarrow> nat option" where
  "first_end l es = find (ends_watch l es) [0..<length es]"

lemma last_seen_Cons: "last_seen l (e # es) = last_seen (case seen e of None \<Rightarrow> l | Some st \<Rightarrow> Some st) es"
  by (cases "List.map_filter seen es") (simp_all add: last_seen_def List.map_filter_simps split: option.split)

lemma ends_watch_Suc: "ends_watch l (e # es) (Suc i) =
    ends_watch (case seen e of None \<Rightarrow> l | Some st \<Rightarrow> Some st) es i"
  by (simp add: ends_watch_def last_seen_Cons cong: option.case_cong)

lemma find_map: "find P (map f xs) = map_option f (find (P \<circ> f) xs)"
  by (induction xs) auto

lemma first_end_Cons: "first_end l (e # es) =
    (if ends_watch l (e # es) 0 then Some 0
     else map_option Suc (first_end (case seen e of None \<Rightarrow> l | Some st \<Rightarrow> Some st) es))"
proof -
  have "[0..<length (e # es)] = 0 # map Suc [0..<length es]"
    by (simp add: upt_conv_Cons map_Suc_upt del: upt_Suc)
  moreover have "ends_watch l (e # es) \<circ> Suc = ends_watch (case seen e of None \<Rightarrow> l | Some st \<Rightarrow> Some st) es"
    by (simp add: fun_eq_iff ends_watch_Suc)
  ultimately show ?thesis unfolding first_end_def by (simp add: find_map)
qed

definition fate :: "vpn_session_status option \<Rightarrow> watch_event list \<Rightarrow> (bool, unit) res" where
  "fate l es = (case first_end l es of
      None \<Rightarrow> Ok False
    | Some i \<Rightarrow> (case undecodable (es ! i) of Some m \<Rightarrow> Panic m | None \<Rightarrow> Ok True))"

lemma fate_later:
  "\<not> ends_watch l (e # es) 0 \<Longrightarrow> fate l (e # es) = fate (case seen e of None \<Rightarrow> l | Some st \<Rightarrow> Some st) es"
  by (simp add: fate_def first_end_Cons split: option.split)

lemma fate_now:
  "ends_watch l (e # es) 0 \<Longrightarrow> fate l (e # es) = (case undecodable e of Some m \<Rightarrow> Panic m | None \<Rightarrow> Ok True)"
  by (simp add: fate_def first_end_Cons split: option.split)

lemma final_iff: "final_status st \<longleftrightarrow> (\<exists>f. st = SessFailed f) \<or> (\<exists>r. st = SessServerReady r)
    \<or> (\<exists>c. st = SessClientConnected c) \<or> (\<exists>x. st = SessEnded x)"
  by (cases st) simp_all

lemma watch_fate:
  assumes "\<forall>l. w_last w = Some l \<longrightarrow> \<not> final_status l"
  shows "fst (watch_run es w) = fate (w_last w) es"
  using assms
proof (induction es arbitrary: w)
  case Nil
  then show ?case by (simp add: fate_def first_end_def)
next
  case (Cons e es)
  show ?case
  proof (cases e)
    case WatcherShutdown
    then show ?thesis by (simp add: fate_now ends_watch_def undecodable_def)
  next
    case (Tick a)
    note defs = final_iff ends_watch_def undecodable_def seen_def receiver_gone_def last_seen_def List.map_filter_simps
    show ?thesis
    proof (cases "\<exists>u st. wa_connect a = Ok u \<and> wa_status a = Ok st")
      case True
      then obtain st where a: "wa_connect a = Ok ()" "wa_status a = Ok st" by auto
      then have seen: "seen e = Some st" using Tick by (simp add: seen_def)
      consider "w_last w = Some st" | "w_last w \<noteq> Some st" "wa_daemon_up a" "\<not> final_status st"
        | "w_last w \<noteq> Some st" "\<not> wa_daemon_up a \<or> final_status st" by blast
      then show ?thesis
      proof cases
        case 1
        then have "\<not> final_status st" using Cons.prems by simp
        with 1 a Tick have now: "\<not> ends_watch (w_last w) (e # es) 0" by (simp add: defs)
        have "fate (w_last w) (e # es) = fate (Some st) es" using fate_later [OF now] seen by simp
        then show ?thesis using Cons.IH [of "w\<lparr>w_last := Some st\<rparr>"] Cons.prems 1 a
          unfolding Tick by (simp add: prog_simps watch_ended_def watch_status_def)
      next
        case 2
        with a Tick have now: "\<not> ends_watch (w_last w) (e # es) 0" by (simp add: defs)
        have "fate (w_last w) (e # es) = fate (Some st) es" using fate_later [OF now] seen by simp
        then show ?thesis using Cons.IH [of "w\<lparr>w_last := Some st, w_sent := w_sent w @ [st]\<rparr>"] 2 a
          unfolding Tick by (simp add: prog_simps watch_ended_def watch_status_def)
      next
        case 3
        with a Tick have now: "ends_watch (w_last w) (e # es) 0" by (auto simp: defs)
        have "fate (w_last w) (e # es) = Ok True" using fate_now [OF now] a Tick by (simp add: undecodable_def)
        then show ?thesis using 3 a
          unfolding Tick by (auto simp: prog_simps watch_ended_def watch_status_def Let_def)
      qed
    next
      case False
      show ?thesis
      proof (cases "undecodable e")
        case None
        with False Tick have w: "watch_ended a w = (Ok False, w)" and none: "seen e = None"
          by (cases "wa_connect a"; cases "wa_status a"; simp add: watch_ended_def undecodable_def seen_def)+
        have now: "\<not> ends_watch (w_last w) (e # es) 0" using None none Tick by (simp add: ends_watch_def)
        have "fate (w_last w) (e # es) = fate (w_last w) es" using fate_later [OF now] none by simp
        then show ?thesis using Cons.IH [OF Cons.prems] w unfolding Tick by (simp add: prog_simps)
      next
        case (Some m)
        then have now: "ends_watch (w_last w) (e # es) 0" by (simp add: ends_watch_def)
        have "fst (watch_ended a w) = Panic m" using Some Tick
          by (cases "wa_connect a"; cases "wa_status a"; simp add: watch_ended_def undecodable_def)
        then show ?thesis using fate_now [OF now] Some unfolding Tick
          by (cases "watch_ended a w") (simp add: prog_simps)
      qed
    qed
  qed
qed

section \<open>Properties\<close>

text \<open>C18: a watcher sends the daemon exactly the statuses it sees, without immediate repetitions,
  up to the first final one, however its ticks interleave with errors of the server and with the
  shutdown signal.\<close>

theorem watcher_sends_changes:
  assumes "\<forall>e \<in> set es. calm_tick e"
  shows "w_sent (snd (watch_run es watcher_new)) =
     until_final (remdups_adj (List.map_filter seen (before_shutdown es)))"
  using watch_run_fresh [OF assms, of watcher_new] by (simp add: watcher_new_def)

theorem watcher_sends_changes_witness:
  "w_sent (snd (watch_run
      [Tick \<lparr>wa_connect = Ok (), wa_status = Ok (SessFailed \<lparr>fl_request_id = 1, fl_vpn_session_uuid = 2\<rparr>),
             wa_daemon_up = True\<rparr>] watcher_new))
   = [SessFailed \<lparr>fl_request_id = 1, fl_vpn_session_uuid = 2\<rparr>]"
  using watcher_sends_changes [of "[Tick \<lparr>wa_connect = Ok (),
      wa_status = Ok (SessFailed \<lparr>fl_request_id = 1, fl_vpn_session_uuid = 2\<rparr>), wa_daemon_up = True\<rparr>]"]
  by (simp add: calm_tick_def before_shutdown_def List.map_filter_simps seen_def)

text \<open>C19: exactly when a watcher ends, for any list of events. The first of these events ends it, and
  nothing else does: the shutdown signal; a tick that sees the status failed, ready, connected or ended; a
  tick that sees a status other than the last one seen while the daemon no longer receives; and
  a tick that panics, because it cannot build its channel or decode the answer, which kills
  the task instead of stopping it. An error of the server, a failed connection and a repeated status let it go on.\<close>

theorem watcher_stops_iff:
  "fst (watch_run es watcher_new) =
     (case find (\<lambda>i. ends_watch None es i) [0..<length es] of
        None \<Rightarrow> Ok False
      | Some i \<Rightarrow> (case undecodable (es ! i) of Some m \<Rightarrow> Panic m | None \<Rightarrow> Ok True))"
  using watch_fate [of watcher_new es] by (simp add: watcher_new_def fate_def first_end_def)

end
