(* ===== verification/Reclaimer.thy ===== *)
theory Reclaimer
  imports Session_Storage Device
begin

text \<open>
  modvpn-daemon/src/vpn\_session/reclaimer.rs: once a minute every session marked for deletion
  whose server id is known is ended on the server, and its row is deleted when the server has
  confirmed, or refused. The answers of the session service are a function of the request; a
  service that is down answers \<open>VpnSessionServiceDown\<close>.
\<close>

type_synonym end_answers = "end_session \<Rightarrow> (ended, vpn_session_error) res"

definition reclaim_request :: "uuid \<Rightarrow> session_info \<Rightarrow> end_session" where
  "reclaim_request dev i = \<lparr>es_request_id = si_request_id i, es_device_unique_id = dev,
     es_vpn_session_uuid = si_vpn_session_id i, es_reason = ''reclaimed''\<rparr>"

definition reclaim_session ::
    "lib \<Rightarrow> end_answers \<Rightarrow> uuid \<Rightarrow> session_info \<Rightarrow> (db, unit, db_err) prog" where
  "reclaim_session L answer dev i =
     (case answer (reclaim_request dev i) of
        Ok e \<Rightarrow> attempt (storage_delete L (si_request_id i)) (\<lambda>_. ret ())
      | Err VpnSessionServiceDown \<Rightarrow> ret ()
      | Err (VpnConnectionError e) \<Rightarrow> ret ()
      | Err (VpnServerError st) \<Rightarrow> attempt (storage_delete L (si_request_id i)) (\<lambda>_. ret ())
      | Panic m \<Rightarrow> give (Panic m))"

fun reclaim_each ::
    "lib \<Rightarrow> end_answers \<Rightarrow> uuid \<Rightarrow> session_info list \<Rightarrow> (db, unit, db_err) prog" where
  "reclaim_each L answer dev [] = ret ()"
| "reclaim_each L answer dev (i # is) =
     and_then (reclaim_session L answer dev i) (\<lambda>_. reclaim_each L answer dev is)"

definition reclaim :: "lib \<Rightarrow> end_answers \<Rightarrow> (db, unit, db_err) prog" where
  "reclaim L answer =
     attempt (storage_to_reclaim L) (\<lambda>r. case r of
       Ok sessions \<Rightarrow>
         attempt (get_device L) (\<lambda>v. case v of
           Ok (Some dd) \<Rightarrow> reclaim_each L answer (dd_unique_id dd) sessions
         | _ \<Rightarrow> ret ())
     | _ \<Rightarrow> ret ())"

text \<open>The loop: it waits a second the first time and a minute after each round.\<close>

datatype reclaimer_event = Elapsed end_answers | ReclaimerShutdown

fun reclaimer_run :: "lib \<Rightarrow> nat \<Rightarrow> reclaimer_event list \<Rightarrow> (db, nat list, db_err) prog" where
  \<comment> \<open>the result lists the waits, in seconds\<close>
  "reclaimer_run L duration [] = ret [duration]"
| "reclaimer_run L duration (ReclaimerShutdown # es) = ret [duration]"
| "reclaimer_run L duration (Elapsed answer # es) =
     and_then (reclaim L answer) (\<lambda>_.
     and_then (reclaimer_run L 60 es) (\<lambda>ds. ret (duration # ds)))"

section \<open>What a round deletes\<close>

definition settled :: "(ended, vpn_session_error) res \<Rightarrow> bool" where
  \<comment> \<open>the server answered, whatever it said\<close>
  "settled r \<longleftrightarrow> (case r of Ok e \<Rightarrow> True | Err (VpnServerError st) \<Rightarrow> True | _ \<Rightarrow> False)"

definition reclaimed :: "lib \<Rightarrow> end_answers \<Rightarrow> uuid \<Rightarrow> session_row \<Rightarrow> bool" where
  "reclaimed L answer dev r \<longleftrightarrow> row_mark_for_deletion r \<and> reclaimable L r
     \<and> settled (answer (reclaim_request dev (the (row_info L r))))"

definition answers_calm :: "end_answers \<Rightarrow> bool" where
  "answers_calm answer \<longleftrightarrow> (\<forall>e. \<not> is_panic (answer e))"

lemma reclaim_session_run:
  "reliable d \<Longrightarrow> answers_calm answer \<Longrightarrow> reclaim_session L answer dev i d =
     (Ok (), if settled (answer (reclaim_request dev i))
        then vpn_sessions_update (filter (\<lambda>r. \<not> has_id (uuid_to_string L (si_request_id i)) r)) d
        else d)"
  by (cases "answer (reclaim_request dev i)")
    (auto simp: reclaim_session_def settled_def prog_simps answers_calm_def
      split: vpn_session_error.split, metis is_panic.simps(1))

lemma reclaim_each_run:
  "reliable d \<Longrightarrow> answers_calm answer \<Longrightarrow> reclaim_each L answer dev is d =
     (Ok (), vpn_sessions_update (filter (\<lambda>r. \<not> (\<exists>i \<in> set is. settled (answer (reclaim_request dev i))
        \<and> has_id (uuid_to_string L (si_request_id i)) r))) d)"
proof (induction "is" arbitrary: d)
  case Nil
  then show ?case by (simp add: ret_def)
next
  case (Cons i "is")
  let ?d = "if settled (answer (reclaim_request dev i))
    then vpn_sessions_update (filter (\<lambda>r. \<not> has_id (uuid_to_string L (si_request_id i)) r)) d else d"
  have "reliable ?d" using Cons.prems by simp
  from Cons.IH [OF this Cons.prems(2)] Cons.prems show ?case
    by (auto simp: prog_simps reclaim_session_run comp_def filter_filter
        intro!: arg_cong [of _ _ "\<lambda>rs. d\<lparr>vpn_sessions := rs\<rparr>"] filter_cong)
qed

lemma row_info_id:
  assumes "row_ok L r" and "reclaimable L r"
  shows "uuid_to_string L (si_request_id (the (row_info L r))) = row_request_id r"
  using assms by (auto simp: row_ok_def row_info_def reclaimable_def elim!: canonical_idE
      split: option.splits)

lemma reclaim_round_run:
  assumes "reliable d" and ok: "rows_ok L d" and "answers_calm answer"
    and "get_device L d = (Ok (Some dd), d)"
  shows "reclaim L answer d =
     (Ok (), vpn_sessions_update (filter (\<lambda>r. \<not> reclaimed L answer (dd_unique_id dd) r)) d)"
proof -
  let ?marked = "filter (reclaimable L) (filter row_mark_for_deletion (vpn_sessions d))"
  let ?infos = "map (\<lambda>r. the (row_info L r)) ?marked"
  have "(\<exists>i \<in> set ?infos. settled (answer (reclaim_request (dd_unique_id dd) i))
          \<and> has_id (uuid_to_string L (si_request_id i)) r)
      \<longleftrightarrow> reclaimed L answer (dd_unique_id dd) r" if r: "r \<in> set (vpn_sessions d)" for r
  proof -
    have same: "x = r" if "x \<in> set (vpn_sessions d)" "row_request_id r = row_request_id x" for x
      using ok r that by (auto simp: rows_ok_def distinct_map inj_on_def)
    have id: "uuid_to_string L (si_request_id (the (row_info L x))) = row_request_id x"
      if "x \<in> set ?marked" for x
      using that ok by (intro row_info_id) (auto simp: rows_ok_def)
    show ?thesis
    proof
      assume "\<exists>i \<in> set ?infos. settled (answer (reclaim_request (dd_unique_id dd) i))
          \<and> has_id (uuid_to_string L (si_request_id i)) r"
      then obtain x where x: "x \<in> set ?marked"
        and s: "settled (answer (reclaim_request (dd_unique_id dd) (the (row_info L x))))"
        and eq: "row_request_id r = row_request_id x"
        using id by auto
      from x eq have "x = r" by (intro same) auto
      with x s show "reclaimed L answer (dd_unique_id dd) r" by (simp add: reclaimed_def)
    next
      assume "reclaimed L answer (dd_unique_id dd) r"
      with r have m: "r \<in> set ?marked"
        and s: "settled (answer (reclaim_request (dd_unique_id dd) (the (row_info L r))))"
        by (auto simp: reclaimed_def)
      have "the (row_info L r) \<in> set ?infos" using m by (auto simp del: set_filter)
      with s id [OF m] show "\<exists>i \<in> set ?infos. settled (answer (reclaim_request (dd_unique_id dd) i))
          \<and> has_id (uuid_to_string L (si_request_id i)) r" by metis
    qed
  qed
  then have "filter (\<lambda>r. \<not> (\<exists>i \<in> set ?infos. settled (answer (reclaim_request (dd_unique_id dd) i))
        \<and> has_id (uuid_to_string L (si_request_id i)) r)) (vpn_sessions d)
      = filter (\<lambda>r. \<not> reclaimed L answer (dd_unique_id dd) r) (vpn_sessions d)"
    by (intro filter_cong) simp_all
  then show ?thesis
    using assms by (simp add: reclaim_def prog_simps reclaim_each_run)
qed

lemma keeps_reclaim_session [keeps_intros]: "keeps (rows_ok M) (reclaim_session L answer dev i)"
  unfolding reclaim_session_def
  by (auto intro!: keeps_intros split: res.split vpn_session_error.split)

lemma keeps_reclaim_each [keeps_intros]: "keeps (rows_ok M) (reclaim_each L answer dev is)"
  by (induction "is") (auto intro!: keeps_intros)

lemma rows_ok_devices [simp]: "rows_ok M (d\<lparr>devices := ds\<rparr>) = rows_ok M d"
  by (simp add: rows_ok_def)

lemma keeps_rows_device_one [keeps_intros]: "keeps (rows_ok M) (sql_one L device_table P)"
  unfolding sql_one_def by (rule keeps_statement) (simp_all add: keeps_def)

lemma keeps_rows_get_device [keeps_intros]:
  "keeps (rows_ok M) (get_device L)" "keeps (rows_ok M) (get_device_unique_id L)"
  unfolding get_device_def get_device_unique_id_def by (auto intro!: keeps_intros split: option.split)

lemma keeps_reclaim_round [keeps_intros]: "keeps (rows_ok M) (reclaim L answer)"
  unfolding reclaim_def by (auto intro!: keeps_intros split: res.split option.split)

lemma reclaim_session_calm:
  "answers_calm answer \<Longrightarrow> no_panic (reclaim_session L answer dev i d)"
  unfolding reclaim_session_def answers_calm_def
  by (cases "answer (reclaim_request dev i)")
    (auto intro!: calm_intros split: vpn_session_error.split, metis is_panic.simps(1))

lemma reclaim_each_calm: "answers_calm answer \<Longrightarrow> no_panic (reclaim_each L answer dev is d)"
  by (induction "is" arbitrary: d) (auto intro!: calm_intros reclaim_session_calm)

lemma reclaim_calm: "answers_calm answer \<Longrightarrow> no_panic (reclaim L answer d)"
  unfolding reclaim_def
  by (auto intro!: calm_intros reclaim_each_calm to_reclaim_calm split: res.split option.split)

section \<open>Properties\<close>

text \<open>C21: one round of the reclaimer deletes exactly the sessions that are marked for deletion,
  known to the server, and confirmed or refused by it; a live session, one whose request could
  not reach the server, and every other row stay.\<close>

theorem reclaim_deletes_settled:
  assumes "reliable d" and "rows_ok L d" and "answers_calm answer"
    and "get_device L d = (Ok (Some dd), d)"
  shows "reclaim L answer d =
     (Ok (), vpn_sessions_update (filter (\<lambda>r. \<not> reclaimed L answer (dd_unique_id dd) r)) d)"
  using assms by (rule reclaim_round_run)

theorem reclaim_deletes_settled_witness:
  "reclaim sample_lib (\<lambda>e. Err VpnSessionServiceDown) sample_db = (Ok (), sample_db)"
  using reclaim_deletes_settled [of sample_db sample_lib "\<lambda>e. Err VpnSessionServiceDown" sample_details]
  by (simp add: rows_ok_def answers_calm_def get_device_run)

text \<open>Whatever statements fail and whatever the server answers, a round neither panics nor
  breaks the table.\<close>

lemma reclaim_safe:
  assumes "rows_ok L d" and "answers_calm answer"
  shows "\<not> is_panic (fst (reclaim L answer d)) \<and> rows_ok L (snd (reclaim L answer d))"
  using reclaim_calm [OF assms(2), of L d] keeps_reclaim_round [of L L answer] assms(1)
  by (simp add: no_panic_def keeps_def)

end
