(* ===== verification/Tunnel_Params.thy ===== *)
theory Tunnel_Params
  imports Session_Storage Device
begin

text \<open>
  modvpn-daemon/src/tunnel.rs: the parameters of the WireGuard tunnel, which the tunnel's state
  machine asks for when it connects. They are put together from the session's row and the
  device's row; the list of networks that stands for the whole internet is a value of
  talpid-types and an argument here.
\<close>

record tunnel_parameters =
  tpar_private_key :: wg_key
  tpar_addresses :: "ipv4 list"
  tpar_public_key :: wg_key
  tpar_allowed_ips :: "string list"
  tpar_endpoint :: socket_addr
  tpar_psk :: "wg_key option"
  tpar_exit_peer :: "string option"
  tpar_ipv4_gateway :: ipv4
  tpar_ipv6_gateway :: "128 word option"
  tpar_fwmark :: "32 word option"
  tpar_mtu :: "16 word option"
  tpar_quantum_resistant :: bool
  tpar_enable_ipv6 :: bool
  tpar_obfuscation :: "string option"

definition TUNNEL_FWMARK :: "32 word" where
  "TUNNEL_FWMARK = 0x686c6565"

definition parameters_of_rows ::
    "lib \<Rightarrow> host \<Rightarrow> string list \<Rightarrow> session_row \<Rightarrow> device_details \<Rightarrow> (tunnel_parameters, string) res" where
  "parameters_of_rows L h nets v dd =
     res_bind (ok_or ''no device addresses found in wireguard metadata''
         (wg_device_addresses (dd_wireguard_meta dd))) (\<lambda>addrs.
     res_bind (ok_or ''no server public key found in vpn session model'' (row_server_public_key v)) (\<lambda>pk.
     res_bind (ok_or (''failed to convert public key from base64: '' @ error_text L pk)
         (key_from_base64 L pk)) (\<lambda>key.
     res_bind (ok_or ''no server ipv4 endpoint found in vpn session model''
         (row_server_ipv4_endpoint v)) (\<lambda>ep.
     res_bind (ok_or (''failed to parse server ipv4 endpoint in vpn session model: '' @ error_text L ep)
         (sock_from_str L ep)) (\<lambda>endpoint.
     res_bind (ok_or ''no server private ipv4 found in vpn session model''
         (row_server_private_ipv4 v)) (\<lambda>gw.
     res_bind (ok_or (''failed to parse server ipv4 in vpn session model: '' @ error_text L gw)
         (ipv4_from_str gw)) (\<lambda>gateway.
       Ok \<lparr>tpar_private_key = wg_private_key (dd_wireguard_meta dd),
           tpar_addresses = [da_ipv4_address addrs],
           tpar_public_key = key, tpar_allowed_ips = nets, tpar_endpoint = endpoint,
           tpar_psk = None, tpar_exit_peer = None, tpar_ipv4_gateway = gateway,
           tpar_ipv6_gateway = None,
           tpar_fwmark = (if host_os h = ''linux'' then Some TUNNEL_FWMARK else None),
           tpar_mtu = None, tpar_quantum_resistant = False, tpar_enable_ipv6 = True,
           tpar_obfuscation = None\<rparr>)))))))"

definition generate_parameter ::
    "lib \<Rightarrow> host \<Rightarrow> string list \<Rightarrow> (db, tunnel_parameters, string) prog" where
  \<comment> \<open>the session is any row of the table, marked for deletion or not\<close>
  "generate_parameter L h nets =
     and_then (with_err db_err_display (sql_one L session_table any_row)) (\<lambda>v.
     and_then (give (ok_or ''no vpn session found during parameter generation'' v)) (\<lambda>session.
     and_then (with_err db_err_display (sql_one L device_table any_row)) (\<lambda>w.
     and_then (give (ok_or ''no device found during parameter generation'' w)) (\<lambda>device.
     and_then (give (device_details_of_row L device)) (\<lambda>dd.
       give (parameters_of_rows L h nets session dd))))))"

datatype generation_error = NoMatchingRelay

definition generate ::
    "lib \<Rightarrow> host \<Rightarrow> string list \<Rightarrow> (db, tunnel_parameters, generation_error) prog" where
  "generate L h nets = with_err (\<lambda>e. NoMatchingRelay) (generate_parameter L h nets)"

section \<open>What the tunnel is given\<close>

lemma parameters_calm [simp]: "\<not> is_panic (parameters_of_rows L h nets v dd)"
  by (simp add: parameters_of_rows_def is_panic_res_bind)

lemma generate_calm: "no_panic (generate L h nets d)"
  unfolding generate_def generate_parameter_def
  by (auto intro!: calm_intros simp: device_details_of_row_calm)

lemma generate_run:
  assumes "reliable d" and "pick_row L (vpn_sessions d) = Some v" and "devices d = [r]"
    and "device_details_of_row L r = Ok dd"
  shows "generate_parameter L h nets d = (parameters_of_rows L h nets v dd, d)"
  using assms by (simp add: generate_parameter_def prog_simps)

text \<open>What the server announced is what the tunnel gets, through the texts of the table.\<close>

lemma parameters_of_ready:
  assumes "sock_ok L" and "key_from_base64 L (sr_public_key sr) = Some key"
    and "wg_device_addresses (dd_wireguard_meta dd) = Some a"
  shows "parameters_of_rows L h nets (set_ready L sr v) dd =
     Ok \<lparr>tpar_private_key = wg_private_key (dd_wireguard_meta dd),
         tpar_addresses = [da_ipv4_address a], tpar_public_key = key, tpar_allowed_ips = nets,
         tpar_endpoint = sr_ipv4_endpoint sr, tpar_psk = None, tpar_exit_peer = None,
         tpar_ipv4_gateway = sr_private_ipv4 sr, tpar_ipv6_gateway = None,
         tpar_fwmark = (if host_os h = ''linux'' then Some TUNNEL_FWMARK else None),
         tpar_mtu = None, tpar_quantum_resistant = False, tpar_enable_ipv6 = True,
         tpar_obfuscation = None\<rparr>"
  using assms
  by (simp add: parameters_of_rows_def set_ready_def ipv4_text_roundtrip)

section \<open>Properties\<close>

definition sample_ready :: server_ready where
  "sample_ready = \<lparr>sr_request_id = 5, sr_vpn_session_uuid = 9,
     sr_public_key = key_to_base64 sample_lib 11, sr_ipv4_endpoint = SocketV4 12 13,
     sr_private_ipv4 = 14\<rparr>"

definition sample_tunnel_db :: db where
  "sample_tunnel_db = sample_db\<lparr>vpn_sessions := [session_row_of sample_lib 5 0 sample_location],
     devices := [set_ipv4 10 (device_row_of_details sample_lib sample_details)]\<rparr>"

lemma sample_tunnel_simps [simp]:
  "reliable sample_tunnel_db"
  "vpn_sessions sample_tunnel_db = [session_row_of sample_lib 5 0 sample_location]"
  "devices sample_tunnel_db = [set_ipv4 10 (device_row_of_details sample_lib sample_details)]"
  "device_details_of_row sample_lib (set_ipv4 10 (device_row_of_details sample_lib sample_details))
     = Ok (with_ipv4 10 sample_details)"
  using set_ipv4_converts [OF sample_converts, of 10 sample_details]
  by (simp_all add: sample_tunnel_db_def)

lemma sample_addresses [simp]:
  "wg_device_addresses (dd_wireguard_meta (with_ipv4 10 sample_details)) = Some \<lparr>da_ipv4_address = 10\<rparr>"
  "wg_private_key (dd_wireguard_meta (with_ipv4 10 sample_details)) = 7"
  by (simp_all add: with_ipv4_def sample_details_def wireguard_default_def)

text \<open>C26: once the server's \<open>ServerReady\<close> is stored for the one session of the table, the
  parameters the tunnel asks for are the ones the server announced: its endpoint, its key and
  its gateway come back unchanged through the texts of the table, with the device's key and
  address.\<close>

theorem tunnel_gets_what_server_announced:
  assumes "reliable d" and "rows_ok L d" and "vpn_sessions d = [r]" and "devices d = [dev]"
    and "session_with L (sr_request_id sr) d = Some r"
    and "device_details_of_row L dev = Ok dd" and "wg_device_addresses (dd_wireguard_meta dd) = Some a"
    and "sock_ok L" and "key_from_base64 L (sr_public_key sr) = Some key"
  shows "fst (generate_parameter L h nets (snd (updated_server_status L now (SessServerReady sr) d))) =
     Ok \<lparr>tpar_private_key = wg_private_key (dd_wireguard_meta dd),
         tpar_addresses = [da_ipv4_address a], tpar_public_key = key, tpar_allowed_ips = nets,
         tpar_endpoint = sr_ipv4_endpoint sr, tpar_psk = None, tpar_exit_peer = None,
         tpar_ipv4_gateway = sr_private_ipv4 sr, tpar_ipv6_gateway = None,
         tpar_fwmark = (if host_os h = ''linux'' then Some TUNNEL_FWMARK else None),
         tpar_mtu = None, tpar_quantum_resistant = False, tpar_enable_ipv6 = True,
         tpar_obfuscation = None\<rparr>"
proof -
  have db: "snd (updated_server_status L now (SessServerReady sr) d)
      = vpn_sessions_update (update_session (row_request_id r) (apply_status L (SessServerReady sr))) d"
    using assms by (simp add: updated_server_status_run)
  have rows: "update_session (row_request_id r) (apply_status L (SessServerReady sr)) [r] = [set_ready L sr r]"
    by (simp add: update_session_def List.map_filter_simps)
  show ?thesis
    unfolding db using assms rows
    by (subst generate_run [where v = "set_ready L sr r" and r = dev and dd = dd])
      (simp_all add: parameters_of_ready)
qed

theorem tunnel_gets_what_server_announced_witness:
  "map_ok tpar_endpoint (fst (generate_parameter sample_lib sample_host []
     (snd (updated_server_status sample_lib 0 (SessServerReady sample_ready) sample_tunnel_db))))
   = Ok (SocketV4 12 13)"
  by (subst tunnel_gets_what_server_announced [where dd = "with_ipv4 10 sample_details" and key = 11
        and a = "\<lparr>da_ipv4_address = 10\<rparr>" and r = "session_row_of sample_lib 5 0 sample_location"])
    (simp_all add: rows_ok_def row_ok_new sample_ready_def session_with_def,
      simp_all add: session_row_of_def unmarked_def)

text \<open>C27: the query for the tunnel's parameters takes any row, while what the daemon does on the
  tunnel's report and on a disconnect asks for a live one. With an old session still marked for
  deletion beside the live one, and the database returning the older row to a query that does not
  order: the tunnel gets the endpoint, gateway and key of the old session; when it reports that it
  is connected, the live session is recorded as the one that is; and a disconnect ends the live
  one.\<close>

theorem tunnel_may_get_stale_session:
  assumes "reliable d" and "rows_ok L d" and "vpn_sessions d = [old, r]"
    and "row_mark_for_deletion old" and "\<not> row_mark_for_deletion r" and "row_session_uuid r \<noteq> None"
    and "row_choice L 2 = 0" and "devices d = [dev]" and "device_details_of_row L dev = Ok dd"
  shows "fst (generate_parameter L h nets d) = parameters_of_rows L h nets old dd
     \<and> vpn_sessions (snd (tunnel_state_transition L now (TunConnected e) cur d))
         = [old, r\<lparr>row_server_status := Some ''ClientConnected''\<rparr>]
     \<and> vpn_sessions (snd (storage_end_session L d)) = [old, r\<lparr>row_mark_for_deletion := True\<rparr>]"
proof -
  have "pick_row L [old, r] = Some old"
    using assms(7) by (simp add: pick_row_def numeral_2_eq_2)
  moreover have live: "picked L d = Some r" using assms(3-5) by (simp add: picked_def unmarked_def)
  moreover have ids: "row_request_id old \<noteq> row_request_id r"
    using assms(2,3) by (simp add: rows_ok_def)
  moreover obtain u where u: "row_session_uuid r = Some u" using assms(6) by blast
  ultimately show ?thesis
    using assms generate_run [of d L old dev dd h nets] tunnel_transition_connected [OF assms(1,2) live u]
      end_session_some [OF assms(1,2), of r]
    by (simp add: picked_def set_status_def mark_row_def)
qed

theorem tunnel_may_get_stale_session_witness:
  "map_ok tpar_endpoint (fst (generate_parameter sample_lib sample_host []
     (sample_tunnel_db\<lparr>vpn_sessions := [mark_row (set_ready sample_lib sample_ready
        (session_row_of sample_lib 4 0 sample_location)),
        (session_row_of sample_lib 5 0 sample_location)\<lparr>row_session_uuid := Some (uuid_to_string sample_lib 9)\<rparr>]\<rparr>)))
   = Ok (SocketV4 12 13)"
proof -
  let ?old = "set_ready sample_lib sample_ready (mark_row (session_row_of sample_lib 4 0 sample_location))"
  have old: "mark_row (set_ready sample_lib sample_ready (session_row_of sample_lib 4 0 sample_location)) = ?old"
    by (simp add: mark_row_def set_ready_def)
  have p: "parameters_of_rows sample_lib sample_host [] ?old (with_ipv4 10 sample_details)
     = Ok \<lparr>tpar_private_key = 7, tpar_addresses = [10], tpar_public_key = 11, tpar_allowed_ips = [],
         tpar_endpoint = SocketV4 12 13, tpar_psk = None, tpar_exit_peer = None,
         tpar_ipv4_gateway = 14, tpar_ipv6_gateway = None, tpar_fwmark = Some TUNNEL_FWMARK,
         tpar_mtu = None, tpar_quantum_resistant = False, tpar_enable_ipv6 = True,
         tpar_obfuscation = None\<rparr>"
    by (subst parameters_of_ready [where key = 11 and a = "\<lparr>da_ipv4_address = 10\<rparr>"])
      (simp_all add: sample_ready_def sample_host_def)
  have choice: "row_choice sample_lib 2 = 0"
    by (simp add: sample_lib_def)
  let ?live = "(session_row_of sample_lib 5 0 sample_location)\<lparr>row_session_uuid := Some (uuid_to_string sample_lib 9)\<rparr>"
  have marks: "row_mark_for_deletion ?old" "\<not> row_mark_for_deletion ?live"
    by (simp_all add: set_ready_def mark_row_def session_row_of_def)
  have "row_ok sample_lib ?live" "row_ok sample_lib ?old"
    by (simp_all add: row_ok_new) (simp add: row_ok_def session_row_of_def)
  moreover have "row_request_id ?old \<noteq> row_request_id ?live"
    by (simp add: set_ready_def mark_row_def session_row_of_def)
  ultimately have ok: "rows_ok sample_lib (sample_tunnel_db\<lparr>vpn_sessions := [?old, ?live]\<rparr>)"
    by (simp add: rows_ok_def)
  show ?thesis
    unfolding old
    using tunnel_may_get_stale_session [OF _ ok, of ?old ?live _ "with_ipv4 10 sample_details" sample_host "[]"]
      p choice marks
    by simp
qed

end
