(* ===== verification/Server_Api.thy ===== *)
theory Server_Api
  imports Session_Service Device_Service Watcher Wire
begin

text \<open>
  modvpn-server/src/lib.rs: the client of the server. Every call encodes its request, sends it
  over a channel that carries the authorization header, and decodes the answer. The remote server
  is the record \<open>wire_server\<close>, its answers at the level of messages; what the services of the
  daemon see of it is computed here from the same record, so that their hypotheses on the server
  become statements on its messages.
\<close>

section \<open>The remote server\<close>

record wire_server =
  ws_list_locations :: "string option \<Rightarrow> (proto_location list, grpc_status) res"
  ws_new_vpn_session :: "string option \<Rightarrow> proto_new_session \<Rightarrow> (proto_ids, grpc_status) res"
  ws_end_vpn_session :: "string option \<Rightarrow> proto_end_session \<Rightarrow> (proto_ended, grpc_status) res"
  ws_connected :: "string option \<Rightarrow> proto_client_connected \<Rightarrow> (unit, grpc_status) res"
  ws_get_status :: "string option \<Rightarrow> proto_client_connected \<Rightarrow> (proto_session_state option, grpc_status) res"
  ws_sign_out :: "string option \<Rightarrow> (unit, grpc_status) res"
  ws_latest_app_version :: "string option \<Rightarrow> (string, grpc_status) res"
  ws_add_device :: "proto_add_device_request \<Rightarrow> (proto_add_device_response, grpc_status) res"

section \<open>Connecting\<close>

record channel_attempt =
  ca_uri_parses :: bool  \<comment> \<open>the configured address is a URI\<close>
  ca_tls :: "(unit, string) res"
  ca_connect :: "(unit, string) res"

definition create_channel :: "channel_attempt \<Rightarrow> (unit, string) res" where
  "create_channel a =
     (if \<not> ca_uri_parses a then Panic ''Failed to parse server uri''
      else res_bind (ca_tls a) (\<lambda>_. ca_connect a))"

definition new_service_client :: "channel_attempt \<Rightarrow> channel_attempt list \<Rightarrow> (unit, string) res" where
  \<comment> \<open>the attempts the backoff makes in its nine seconds\<close>
  "new_service_client a as = retry (create_channel a) (map create_channel as)"

definition new_service_no_auth_client :: "channel_attempt \<Rightarrow> channel_attempt list \<Rightarrow> (unit, string) res" where
  "new_service_no_auth_client a as = retry (create_channel a) (map create_channel as)"

section \<open>The calls\<close>

definition server_location_from_proto :: "proto_location \<Rightarrow> location" where
  "server_location_from_proto v = \<lparr>
     loc_code = pl_code v, loc_country = pl_country v, loc_country_code = pl_country_code v,
     loc_city = pl_city v, loc_city_code = pl_city_code v, loc_state = pl_state v,
     loc_state_code = pl_state_code v, loc_estimate = pl_estimate v \<rparr>"

definition server_locations_from_proto :: "proto_location list \<Rightarrow> location list" where
  "server_locations_from_proto v = map server_location_from_proto v"

definition api_list_locations :: "wire_server \<Rightarrow> string option \<Rightarrow> (location list, grpc_status) res" where
  "api_list_locations W h = map_ok server_locations_from_proto (ws_list_locations W h)"

definition api_new_session ::
    "lib \<Rightarrow> wire_server \<Rightarrow> string option \<Rightarrow> new_session \<Rightarrow> (accepted, grpc_status) res" where
  "api_new_session L W h ns =
     res_bind (ws_new_vpn_session W h (new_session_to_proto L ns)) (accepted_from_proto L)"

definition api_end_session ::
    "lib \<Rightarrow> wire_server \<Rightarrow> string option \<Rightarrow> end_session \<Rightarrow> (ended, grpc_status) res" where
  "api_end_session L W h e =
     res_bind (ws_end_vpn_session W h (end_session_to_proto L e)) (ended_from_proto L)"

definition api_client_connected ::
    "lib \<Rightarrow> wire_server \<Rightarrow> string option \<Rightarrow> client_connected \<Rightarrow> (unit, grpc_status) res" where
  "api_client_connected L W h c = ws_connected W h (client_connected_to_proto L c)"

definition api_get_status ::
    "lib \<Rightarrow> wire_server \<Rightarrow> string option \<Rightarrow> vpn_session_status_request
       \<Rightarrow> (vpn_session_status, grpc_status) res" where
  "api_get_status L W h q =
     res_bind (ws_get_status W h (status_request_to_proto L q)) (vpn_session_status_from_proto L)"

definition api_sign_out :: "wire_server \<Rightarrow> string option \<Rightarrow> (unit, grpc_status) res" where
  "api_sign_out W h = map_ok (\<lambda>_. ()) (ws_sign_out W h)"

definition api_latest_app_version :: "wire_server \<Rightarrow> string option \<Rightarrow> (string, grpc_status) res" where
  "api_latest_app_version W h = ws_latest_app_version W h"

definition api_add_device ::
    "lib \<Rightarrow> wire_server \<Rightarrow> add_device_request \<Rightarrow> (add_device_response, grpc_status) res" where
  "api_add_device L W r =
     res_bind (ws_add_device W (add_device_request_to_proto L r)) add_device_response_from_proto"

section \<open>What the services see of it\<close>

definition end_attempt_of :: "lib \<Rightarrow> wire_server \<Rightarrow> string option \<Rightarrow> (unit, string) res \<Rightarrow> end_attempt" where
  "end_attempt_of L W h c = \<lparr>ea_connect = c, ea_answer = api_end_session L W h\<rparr>"

definition session_server_of ::
    "lib \<Rightarrow> wire_server \<Rightarrow> string option \<Rightarrow> (unit, string) res \<Rightarrow> (unit, string) res list \<Rightarrow> session_server" where
  "session_server_of L W h c cs = \<lparr>ss_connect = c, ss_new_session = api_new_session L W h,
     ss_client_connected = api_client_connected L W h, ss_list_locations = api_list_locations W h,
     ss_first_attempt = end_attempt_of L W h c, ss_retries = map (end_attempt_of L W h) cs\<rparr>"

definition device_server_of :: "lib \<Rightarrow> wire_server \<Rightarrow> (unit, string) res \<Rightarrow> device_server" where
  "device_server_of L W c = \<lparr>srv_connect_no_auth = c, srv_add_device = api_add_device L W,
     srv_connect = c, srv_sign_out = api_sign_out W, srv_latest_app_version = api_latest_app_version W\<rparr>"

definition watch_answer_of ::
    "lib \<Rightarrow> wire_server \<Rightarrow> string option \<Rightarrow> (unit, string) res \<Rightarrow> vpn_session_status_request \<Rightarrow> watch_answer" where
  "watch_answer_of L W h c q = \<lparr>wa_connect = c, wa_status = api_get_status L W h q, wa_daemon_up = True\<rparr>"

section \<open>A server that keeps to the protocol\<close>

definition ids_ok :: "lib \<Rightarrow> proto_ids \<Rightarrow> bool" where
  "ids_ok L a \<longleftrightarrow> ids_parse L [pi_request_id a, pi_vpn_session_uuid a]"

text \<open>
  The library's calls themselves do not panic, every id it announces is the text of a uuid, the
  session it accepts is the one that was asked for, an added device gets an address and a token
  that is a header value.
\<close>

definition wire_ok :: "lib \<Rightarrow> wire_server \<Rightarrow> bool" where
  "wire_ok L W \<longleftrightarrow>
     (\<forall>h p. \<not> is_panic (ws_new_vpn_session W h p)
        \<and> (\<forall>a. ws_new_vpn_session W h p = Ok a \<longrightarrow> ids_ok L a \<and> pi_request_id a = pns_request_id p))
     \<and> (\<forall>h q. \<not> is_panic (ws_get_status W h q)
        \<and> (\<forall>m. ws_get_status W h q = Ok m \<longrightarrow> (\<exists>s. m = Some s \<and> state_parses L s)))
     \<and> (\<forall>r. \<not> is_panic (ws_add_device W r)
        \<and> (\<forall>a. ws_add_device W r = Ok a \<longrightarrow> pads_device_addresses a \<noteq> None \<and> token_safe L (pads_token a)))
     \<and> (\<forall>h. \<not> is_panic (ws_sign_out W h) \<and> \<not> is_panic (ws_latest_app_version W h))"

lemma create_channel_panics_iff:
  "is_panic (create_channel a) \<longleftrightarrow> \<not> ca_uri_parses a \<or> is_panic (ca_tls a)
     \<or> (ca_tls a = Ok () \<and> is_panic (ca_connect a))"
  by (auto simp: create_channel_def is_panic_res_bind)

lemma accepted_echo:
  assumes "uuid_ok L" and "wire_ok L W" and "api_new_session L W h ns = Ok a"
  shows "acc_request_id a = ns_request_id ns"
proof -
  obtain p where p: "ws_new_vpn_session W h (new_session_to_proto L ns) = Ok p"
    and a: "(accepted_from_proto L p :: (accepted, grpc_status) res) = Ok a"
    using assms(3) by (auto simp: api_new_session_def res_bind_Ok_iff)
  have "pi_request_id p = uuid_to_string L (ns_request_id ns)"
    using assms(2) p unfolding wire_ok_def by (metis new_session_to_proto_def proto_new_session.select_convs(1))
  with a assms(1) show ?thesis by (auto simp: accepted_from_proto_def res_bind_Ok_iff)
qed

lemma accepted_panics_iff: "is_panic (accepted_from_proto L a) \<longleftrightarrow> \<not> ids_ok L a"
  by (auto simp: accepted_from_proto_def ids_ok_def ids_parse_def is_panic_res_bind parse_uuid_def
      split: option.splits)

lemma new_session_calm:
  assumes "wire_ok L W"
  shows "\<not> is_panic (api_new_session L W h ns)"
proof -
  let ?r = "ws_new_vpn_session W h (new_session_to_proto L ns)"
  have "\<not> is_panic ?r" and "\<forall>a. ?r = Ok a \<longrightarrow> ids_ok L a"
    using assms unfolding wire_ok_def by blast+
  then show ?thesis by (simp add: api_new_session_def is_panic_res_bind accepted_panics_iff)
qed

lemma add_device_calm: "wire_ok L W \<Longrightarrow> \<not> is_panic (api_add_device L W r)"
  by (auto simp: api_add_device_def is_panic_res_bind wire_ok_def add_device_response_from_proto_def)

lemma add_device_token: "wire_ok L W \<Longrightarrow> api_add_device L W r = Ok a \<Longrightarrow> token_safe L (ads_token a)"
  by (auto simp: api_add_device_def res_bind_Ok_iff wire_ok_def add_device_response_from_proto_def)

lemma session_server_of_calm:
  "wire_ok L W \<Longrightarrow> \<not> is_panic c \<Longrightarrow> session_server_calm (session_server_of L W h c cs)"
  by (simp add: session_server_calm_def session_server_of_def new_session_calm)

lemma device_server_of_calm:
  "wire_ok L W \<Longrightarrow> \<not> is_panic c \<Longrightarrow> server_calm L (device_server_of L W c)"
  by (simp add: server_calm_def device_server_of_def add_device_calm add_device_token
      api_sign_out_def api_latest_app_version_def wire_ok_def)

lemma get_status_panics_iff:
  "is_panic (api_get_status L W h q) \<longleftrightarrow>
     (let m = ws_get_status W h (status_request_to_proto L q) in
      is_panic m \<or> m = Ok None \<or> (\<exists>s. m = Ok (Some s) \<and> \<not> state_parses L s))"
  by (cases "ws_get_status W h (status_request_to_proto L q)")
    (auto simp: api_get_status_def Let_def session_status_panics_iff split: option.split)

section \<open>Properties\<close>

text \<open>C31: what kills the watcher of a session, so that the daemon hears nothing more of the session.
  For a server whose call itself returns, one round of the watcher panics exactly when its channel
  cannot be built without a panic (the configured address does not parse as a URI), or when it
  connects and the server answers with a message that has no state, or whose ids or addresses do
  not parse: the client decodes with \<open>unwrap\<close>. A failed connection or an error status
  of the server neither kills nor stops the watcher.\<close>

theorem malformed_status_ends_watcher:
  assumes "\<not> is_panic (ws_get_status W h (status_request_to_proto L q))"
    and "out = fst (watch_ended (watch_answer_of L W h (new_service_client a as) q) w)"
  shows "(is_panic out \<longleftrightarrow>
        is_panic (new_service_client a as)
        \<or> (new_service_client a as = Ok ()
           \<and> (\<exists>m. ws_get_status W h (status_request_to_proto L q) = Ok m
               \<and> (case m of None \<Rightarrow> True | Some s \<Rightarrow> \<not> state_parses L s))))
     \<and> ((\<exists>e. new_service_client a as = Err e)
        \<or> (new_service_client a as = Ok () \<and> (\<exists>e. ws_get_status W h (status_request_to_proto L q) = Err e))
        \<longrightarrow> out = Ok False)"
proof -
  have "is_panic (fst (watch_status b st w)) = False" for b st
    by (simp add: watch_status_def Let_def)
  moreover have "is_panic (api_get_status L W h q) \<longleftrightarrow>
      (\<exists>m. ws_get_status W h (status_request_to_proto L q) = Ok m
         \<and> (case m of None \<Rightarrow> True | Some s \<Rightarrow> \<not> state_parses L s))"
    using assms(1) by (auto simp: get_status_panics_iff Let_def split: option.splits)
  moreover have "api_get_status L W h q = Err e"
    if "ws_get_status W h (status_request_to_proto L q) = Err e" for e
    using that by (simp add: api_get_status_def)
  ultimately show ?thesis unfolding assms(2)
    by (cases "new_service_client a as"; cases "api_get_status L W h q")
      (auto simp: watch_ended_def watch_answer_of_def)
qed

definition sample_wire :: wire_server where
  \<comment> \<open>a server that accepts every session under the id 9 and then answers without a state\<close>
  "sample_wire = \<lparr>ws_list_locations = (\<lambda>h. Ok []),
     ws_new_vpn_session = (\<lambda>h p. Ok \<lparr>pi_request_id = pns_request_id p,
       pi_vpn_session_uuid = uuid_to_string sample_lib 9\<rparr>),
     ws_end_vpn_session = (\<lambda>h p. Ok \<lparr>pen_request_id = pes_request_id p,
       pen_vpn_session_uuid = pes_vpn_session_uuid p, pen_reason = pes_reason p\<rparr>),
     ws_connected = (\<lambda>h p. Ok ()), ws_get_status = (\<lambda>h q. Ok None),
     ws_sign_out = (\<lambda>h. Ok ()), ws_latest_app_version = (\<lambda>h. Ok ''1''),
     ws_add_device = (\<lambda>r. Ok \<lparr>pads_token = ''t'', pads_device_addresses = Some 10\<rparr>)\<rparr>"

theorem malformed_status_ends_watcher_witness:
  "is_panic (fst (watch_ended (watch_answer_of sample_lib sample_wire None
     (new_service_client \<lparr>ca_uri_parses = True, ca_tls = Ok (), ca_connect = Err ''timeout''\<rparr>
        [\<lparr>ca_uri_parses = True, ca_tls = Ok (), ca_connect = Ok ()\<rparr>])
     \<lparr>req_request_id = 5, req_device_unique_id = 1, req_vpn_session_uuid = 9\<rparr>) watcher_new))"
  by (subst malformed_status_ends_watcher [OF _ refl, THEN conjunct1])
    (simp_all add: sample_wire_def new_service_client_def create_channel_def)

end
