(* ===== verification/Lifecycle.thy ===== *)
theory Lifecycle
  imports Daemon Device_Service Session_Service
begin

text \<open>
  The life of the daemon's process: the shutdown notice (modvpn-daemon/src/shutdown.rs), the
  start-up sequence (lib.rs, db.rs, unique.rs, main.rs). What the system answers at each step is an
  argument.
\<close>

section \<open>The shutdown notice (shutdown.rs)\<close>

record shutdown =
  sd_shutdown :: bool
  sd_notice :: bool  \<comment> \<open>the channel holds the value, or is closed\<close>

definition shutdown_new :: shutdown where
  "shutdown_new = \<lparr>sd_shutdown = False, sd_notice = False\<rparr>"

definition is_shutdown :: "shutdown \<Rightarrow> bool" where
  "is_shutdown s = sd_shutdown s"

definition shutdown_recv :: "shutdown \<Rightarrow> shutdown option" where
  \<comment> \<open>\<open>None\<close>: it still waits\<close>
  "shutdown_recv s =
     (if sd_shutdown s then Some s
      else if sd_notice s then Some (s\<lparr>sd_shutdown := True\<rparr>)
      else None)"

text \<open>The manager holds the sender; its receivers are the notices subscribed so far.\<close>

type_synonym shutdown_manager = "shutdown list"

definition shutdown_manager_new :: shutdown_manager where
  "shutdown_manager_new = []"

definition new_shutdown :: "shutdown_manager \<Rightarrow> shutdown_manager" where
  "new_shutdown m = m @ [shutdown_new]"

definition signal_received :: "shutdown_manager \<Rightarrow> shutdown_manager" where
  \<comment> \<open>the task of \<open>register\_signal\_handler\<close> after ctrl-c or SIGTERM: it sends and ends\<close>
  "signal_received m = map (\<lambda>s. s\<lparr>sd_notice := True\<rparr>) m"

lemma signal_reaches_all: "\<forall>s \<in> set (signal_received m). \<exists>s'. shutdown_recv s = Some s' \<and> is_shutdown s'"
  by (auto simp: signal_received_def shutdown_recv_def is_shutdown_def)

lemma recv_again: "shutdown_recv s = Some s' \<Longrightarrow> shutdown_recv s' = Some s'"
  by (auto simp: shutdown_recv_def split: if_splits)

section \<open>Starting the daemon (lib.rs)\<close>

datatype part =
    DeviceServicePart | ControllerPart | SessionServicePart | ReclaimerPart | OfflineWatcherPart | TunnelPart

record startup_world =
  su_running :: bool  \<comment> \<open>another daemon answers on the socket\<close>
  su_db_dir :: "(unit, string) res"
  su_db_connect :: "(db, string) res"
  su_migrate :: "(unit, string) res"
  su_host :: host
  su_draw :: draw
  su_debug :: "device_error \<Rightarrow> string"  \<comment> \<open>the pretty debug text of the error\<close>
  su_gid :: "(unit, string) res"
  su_controller :: "(unit, string) res"
  su_tunnel :: "(unit, string) res"

record startup =
  sup_db :: db
  sup_token :: "string option"  \<comment> \<open>what the device service holds in memory\<close>
  sup_parts :: "part list"  \<comment> \<open>the tasks started\<close>

definition already_running :: "startup_world \<Rightarrow> bool" where
  "already_running w = su_running w"

definition db_new :: "startup_world \<Rightarrow> (db, string) res" where
  "db_new w =
     res_bind (map_err (\<lambda>e. ''Error creating DB directory '' @ e) (su_db_dir w)) (\<lambda>_.
       map_err (\<lambda>e. ''Error connecting to database '' @ e) (su_db_connect w))"

definition db_migrate :: "startup_world \<Rightarrow> (unit, string) res" where
  "db_migrate w = map_err (\<lambda>e. ''failed to run db migration '' @ e) (su_migrate w)"

abbreviation in_sup_db :: "(db, 'a, 'e) prog \<Rightarrow> (startup, 'a, 'e) prog" where
  "in_sup_db p \<equiv> zoom sup_db (\<lambda>d s. s\<lparr>sup_db := d\<rparr>) p"

definition start_part :: "part \<Rightarrow> (startup, unit, string) prog" where
  "start_part p = writes (\<lambda>s. s\<lparr>sup_parts := sup_parts s @ [p]\<rparr>)"

definition start_device_handler :: "lib \<Rightarrow> startup_world \<Rightarrow> (startup, device_service, string) prog" where
  "start_device_handler L w =
     and_then (with_err (\<lambda>e. ''failed to start device handler: '' @ su_debug w e)
         (in_sup_db (device_service_new L))) (\<lambda>v.
     and_then (writes (\<lambda>s. s\<lparr>sup_token := svc_token v\<rparr>)) (\<lambda>_.
     and_then (start_part DeviceServicePart) (\<lambda>_. ret v)))"

definition create_daemon :: "lib \<Rightarrow> startup_world \<Rightarrow> (startup, daemon, string) prog" where
  \<comment> \<open>\<open>su\_tunnel\<close> is the outcome of all that precedes and makes the spawn of the tunnel's machine, the
    directory of the executable included (Handles)\<close>
  "create_daemon L w =
     (if already_running w then give (Err ''modvpn Daemon is already running'')
      else
     and_then (give (db_new w)) (\<lambda>d.
     and_then (writes (\<lambda>s. s\<lparr>sup_db := d\<rparr>)) (\<lambda>_.
     and_then (give (db_migrate w)) (\<lambda>_.
     and_then (in_sup_db (initialize_device L (su_host w) (su_draw w))) (\<lambda>_.
     and_then (start_device_handler L w) (\<lambda>_.
     and_then (give (if host_os (su_host w) = ''macos''
         then map_err (\<lambda>e. ''failed to set exclusion gid: '' @ e) (su_gid w) else Ok ())) (\<lambda>_.
     and_then (give (su_controller w)) (\<lambda>_.
     and_then (start_part ControllerPart) (\<lambda>_.
     and_then (with_err (\<lambda>e. ''failed to reclaim '' @ db_err_display e) (in_sup_db storage_reclaim)) (\<lambda>_.
     and_then (start_part SessionServicePart) (\<lambda>_.
     and_then (start_part ReclaimerPart) (\<lambda>_.
     and_then (start_part OfflineWatcherPart) (\<lambda>_.
     and_then (give (su_tunnel w)) (\<lambda>_.
     and_then (start_part TunnelPart) (\<lambda>_.
       reads (\<lambda>s. daemon_new (sup_db s)))))))))))))))))"

definition run_modvpn_inner :: "lib \<Rightarrow> startup_world \<Rightarrow> (daemon_world \<times> daemon_event) list \<Rightarrow> startup \<Rightarrow> (unit, string) res" where
  \<comment> \<open>main.rs: a daemon that could not be created is the error; how its task ends is only logged\<close>
  "run_modvpn_inner L w es s = (case create_daemon L w s of
      (Ok dm, s') \<Rightarrow> (case daemon_run L es dm of _ \<Rightarrow> Ok ())
    | (Err e, s') \<Rightarrow> Err e
    | (Panic m, s') \<Rightarrow> Panic m)"

section \<open>A daemon that starts, starts in order\<close>

lemma device_service_new_run: "device_service_new L d = (case get_token L d of
      (Ok t, d') \<Rightarrow> (Ok \<lparr>svc_token = t, svc_db = d', svc_replies = []\<rparr>, d')
    | (Err e, d') \<Rightarrow> (Err (DeviceDbErr e), d')
    | (Panic m, d') \<Rightarrow> (Panic m, d'))"
  by (simp add: device_service_new_def)

definition boot_ok :: "lib \<Rightarrow> db \<Rightarrow> bool" where
  \<comment> \<open>what a stopped daemon leaves behind\<close>
  "boot_ok L d \<longleftrightarrow> lib_ok L \<and> rows_ok L d \<and> device_ok L d"

lemma device_statements_keep_rows:
  "keeps (rows_ok M) (sql_one L device_table P)" "keeps (rows_ok M) (sql_insert device_table k r)"
  "keeps (rows_ok M) (sql_one L token_table Q)" "keeps (device_ok M) (sql_one L token_table Q)"
  "keeps (device_ok M) (sql_update_many session_table R f)"
  unfolding sql_one_def sql_insert_def sql_update_many_def
  by (rule keeps_statement; simp add: keeps_def rows_ok_def device_ok_def)+

lemma boot_keeps:
  "keeps (rows_ok M) (initialize_device L h w)"
  "keeps (rows_ok M) (get_token L)" "keeps (device_ok M) (get_token L)"
  "keeps (device_ok M) storage_reclaim"
  unfolding initialize_device_def device_init_def get_token_def storage_reclaim_def
  by (auto intro!: keeps_intros device_statements_keep_rows split: option.split)

lemma keeps_devices_there:
  "keeps (\<lambda>d. devices d \<noteq> []) (get_token L)" "keeps (\<lambda>d. devices d \<noteq> []) storage_reclaim"
proof -
  have "keeps (\<lambda>d. devices d \<noteq> []) (sql_one L token_table Q)"
    "keeps (\<lambda>d. devices d \<noteq> []) (sql_update_many session_table R f)" for Q R f
    unfolding sql_one_def sql_update_many_def by (rule keeps_statement; simp add: keeps_def)+
  then show "keeps (\<lambda>d. devices d \<noteq> []) (get_token L)" "keeps (\<lambda>d. devices d \<noteq> []) storage_reclaim"
    unfolding get_token_def storage_reclaim_def by (auto intro!: keeps_intros)
qed

lemma keeps_service_new:
  assumes "keeps I (get_token L)"
  shows "keeps I (device_service_new L)"
proof (rule keepsI)
  fix d r d'
  assume d: "I d" and run: "device_service_new L d = (r, d')"
  obtain t d1 where t: "get_token L d = (t, d1)" by fastforce
  from keepsD [OF assms d t] t run show "I d'"
    by (cases t) (simp_all add: device_service_new_run)
qed

lemma reclaim_marks:
  "storage_reclaim d = (Ok (), d') \<Longrightarrow> \<forall>r \<in> set (vpn_sessions d'). row_mark_for_deletion r"
  by (auto simp: storage_reclaim_def sql_update_many_def statement_def prog_simps mark_row_def
      split: list.splits option.splits)

lemma zoom_Ok_iff:
  "zoom part put p s = (Ok x, s') \<longleftrightarrow> (\<exists>t. p (part s) = (Ok x, t) \<and> s' = put t s)"
  by (auto simp: zoom_def split: prod.splits)

lemma device_init_leaves_device:
  assumes "device_ok L d" and "lib_ok L" and "device_init L h w d = (Ok dd, d')"
  shows "devices d' \<noteq> []"
  using assms(3) unfolding device_init_def
  by (auto simp: and_then_Ok_iff sql_one_def sql_insert_def statement_def
      split: option.splits list.splits if_splits)

lemma create_daemon_ok:
  assumes d: "su_db_connect w = Ok d" and boot: "boot_ok L d"
    and run: "create_daemon L w s = (Ok dm, s')"
  shows "\<exists>d'. dm = daemon_new d' \<and> sup_db s' = d' \<and> store_ok L d'
     \<and> (\<forall>r \<in> set (vpn_sessions d'). row_mark_for_deletion r)
     \<and> sup_parts s' = sup_parts s @ [DeviceServicePart, ControllerPart, SessionServicePart,
          ReclaimerPart, OfflineWatcherPart, TunnelPart]"
proof -
  from run d obtain dd d1 v d2 d3 where
    i: "initialize_device L (su_host w) (su_draw w) d = (Ok dd, d1)"
    and v: "device_service_new L d1 = (Ok v, d2)"
    and r: "storage_reclaim d2 = (Ok (), d3)"
    and dm: "dm = daemon_new d3" and s': "sup_db s' = d3"
    and parts: "sup_parts s' = sup_parts s @ [DeviceServicePart, ControllerPart, SessionServicePart,
          ReclaimerPart, OfflineWatcherPart, TunnelPart]"
    by (auto simp: create_daemon_def and_then_Ok_iff zoom_Ok_iff start_device_handler_def
        start_part_def db_new_def res_bind_Ok_iff split: if_splits)
  have L: "lib_ok L" and rows: "rows_ok L d" and dev: "device_ok L d"
    using boot by (simp_all add: boot_ok_def)
  have "device_ok L d1" using device_init_ok [OF L dev] i by (simp add: initialize_device_def)
  moreover have "rows_ok L d1" using keepsD [OF boot_keeps(1) rows i] .
  moreover have "devices d1 \<noteq> []"
    using device_init_leaves_device [OF dev L] i by (simp add: initialize_device_def)
  ultimately have "device_ok L d2" and "rows_ok L d2" and "devices d2 \<noteq> []"
    using keepsD [OF keeps_service_new [OF boot_keeps(3)] _ v]
      keepsD [OF keeps_service_new [OF boot_keeps(2)] _ v]
      keepsD [OF keeps_service_new [OF keeps_devices_there(1)] _ v] by blast+
  then have "device_ok L d3" and "rows_ok L d3" and "devices d3 \<noteq> []"
    using keepsD [OF boot_keeps(4) _ r] keepsD [OF keeps_reclaim _ r]
      keepsD [OF keeps_devices_there(2) _ r] by blast+
  then show ?thesis
    using dm s' parts reclaim_marks [OF r] L by (simp add: store_ok_def)
qed

section \<open>Properties\<close>

text \<open>C37: a daemon that starts on the database a stopped daemon left behind starts in order: its
  status is \<open>Disconnected\<close>, every session of the table is marked for the reclaimer, the store is
  good (so that every later event keeps it so), there is a device, and its parts were started in
  the order of \<open>create\_daemon\<close>, the controller only after the device service.\<close>

theorem daemon_starts_in_order:
  assumes "su_db_connect w = Ok d" and "boot_ok L d" and "create_daemon L w s = (Ok dm, s')"
  shows "status_of dm = VpnDisconnected \<and> (\<forall>r \<in> set (vpn_sessions (dm_db dm)). row_mark_for_deletion r)
     \<and> dm_ok L dm \<and> dm_ok L (snd (serve (handle_event L) es dm))
     \<and> sup_parts s' = sup_parts s @ [DeviceServicePart, ControllerPart, SessionServicePart,
          ReclaimerPart, OfflineWatcherPart, TunnelPart]"
proof -
  from create_daemon_ok [OF assms] obtain d' where d': "dm = daemon_new d'" and st: "store_ok L d'"
    and rest: "\<forall>r \<in> set (vpn_sessions d'). row_mark_for_deletion r"
      "sup_parts s' = sup_parts s @ [DeviceServicePart, ControllerPart, SessionServicePart,
          ReclaimerPart, OfflineWatcherPart, TunnelPart]" by blast
  have ok: "dm_ok L dm" using d' st by (simp add: dm_ok_def dm_inv_def daemon_new_def)
  moreover have "dm_ok L (snd (serve (handle_event L) es dm))"
    by (rule daemon_actor.serve_good [OF _ ok prod.collapse [symmetric]]) simp
  ultimately show ?thesis using d' rest by (simp add: daemon_new_def)
qed

definition sample_startup_world :: startup_world where
  "sample_startup_world = \<lparr>su_running = False, su_db_dir = Ok (),
     su_db_connect = Ok (sample_db\<lparr>vpn_sessions := [sample_live]\<rparr>), su_migrate = Ok (),
     su_host = sample_host, su_draw = \<lparr>draw_uid = 2, draw_key = 3, draw_now = 4\<rparr>,
     su_debug = device_error_display, su_gid = Ok (), su_controller = Ok (), su_tunnel = Ok ()\<rparr>"

lemma sample_create:
  "create_daemon sample_lib sample_startup_world \<lparr>sup_db = empty_db, sup_token = None, sup_parts = []\<rparr> =
     (Ok (daemon_new (sample_db\<lparr>vpn_sessions := [mark_row sample_live]\<rparr>)),
      \<lparr>sup_db = sample_db\<lparr>vpn_sessions := [mark_row sample_live]\<rparr>,
       sup_token = None, sup_parts = [DeviceServicePart, ControllerPart, SessionServicePart,
          ReclaimerPart, OfflineWatcherPart, TunnelPart]\<rparr>)"
  by (simp add: create_daemon_def sample_startup_world_def already_running_def db_new_def db_migrate_def
      prog_simps initialize_device_def device_init_some start_device_handler_def device_service_new_run
      get_token_run reclaim_run start_part_def sample_host_def comp_def)

theorem daemon_starts_in_order_witness:
  "vpn_sessions (dm_db (daemon_new (sample_db\<lparr>vpn_sessions := [mark_row sample_live]\<rparr>))) = [mark_row sample_live]
   \<and> dm_ok sample_lib (daemon_new (sample_db\<lparr>vpn_sessions := [mark_row sample_live]\<rparr>))"
proof -
  have "boot_ok sample_lib (sample_db\<lparr>vpn_sessions := [sample_live]\<rparr>)"
    using sample_device_ok by (simp add: boot_ok_def rows_ok_def row_ok_def device_ok_def)
  from daemon_starts_in_order [OF _ this sample_create, of "[]"] show ?thesis
    by (simp add: sample_startup_world_def daemon_new_def)
qed

end
