(* ===== verification/Cli.thy ===== *)
theory Cli
  imports Controller
begin

text \<open>
  The command line client, modvpn-cli (cli.rs, commands/*.rs): every command connects to the
  daemon's socket, calls it and prints. What the daemon answers, what the user enters and whether
  the socket can be reached are the record \<open>cli\_world\<close>; the requests a command sends, the lines it
  prints and the progress bar of \<open>connect\<close> are its state. Colours are left out of the texts.
\<close>

section \<open>Errors, world and state\<close>

datatype cli_error =
    CliDaemonUnavailable
  | CliGrpc grpc_status
  | CliIo string
  | CliInvalidArgument string

fun cli_error_display :: "cli_error \<Rightarrow> string" where
  "cli_error_display CliDaemonUnavailable = ''daemon is offline''"
| "cli_error_display (CliGrpc s) = st_message s"
| "cli_error_display (CliIo e) = e"
| "cli_error_display (CliInvalidArgument m) = m"

record cli_world =
  cw_list_up :: bool  \<comment> \<open>\<open>new\_grpc\_client\<close> of \<open>list\_locations\<close> connects\<close>
  cw_up :: bool  \<comment> \<open>\<open>new\_grpc\_client\<close> of the command itself connects\<close>
  cw_email :: "(string, string) res"  \<comment> \<open>what the user types at each prompt\<close>
  cw_password :: "(string, string) res"
  cw_selection :: "(nat option, string) res"
  cw_valid_email :: "string \<Rightarrow> bool"  \<comment> \<open>\<open>validator::validate\_email\<close>\<close>
  cw_locations :: "(proto_location list, grpc_status) res"
  cw_unit :: "rpc_request \<Rightarrow> (unit, grpc_status) res"
  cw_status :: "rpc_request \<Rightarrow> (proto_vpn_status option, grpc_status) res"
  cw_stream :: "(proto_daemon_event option, grpc_status) res list"

record cli =
  cli_requests :: "rpc_request list"
  cli_output :: "string list"
  cli_position :: nat  \<comment> \<open>of the progress bar\<close>
  cli_message :: string
  cli_progress :: nat  \<comment> \<open>the variable \<open>progress\<close>\<close>
  cli_done :: bool


type_synonym 'a cli_prog = "(cli, 'a, cli_error) prog"

definition request :: "rpc_request \<Rightarrow> ('a, grpc_status) res \<Rightarrow> 'a cli_prog" where
  \<comment> \<open>\<open>client.call(..).await?\<close>\<close>
  "request q r = (\<lambda>s. (map_err CliGrpc r, s\<lparr>cli_requests := cli_requests s @ [q]\<rparr>))"

definition new_client :: "bool \<Rightarrow> unit cli_prog" where
  "new_client up = give (if up then Ok () else Err CliDaemonUnavailable)"

definition print_line :: "string \<Rightarrow> unit cli_prog" where
  "print_line l = writes (\<lambda>s. s\<lparr>cli_output := cli_output s @ [l]\<rparr>)"

definition decoded :: "('a, unit) res \<Rightarrow> ('a, cli_error) res" where
  \<comment> \<open>\<open>VpnStatus::from\<close>, which panics on a message it cannot decode\<close>
  "decoded r = unwrap_res r"

section \<open>The short commands\<close>

definition cli_status :: "lib \<Rightarrow> cli_world \<Rightarrow> unit cli_prog" where
  "cli_status L w =
     and_then (new_client (cw_up w)) (\<lambda>_.
     and_then (request GetVpnStatus (cw_status w GetVpnStatus)) (\<lambda>p.
     and_then (give (decoded (vpn_status_from_proto L p))) (\<lambda>v.
       print_line (vpn_status_display v))))"

definition cli_disconnect :: "lib \<Rightarrow> cli_world \<Rightarrow> unit cli_prog" where
  "cli_disconnect L w =
     and_then (new_client (cw_up w)) (\<lambda>_.
     and_then (request DisconnectVpn (cw_status w DisconnectVpn)) (\<lambda>p.
     and_then (give (decoded (vpn_status_from_proto L p))) (\<lambda>v.
       print_line (vpn_status_display v))))"

definition cli_sign_out :: "cli_world \<Rightarrow> unit cli_prog" where
  "cli_sign_out w =
     and_then (new_client (cw_up w)) (\<lambda>_.
     and_then (request AccountSignOut (cw_unit w AccountSignOut)) (\<lambda>_.
       print_line ''Successfully signed out''))"

definition cli_sign_in :: "cli_world \<Rightarrow> string option \<Rightarrow> unit cli_prog" where
  "cli_sign_in w arg =
     and_then (give (case arg of Some e \<Rightarrow> Ok e | None \<Rightarrow> map_err CliIo (cw_email w))) (\<lambda>email.
     if \<not> cw_valid_email w email
     then give (Err (CliInvalidArgument (CHR 0x22 # email @ [CHR 0x22] @ '' is not a valid email'')))
     else
     and_then (give (map_err CliIo (cw_password w))) (\<lambda>password.
     and_then (new_client (cw_up w)) (\<lambda>_.
     let q = AccountSignIn \<lparr>sir_email = email, sir_password = password\<rparr> in
     and_then (request q (cw_unit w q)) (\<lambda>_.
       print_line ''Successfully signed in''))))"

definition list_locations :: "cli_world \<Rightarrow> location list cli_prog" where
  "list_locations w =
     and_then (new_client (cw_list_up w)) (\<lambda>_.
     and_then (request GetLocations (cw_locations w)) (\<lambda>ps.
       ret (locations_from_proto ps)))"

definition location_line :: "location \<Rightarrow> string" where
  "location_line l = (case loc_state l of
      Some st \<Rightarrow> loc_city l @ '', '' @ st @ '', '' @ loc_country l
    | None \<Rightarrow> loc_city l @ '', '' @ loc_country l)"

fun print_lines :: "string list \<Rightarrow> unit cli_prog" where
  "print_lines [] = ret ()"
| "print_lines (l # ls) = and_then (print_line l) (\<lambda>_. print_lines ls)"

definition cli_locations :: "cli_world \<Rightarrow> unit cli_prog" where
  "cli_locations w = and_then (list_locations w) (\<lambda>ls. print_lines (map location_line ls))"

section \<open>Connect\<close>

definition set_bar :: "nat \<Rightarrow> string \<Rightarrow> cli \<Rightarrow> cli" where
  "set_bar n m s = s\<lparr>cli_position := n, cli_message := m\<rparr>"

fun bar_of_status :: "nat \<Rightarrow> vpn_status \<Rightarrow> nat" where
  \<comment> \<open>the new value of \<open>progress\<close>\<close>
  "bar_of_status p (VpnAccepted l) = 25"
| "bar_of_status p (VpnConnected l t) = 100"
| "bar_of_status p (VpnConnecting l) = 95"
| "bar_of_status p VpnDisconnected = 0"
| "bar_of_status p (VpnDisconnecting l) = p"
| "bar_of_status p (VpnServerCreated l) = 50"
| "bar_of_status p (VpnServerRunning l) = 75"
| "bar_of_status p (VpnServerReady l) = 80"

fun ends_connect :: "vpn_status \<Rightarrow> bool" where
  "ends_connect (VpnConnected l t) = True"
| "ends_connect VpnDisconnected = True"
| "ends_connect (VpnAccepted l) = False"
| "ends_connect (VpnConnecting l) = False"
| "ends_connect (VpnDisconnecting l) = False"
| "ends_connect (VpnServerCreated l) = False"
| "ends_connect (VpnServerRunning l) = False"
| "ends_connect (VpnServerReady l) = False"

definition on_status_event :: "vpn_status \<Rightarrow> cli \<Rightarrow> cli" where
  "on_status_event v s =
     (let p = bar_of_status (cli_progress s) v;
          s1 = s\<lparr>cli_progress := p, cli_done := cli_done s \<or> ends_connect v\<rparr>
      in set_bar p (vpn_status_display v) s1)"

fun connect_event :: "lib \<Rightarrow> cli_world \<Rightarrow> proto_daemon_event \<Rightarrow> unit cli_prog" where
  "connect_event L w (EventVpnStatus p) =
     and_then (give (decoded (vpn_status_from_proto L p))) (\<lambda>v. writes (on_status_event v))"
| "connect_event L w (EventNotification p) =
     and_then (case notification_from_proto L p of
         Ok n \<Rightarrow> writes (set_bar 0 (ntf_message n))
       | Err e \<Rightarrow> ret ()
       | Panic m \<Rightarrow> give (Panic m)) (\<lambda>_.
     and_then (request (AckNotification (pn_id p)) (cw_unit w (AckNotification (pn_id p)))) (\<lambda>_.
       writes (\<lambda>s. s\<lparr>cli_done := True\<rparr>)))"

fun connect_loop :: "lib \<Rightarrow> cli_world \<Rightarrow> (proto_daemon_event option, grpc_status) res list \<Rightarrow> unit cli_prog" where
  \<comment> \<open>the stream; at its end the command returns\<close>
  "connect_loop L w [] = ret ()"
| "connect_loop L w (e # es) =
     and_then (and_then (give (map_err CliGrpc e)) (\<lambda>ev. case ev of
         Some x \<Rightarrow> connect_event L w x
       | None \<Rightarrow> ret ())) (\<lambda>_ s.
       if cli_done s then (Ok (), s) else connect_loop L w es s)"

definition cli_connect :: "lib \<Rightarrow> cli_world \<Rightarrow> unit cli_prog" where
  "cli_connect L w =
     and_then (list_locations w) (\<lambda>ls.
     and_then (give (map_err CliIo (cw_selection w))) (\<lambda>selection. case selection of
       None \<Rightarrow> ret ()
     | Some i \<Rightarrow>
         and_then (give (unwrap (if i < length ls then Some (ls ! i) else None))) (\<lambda>l.
         and_then (new_client (cw_up w)) (\<lambda>_.
         and_then (request WatchEvents (cw_unit w WatchEvents)) (\<lambda>_.
         let q = ConnectVpn (location_to_proto l) in
         and_then (request q (cw_status w q)) (\<lambda>p.
         and_then (give (decoded (vpn_status_from_proto L p))) (\<lambda>v.
         and_then (writes (set_bar 0 (vpn_status_display v))) (\<lambda>_.
           connect_loop L w (cw_stream w)))))))))"

section \<open>The command line\<close>

datatype cli_command =
    CliSignIn "string option"
  | CliSignOut
  | CliStatus
  | CliLocations
  | CliConnect
  | CliDisconnect

fun run_cli_command :: "lib \<Rightarrow> cli_world \<Rightarrow> cli_command \<Rightarrow> unit cli_prog" where
  "run_cli_command L w (CliSignIn e) = cli_sign_in w e"
| "run_cli_command L w CliSignOut = cli_sign_out w"
| "run_cli_command L w CliLocations = cli_locations w"
| "run_cli_command L w CliConnect = cli_connect L w"
| "run_cli_command L w CliDisconnect = cli_disconnect L w"
| "run_cli_command L w CliStatus = cli_status L w"

datatype exit_code = ExitSuccess | ExitFailure string  \<comment> \<open>with what it prints to stderr\<close>

definition cli_run :: "lib \<Rightarrow> cli_world \<Rightarrow> cli_command \<Rightarrow> (cli, exit_code, 'e) prog" where
  "cli_run L w c = attempt (run_cli_command L w c) (\<lambda>r. ret (case r of
      Ok u \<Rightarrow> ExitSuccess
    | Err e \<Rightarrow> ExitFailure (cli_error_display e)
    | Panic m \<Rightarrow> ExitFailure m))"

section \<open>Connecting, on the broadcasts of the daemon\<close>




lemma bar_simps [simp]:
  "cli_requests (set_bar n m s) = cli_requests s" "cli_done (set_bar n m s) = cli_done s"
  "cli_progress (set_bar n m s) = cli_progress s" "cli_position (set_bar n m s) = n"
  "cli_done (on_status_event v s) = (cli_done s \<or> ends_connect v)"
  by (simp_all add: set_bar_def on_status_event_def Let_def)

lemma notification_id [simp]: "pn_id (notification_to_proto L n) = ntf_id n"
  by (simp add: notification_to_proto_def)



section \<open>What the user is to see\<close>



fun percent :: "vpn_status \<Rightarrow> nat option" where
  \<comment> \<open>how far a status is; \<open>Disconnecting\<close> leaves the bar where it was\<close>
  "percent VpnDisconnected = Some 0"
| "percent (VpnAccepted l) = Some 25"
| "percent (VpnServerCreated l) = Some 50"
| "percent (VpnServerRunning l) = Some 75"
| "percent (VpnServerReady l) = Some 80"
| "percent (VpnConnecting l) = Some 95"
| "percent (VpnConnected l t) = Some 100"
| "percent (VpnDisconnecting l) = None"

definition progress_after :: "broadcast list \<Rightarrow> nat" where
  "progress_after bs = last (0 # List.map_filter
     (\<lambda>b. case b of StatusBroadcast v \<Rightarrow> percent v | NotificationBroadcast n \<Rightarrow> None) bs)"

definition position_after :: "broadcast list \<Rightarrow> nat" where
  "position_after bs = (case rev bs of StatusBroadcast v # xs \<Rightarrow> progress_after bs | _ \<Rightarrow> 0)"

definition message_after :: "vpn_status \<Rightarrow> broadcast list \<Rightarrow> string" where
  "message_after v bs = (case rev bs of
      [] \<Rightarrow> vpn_status_display v
    | StatusBroadcast x # xs \<Rightarrow> vpn_status_display x
    | NotificationBroadcast n # xs \<Rightarrow> ntf_message n)"

definition acknowledged :: "broadcast list \<Rightarrow> rpc_request list" where
  "acknowledged bs = List.map_filter
     (\<lambda>b. case b of StatusBroadcast v \<Rightarrow> None | NotificationBroadcast n \<Rightarrow> Some (AckNotification (ntf_id n))) bs"

lemma map_filter_app: "List.map_filter f (xs @ ys) = List.map_filter f xs @ List.map_filter f ys"
  by (simp add: List.map_filter_def)




lemma after_none [simp]:
  "acknowledged [] = []" "progress_after [] = 0" "position_after [] = 0"
  "message_after v [] = vpn_status_display v"
  by (simp_all add: acknowledged_def progress_after_def position_after_def message_after_def List.map_filter_simps)


lemma after_notification [simp]:
  "acknowledged (bs @ [NotificationBroadcast n]) = acknowledged bs @ [AckNotification (ntf_id n)]"
  "progress_after (bs @ [NotificationBroadcast n]) = progress_after bs"
  "position_after (bs @ [NotificationBroadcast n]) = 0"
  "message_after v (bs @ [NotificationBroadcast n]) = ntf_message n"
  by (simp_all add: acknowledged_def progress_after_def position_after_def message_after_def
      map_filter_app List.map_filter_simps)



text \<open>Signing in with an address that is not valid asks for no password and sends nothing.\<close>

lemma invalid_email_sends_nothing:
  "\<not> cw_valid_email w email \<Longrightarrow> cli_run L w (CliSignIn (Some email)) s =
     (Ok (ExitFailure (CHR 0x22 # email @ [CHR 0x22] @ '' is not a valid email'')), s)"
  by (simp add: cli_run_def cli_sign_in_def prog_simps)

section \<open>Properties\<close>




end
