(* ===== verification/Ui.thy ===== *)
theory Ui
  imports Controller
begin

text \<open>
  The native half of the desktop client, modvpn-ui/src-tauri/src: the state it keeps (state.rs), the
  task that forwards the daemon's events to the window and the tray (event\_forwarder.rs), the menu
  of the tray (system\_tray.rs), the errors (error.rs) and the commands the window invokes
  (commands/*.rs). The answers of the daemon are the record \<open>ui\_world\<close>; what tauri is told to do
  (events, menus, titles) is kept in the state.
\<close>

section \<open>State\<close>

record ui_state =
  ui_event_fwd_handler :: "nat option"  \<comment> \<open>forwarders are numbered in the order they start\<close>
  ui_locations :: "location list"
  ui_vpn_status :: "vpn_status option"
  ui_window_visible :: bool

definition ui_default :: ui_state where
  "ui_default = \<lparr>ui_event_fwd_handler = None, ui_locations = [], ui_vpn_status = None,
     ui_window_visible = True\<rparr>"

datatype menu_item =
    MenuItem string string bool  \<comment> \<open>id, title, enabled\<close>
  | MenuSeparator

datatype ui_event = EmitVpnStatus vpn_status | EmitNotification notification

record ui_app =
  ua_state :: ui_state
  ua_menu :: "menu_item list"
  ua_refreshes :: nat  \<comment> \<open>tasks of \<open>update\_system\_tray\<close> that have not run yet\<close>
  ua_emitted :: "ui_event list"
  ua_started :: nat  \<comment> \<open>forwarders started so far\<close>
  ua_running :: "nat list"  \<comment> \<open>those whose handle is not dropped\<close>
  ua_requests :: "rpc_request list"

section \<open>The tray (system\_tray.rs)\<close>

definition hide_or_show_item :: "bool \<Rightarrow> menu_item" where
  "hide_or_show_item visible = MenuItem ''hide_or_show'' (if visible then ''Hide'' else ''Show'') True"

definition create_default_system_tray_menu :: "bool \<Rightarrow> menu_item list" where
  "create_default_system_tray_menu visible = [hide_or_show_item visible, MenuItem ''quit'' ''Quit'' True]"

fun get_vpn_status_title :: "vpn_status \<Rightarrow> string" where
  "get_vpn_status_title (VpnAccepted l) = ''Accepted, '' @ loc_city l"
| "get_vpn_status_title (VpnServerCreated l) = ''Server Created, '' @ loc_city l"
| "get_vpn_status_title (VpnServerRunning l) = ''Server Running, '' @ loc_city l"
| "get_vpn_status_title (VpnServerReady l) = ''Server Ready, '' @ loc_city l"
| "get_vpn_status_title (VpnConnecting l) = ''Connecting, '' @ loc_city l"
| "get_vpn_status_title (VpnConnected l t) = ''Connected, '' @ loc_city l"
| "get_vpn_status_title (VpnDisconnecting l) = ''Disconnecting, '' @ loc_city l"
| "get_vpn_status_title VpnDisconnected = ''Disconnected''"

fun show_disconnect :: "vpn_status \<Rightarrow> bool" where
  "show_disconnect (VpnAccepted l) = True"
| "show_disconnect (VpnServerCreated l) = True"
| "show_disconnect (VpnServerRunning l) = True"
| "show_disconnect (VpnServerReady l) = True"
| "show_disconnect (VpnConnecting l) = True"
| "show_disconnect (VpnConnected l t) = True"
| "show_disconnect (VpnDisconnecting l) = False"
| "show_disconnect VpnDisconnected = False"

definition create_system_tray_menu_internal :: "vpn_status \<Rightarrow> bool \<Rightarrow> menu_item list" where
  "create_system_tray_menu_internal v visible =
     MenuItem ''vpn_status'' (get_vpn_status_title v) False
     # (if show_disconnect v then [MenuItem ''disconnect'' ''Disconnect'' True] else [])
     @ [MenuSeparator, hide_or_show_item visible, MenuItem ''quit'' ''Quit'' True]"

definition create_system_tray_menu :: "vpn_status option \<Rightarrow> bool \<Rightarrow> menu_item list" where
  "create_system_tray_menu status visible = (case status of
      Some v \<Rightarrow> create_system_tray_menu_internal v visible
    | None \<Rightarrow> create_default_system_tray_menu visible)"

definition ui_app_new :: ui_app where
  "ui_app_new = \<lparr>ua_state = ui_default, ua_menu = create_default_system_tray_menu True,
     ua_refreshes = 0, ua_emitted = [], ua_started = 0, ua_running = [], ua_requests = []\<rparr>"

definition update_system_tray :: "ui_app \<Rightarrow> ui_app" where
  \<comment> \<open>spawns the refresh, which reads the state when it runs\<close>
  "update_system_tray a = a\<lparr>ua_refreshes := Suc (ua_refreshes a)\<rparr>"

definition run_tray_refresh :: "ui_app \<Rightarrow> ui_app" where
  "run_tray_refresh a = a\<lparr>ua_refreshes := ua_refreshes a - 1,
     ua_menu := create_system_tray_menu (ui_vpn_status (ua_state a)) (ui_window_visible (ua_state a))\<rparr>"

fun retitle :: "string \<Rightarrow> string \<Rightarrow> menu_item \<Rightarrow> menu_item" where
  \<comment> \<open>\<open>set\_title\<close> of the item with this id\<close>
  "retitle i t (MenuItem j u b) = (if j = i then MenuItem j t b else MenuItem j u b)"
| "retitle i t MenuSeparator = MenuSeparator"

definition toggle_window_visibility :: "ui_app \<Rightarrow> ui_app" where
  "toggle_window_visibility a =
     (let visible = \<not> ui_window_visible (ua_state a)
      in a\<lparr>ua_state := (ua_state a)\<lparr>ui_window_visible := visible\<rparr>,
           ua_menu := map (retitle ''hide_or_show'' (if visible then ''Hide'' else ''Show'')) (ua_menu a)\<rparr>)"

section \<open>State changes (state.rs)\<close>

definition start_event_forwarder :: "ui_app \<Rightarrow> ui_app" where
  "start_event_forwarder a =
     (if ui_event_fwd_handler (ua_state a) = None
      then a\<lparr>ua_state := (ua_state a)\<lparr>ui_event_fwd_handler := Some (ua_started a)\<rparr>,
             ua_running := ua_running a @ [ua_started a], ua_started := Suc (ua_started a)\<rparr>
      else a)"

definition stop_event_forwarder :: "ui_app \<Rightarrow> ui_app" where
  \<comment> \<open>dropping the handle resolves the forwarder's channel, which aborts its loop\<close>
  "stop_event_forwarder a = (case ui_event_fwd_handler (ua_state a) of
      Some i \<Rightarrow> a\<lparr>ua_state := (ua_state a)\<lparr>ui_event_fwd_handler := None\<rparr>,
                  ua_running := removeAll i (ua_running a)\<rparr>
    | None \<Rightarrow> a)"

definition update_app_state :: "vpn_status \<Rightarrow> ui_app \<Rightarrow> ui_app" where
  "update_app_state v a =
     update_system_tray (a\<lparr>ua_state := (ua_state a)\<lparr>ui_vpn_status := Some v\<rparr>\<rparr>)"

section \<open>The event forwarder\<close>

definition emit :: "ui_event \<Rightarrow> ui_app \<Rightarrow> ui_app" where
  "emit e a = a\<lparr>ua_emitted := ua_emitted a @ [e]\<rparr>"

fun forward_event :: "lib \<Rightarrow> proto_daemon_event \<Rightarrow> (ui_app, unit, unit) prog" where
  "forward_event L (EventVpnStatus p) =
     and_then (give (vpn_status_from_proto L p)) (\<lambda>v.
       writes (\<lambda>a. emit (EmitVpnStatus v) (update_app_state v a)))"
| "forward_event L (EventNotification p) = (case notification_from_proto L p of
      Ok n \<Rightarrow> writes (emit (EmitNotification n))
    | Err e \<Rightarrow> ret ()
    | Panic m \<Rightarrow> give (Panic m))"

fun event_stream :: "lib \<Rightarrow> (proto_daemon_event option, grpc_status) res list \<Rightarrow> (ui_app, unit, unit) prog" where
  \<comment> \<open>the \<open>while let\<close> over one stream; errors and empty messages are skipped\<close>
  "event_stream L [] = ret ()"
| "event_stream L (Ok (Some e) # es) = and_then (forward_event L e) (\<lambda>_. event_stream L es)"
| "event_stream L (Ok None # es) = event_stream L es"
| "event_stream L (Err st # es) = event_stream L es"
| "event_stream L (Panic m # es) = give (Panic m)"

datatype watch_attempt =
    DaemonOffline
  | WatchRefused grpc_status
  | WatchStream "(proto_daemon_event option, grpc_status) res list"

fun event_watch_loop :: "lib \<Rightarrow> watch_attempt list \<Rightarrow> (ui_app, nat, unit) prog" where
  \<comment> \<open>the attempts until the task is aborted; the result is the seconds it slept\<close>
  "event_watch_loop L [] = ret 0"
| "event_watch_loop L (DaemonOffline # as) = and_then (event_watch_loop L as) (\<lambda>n. ret (n + 5))"
| "event_watch_loop L (WatchRefused st # as) = and_then (event_watch_loop L as) (\<lambda>n. ret (n + 5))"
| "event_watch_loop L (WatchStream es # as) = and_then (event_stream L es) (\<lambda>_. event_watch_loop L as)"

section \<open>Commands\<close>

datatype ui_error = DaemonIsOffline | UiGrpc "8 word" string

fun code_number :: "grpc_code \<Rightarrow> 8 word" where
  \<comment> \<open>the numbers gRPC gives its codes\<close>
  "code_number CodeOk = 0" | "code_number Cancelled = 1" | "code_number Unknown = 2"
| "code_number InvalidArgument = 3" | "code_number DeadlineExceeded = 4" | "code_number NotFound = 5"
| "code_number AlreadyExists = 6" | "code_number PermissionDenied = 7"
| "code_number ResourceExhausted = 8" | "code_number FailedPrecondition = 9"
| "code_number Aborted = 10" | "code_number OutOfRange = 11" | "code_number Unimplemented = 12"
| "code_number Internal = 13" | "code_number Unavailable = 14" | "code_number DataLoss = 15"
| "code_number Unauthenticated = 16"

definition ui_error_of_status :: "grpc_status \<Rightarrow> ui_error" where
  "ui_error_of_status s = UiGrpc (code_number (st_code s)) (st_message s)"

record ui_world =
  uw_up :: bool
  uw_unit :: "rpc_request \<Rightarrow> (unit, grpc_status) res"
  uw_authenticated :: "(bool, grpc_status) res"
  uw_locations :: "rpc_request \<Rightarrow> (proto_location list, grpc_status) res"
  uw_status :: "rpc_request \<Rightarrow> (proto_vpn_status option, grpc_status) res"
  uw_notifications :: "(proto_notification list, grpc_status) res"
  uw_version :: "(string, grpc_status) res"
  uw_current_version :: string
  uw_newer :: "string \<Rightarrow> string \<Rightarrow> bool option"  \<comment> \<open>semver: \<open>None\<close> if one of the two does not parse\<close>

type_synonym 'a ui_prog = "(ui_app, 'a, ui_error) prog"

definition ui_request :: "ui_world \<Rightarrow> rpc_request \<Rightarrow> ('a, grpc_status) res \<Rightarrow> 'a ui_prog" where
  \<comment> \<open>\<open>new\_grpc\_client\<close> and one call\<close>
  "ui_request w q r =
     (if uw_up w then (\<lambda>a. (map_err ui_error_of_status r, a\<lparr>ua_requests := ua_requests a @ [q]\<rparr>))
      else give (Err DaemonIsOffline))"

definition ui_is_daemon_online :: "ui_world \<Rightarrow> unit ui_prog" where
  "ui_is_daemon_online w = give (if uw_up w then Ok () else Err DaemonIsOffline)"

definition ui_sign_in :: "ui_world \<Rightarrow> string \<Rightarrow> string \<Rightarrow> unit ui_prog" where
  "ui_sign_in w email password =
     (let q = AccountSignIn \<lparr>sir_email = email, sir_password = password\<rparr> in
      and_then (ui_request w q (uw_unit w q)) (\<lambda>_. writes start_event_forwarder))"

definition ui_sign_out :: "ui_world \<Rightarrow> unit ui_prog" where
  "ui_sign_out w =
     and_then (ui_request w AccountSignOut (uw_unit w AccountSignOut)) (\<lambda>_. writes stop_event_forwarder)"

definition ui_is_signed_in :: "ui_world \<Rightarrow> bool ui_prog" where
  "ui_is_signed_in w =
     and_then (ui_request w IsAuthenticated (uw_authenticated w)) (\<lambda>b.
     and_then (writes (if b then start_event_forwarder else stop_event_forwarder)) (\<lambda>_. ret b))"

definition ui_locations_cmd :: "ui_world \<Rightarrow> location list ui_prog" where
  "ui_locations_cmd w =
     and_then (reads (\<lambda>a. ui_locations (ua_state a) = [])) (\<lambda>empty.
     and_then (if empty
         then and_then (ui_request w GetLocations (uw_locations w GetLocations)) (\<lambda>ps.
           writes (\<lambda>a. a\<lparr>ua_state := (ua_state a)\<lparr>ui_locations := locations_from_proto ps\<rparr>\<rparr>))
         else ret ()) (\<lambda>_.
       reads (\<lambda>a. ui_locations (ua_state a))))"

definition ui_recent_locations :: "ui_world \<Rightarrow> location list ui_prog" where
  "ui_recent_locations w =
     and_then (ui_request w RecentLocations (uw_locations w RecentLocations)) (\<lambda>ps.
       ret (locations_from_proto ps))"

definition ui_notifications :: "lib \<Rightarrow> ui_world \<Rightarrow> notification list ui_prog" where
  "ui_notifications L w =
     and_then (ui_request w GetNotifications (uw_notifications w)) (\<lambda>ps.
       give (unwrap_res (notifications_from_proto L ps)))"

definition ui_ack_notification :: "ui_world \<Rightarrow> string \<Rightarrow> unit ui_prog" where
  "ui_ack_notification w i = ui_request w (AckNotification i) (uw_unit w (AckNotification i))"

definition ui_connect :: "lib \<Rightarrow> ui_world \<Rightarrow> location \<Rightarrow> vpn_status ui_prog" where
  "ui_connect L w l =
     (let q = ConnectVpn (location_to_proto l) in
      and_then (ui_request w q (uw_status w q)) (\<lambda>p. give (unwrap_res (vpn_status_from_proto L p))))"

definition ui_disconnect :: "lib \<Rightarrow> ui_world \<Rightarrow> vpn_status ui_prog" where
  "ui_disconnect L w =
     and_then (ui_request w DisconnectVpn (uw_status w DisconnectVpn)) (\<lambda>p.
       give (unwrap_res (vpn_status_from_proto L p)))"

definition ui_get_vpn_status :: "lib \<Rightarrow> ui_world \<Rightarrow> vpn_status ui_prog" where
  "ui_get_vpn_status L w =
     and_then (ui_request w GetVpnStatus (uw_status w GetVpnStatus)) (\<lambda>p.
     and_then (give (unwrap_res (vpn_status_from_proto L p))) (\<lambda>v.
     and_then (writes (update_app_state v)) (\<lambda>_. ret v)))"

definition ui_update_available :: "ui_world \<Rightarrow> bool ui_prog" where
  "ui_update_available w =
     attempt (ui_request w LatestAppVersion (uw_version w)) (\<lambda>r. ret (case r of
       Ok latest \<Rightarrow> (case uw_newer w latest (uw_current_version w) of Some b \<Rightarrow> b | None \<Rightarrow> False)
     | _ \<Rightarrow> False))"

definition handle_system_tray_event :: "lib \<Rightarrow> ui_world \<Rightarrow> string \<Rightarrow> (ui_app, bool, ui_error) prog" where
  \<comment> \<open>a click on the item with this id; the result says whether the application exits\<close>
  "handle_system_tray_event L w i =
     (if i = ''hide_or_show'' then and_then (writes toggle_window_visibility) (\<lambda>_. ret False)
      else if i = ''disconnect'' then attempt (ui_disconnect L w) (\<lambda>_. ret False)
      else if i = ''quit'' then attempt (ui_disconnect L w) (\<lambda>_. ret True)
      else ret False)"

datatype ui_command =
    UiSignIn string string
  | UiSignOut
  | UiIsSignedIn
  | UiLocations
  | UiRecentLocations
  | UiNotifications
  | UiAckNotification string
  | UiConnect location
  | UiDisconnect
  | UiGetVpnStatus
  | UiUpdateAvailable
  | UiDaemonOnline
  | UiTrayClick string

definition ignore :: "'a ui_prog \<Rightarrow> unit ui_prog" where
  \<comment> \<open>the value goes to the window\<close>
  "ignore p = and_then p (\<lambda>_. ret ())"

fun run_ui_command :: "lib \<Rightarrow> ui_world \<times> ui_command \<Rightarrow> unit ui_prog" where
  "run_ui_command L (w, UiSignIn e p) = ui_sign_in w e p"
| "run_ui_command L (w, UiSignOut) = ui_sign_out w"
| "run_ui_command L (w, UiIsSignedIn) = ignore (ui_is_signed_in w)"
| "run_ui_command L (w, UiLocations) = ignore (ui_locations_cmd w)"
| "run_ui_command L (w, UiRecentLocations) = ignore (ui_recent_locations w)"
| "run_ui_command L (w, UiNotifications) = ignore (ui_notifications L w)"
| "run_ui_command L (w, UiAckNotification i) = ui_ack_notification w i"
| "run_ui_command L (w, UiConnect l) = ignore (ui_connect L w l)"
| "run_ui_command L (w, UiDisconnect) = ignore (ui_disconnect L w)"
| "run_ui_command L (w, UiGetVpnStatus) = ignore (ui_get_vpn_status L w)"
| "run_ui_command L (w, UiUpdateAvailable) = ignore (ui_update_available w)"
| "run_ui_command L (w, UiDaemonOnline) = ui_is_daemon_online w"
| "run_ui_command L (w, UiTrayClick i) = ignore (handle_system_tray_event L w i)"

section \<open>One forwarder at most\<close>

definition ui_ok :: "ui_app \<Rightarrow> bool" where
  \<comment> \<open>exactly the forwarder whose handle is kept runs\<close>
  "ui_ok a \<longleftrightarrow> ua_running a = (case ui_event_fwd_handler (ua_state a) of None \<Rightarrow> [] | Some i \<Rightarrow> [i])"

lemma ui_ok_new [simp]: "ui_ok ui_app_new"
  by (simp add: ui_ok_def ui_app_new_def ui_default_def)

lemma ui_ok_ops [simp]:
  "ui_ok a \<Longrightarrow> ui_ok (start_event_forwarder a)"
  "ui_ok a \<Longrightarrow> ui_ok (stop_event_forwarder a)"
  "ui_ok a \<Longrightarrow> ui_ok (update_app_state v a)"
  "ui_ok a \<Longrightarrow> ui_ok (toggle_window_visibility a)"
  "ui_ok a \<Longrightarrow> ui_ok (a\<lparr>ua_state := (ua_state a)\<lparr>ui_locations := ls\<rparr>\<rparr>)"
  "ui_ok a \<Longrightarrow> ui_ok (a\<lparr>ua_requests := qs\<rparr>)"
  by (simp_all add: ui_ok_def start_event_forwarder_def stop_event_forwarder_def update_app_state_def
      update_system_tray_def toggle_window_visibility_def Let_def split: option.splits)

lemma keeps_ui_request [keeps_intros]: "keeps ui_ok (ui_request w q r)"
  by (simp add: keeps_def ui_request_def)

lemma keeps_reads_any [keeps_intros]: "keeps I (\<lambda>s. (Ok (f s), s))"
  by (simp add: keeps_def)

lemma run_ui_command_keeps: "keeps ui_ok (run_ui_command L m)"
  by (cases "(L, m)" rule: run_ui_command.cases)
    (auto simp: ui_sign_in_def ui_sign_out_def ui_is_signed_in_def ui_locations_cmd_def
      ui_recent_locations_def ui_notifications_def ui_ack_notification_def ui_connect_def
      ui_disconnect_def ui_get_vpn_status_def ui_update_available_def ui_is_daemon_online_def
      handle_system_tray_event_def ignore_def Let_def intro!: keeps_intros)

interpretation ui_actor: actor "run_ui_command L" ui_ok "\<lambda>_. True" for L
  by unfold_locales (rule run_ui_command_keeps)

section \<open>Forwarding the daemon's broadcasts\<close>

fun emitted_of :: "broadcast \<Rightarrow> ui_event" where
  "emitted_of (StatusBroadcast v) = EmitVpnStatus v"
| "emitted_of (NotificationBroadcast n) = EmitNotification n"

fun last_status :: "vpn_status option \<Rightarrow> broadcast list \<Rightarrow> vpn_status option" where
  "last_status v [] = v"
| "last_status v (StatusBroadcast u # bs) = last_status (Some u) bs"
| "last_status v (NotificationBroadcast n # bs) = last_status v bs"

definition forwarded :: "broadcast list \<Rightarrow> ui_app \<Rightarrow> ui_app" where
  "forwarded bs a = a\<lparr>
     ua_state := (ua_state a)\<lparr>ui_vpn_status := last_status (ui_vpn_status (ua_state a)) bs\<rparr>,
     ua_refreshes := ua_refreshes a + length (filter (\<lambda>b. \<exists>v. b = StatusBroadcast v) bs),
     ua_emitted := ua_emitted a @ map emitted_of bs\<rparr>"

lemma forwarded_Nil: "forwarded [] a = a"
  by (simp add: forwarded_def)

lemma event_stream_of_broadcasts:
  "chrono_ok L \<Longrightarrow> event_stream L (stream_of L bs) a = (Ok (), forwarded bs a)"
proof (induction bs arbitrary: a)
  case Nil
  then show ?case by (simp add: stream_of_def forwarded_Nil)
next
  case (Cons b bs)
  then show ?case
    by (cases b) (simp_all add: stream_of_def prog_simps vpn_status_proto_roundtrip
        notification_proto_roundtrip emit_def update_app_state_def update_system_tray_def forwarded_def)
qed

section \<open>Properties\<close>

text \<open>The tray offers to disconnect exactly when a disconnect request would change the daemon's
  status: for every status the menu has the enabled item \<open>Disconnect\<close> if and only if the daemon's
  own transition on a disconnect is not the identity on it.\<close>

lemma tray_offers_disconnect_iff_effective:
  "MenuItem ''disconnect'' t e \<in> set (create_system_tray_menu (Some v) visible)
   \<longleftrightarrow> t = ''Disconnect'' \<and> e \<and> status_on_disconnect v \<noteq> v"
  by (cases v) (auto simp: create_system_tray_menu_def create_system_tray_menu_internal_def
      hide_or_show_item_def)

text \<open>C33: what the desktop shows is what the daemon broadcasts. Forwarding a stream of broadcasts
  never fails; the window gets each of them, in order; the state ends with the last status; and
  the tray's next refresh builds the menu of that status.\<close>

theorem ui_follows_broadcasts:
  assumes "chrono_ok L"
  shows "event_stream L (stream_of L bs) a = (Ok (), forwarded bs a)
     \<and> ua_emitted (forwarded bs a) = ua_emitted a @ map emitted_of bs
     \<and> ua_menu (run_tray_refresh (forwarded bs a)) =
         create_system_tray_menu (last_status (ui_vpn_status (ua_state a)) bs) (ui_window_visible (ua_state a))"
  using event_stream_of_broadcasts [OF assms] by (simp add: forwarded_def run_tray_refresh_def)

theorem ui_follows_broadcasts_witness:
  "ua_emitted (snd (event_stream sample_lib (stream_of sample_lib [StatusBroadcast VpnDisconnected]) ui_app_new))
     = [EmitVpnStatus VpnDisconnected]"
  using ui_follows_broadcasts [of sample_lib "[StatusBroadcast VpnDisconnected]" ui_app_new]
  by (simp add: ui_app_new_def)

text \<open>Whatever the window asks for and the daemon answers, at most one forwarder runs, and it is
  the one whose handle is kept: signing in twice does not double the events.\<close>

lemma one_forwarder:
  assumes "serve (run_ui_command L) cs ui_app_new = (r, a)"
  shows "length (ua_running a) \<le> 1 \<and> set (ua_running a) = set_option (ui_event_fwd_handler (ua_state a))"
  using ui_actor.serve_good [OF _ ui_ok_new assms]
  by (simp add: ui_ok_def split: option.splits)

definition sample_ui_world :: ui_world where
  "sample_ui_world = \<lparr>uw_up = True, uw_unit = (\<lambda>_. Ok ()), uw_authenticated = Ok True,
     uw_locations = (\<lambda>_. Ok []), uw_status = (\<lambda>_. Ok (vpn_status_to_proto sample_lib VpnDisconnected)),
     uw_notifications = Ok [], uw_version = Ok ''1'', uw_current_version = ''1'',
     uw_newer = (\<lambda>_ _. Some False)\<rparr>"

end
