(* ===== verification/System.thy ===== *)
theory System
  imports Controller Reclaimer Lifecycle
begin

text \<open>
  The whole daemon process: the daemon's task, the tasks it has spawned, the device service, the
  reclaimer and the clients behind the authentication middleware, over the one database they
  share. They run beside each other; a run is a sequence of labelled steps, in any order the
  channels allow, that may be cut off at any point and go on after a restart. A step is one event
  of the daemon, one message of the device service, or what a task does between two answers it
  waits for: a task that asks the server to end a session is two steps, and anything may happen
  between them.

  The session service and its watchers are seen through what they send: the answer to a request
  is part of the label, and a status may arrive at any time, for any session.
\<close>

section \<open>Tasks that wait for the server\<close>

definition start_end_session ::
    "lib \<Rightarrow> session_info option \<Rightarrow> string \<Rightarrow> (db, end_session option, db_err) prog" where
  \<comment> \<open>up to the request it sends to the session service, if it comes that far\<close>
  "start_end_session L info end_reason =
     (case info of
        Some i \<Rightarrow>
          attempt (get_device_unique_id L) (\<lambda>v. ret (case v of
            Ok device_unique_id \<Rightarrow> Some \<lparr>es_request_id = si_request_id i,
              es_device_unique_id = device_unique_id, es_vpn_session_uuid = si_vpn_session_id i,
              es_reason = end_reason\<rparr>
          | _ \<Rightarrow> None))
      | None \<Rightarrow> ret None)"

definition finish_end_session ::
    "lib \<Rightarrow> end_session \<Rightarrow> (ended, vpn_session_error) res \<Rightarrow> (db, unit, db_err) prog" where
  "finish_end_session L e r =
     (case r of
        Ok ended \<Rightarrow> attempt (storage_delete L (es_request_id e)) (\<lambda>_. ret ())
      | Err err \<Rightarrow> ret ()
      | Panic m \<Rightarrow> give (Panic m))"

definition start_reclaim :: "lib \<Rightarrow> (db, (uuid \<times> session_info) list, db_err) prog" where
  \<comment> \<open>the sessions of a round, each with the device's id\<close>
  "start_reclaim L =
     attempt (storage_to_reclaim L) (\<lambda>r. case r of
       Ok sessions \<Rightarrow>
         attempt (get_device L) (\<lambda>v. ret (case v of
           Ok (Some dd) \<Rightarrow> map (Pair (dd_unique_id dd)) sessions
         | _ \<Rightarrow> []))
     | _ \<Rightarrow> ret [])"

text \<open>Answered at once, the two halves are the task and the round.\<close>

lemma end_session_split:
  "run_end_session L answer info reason =
     and_then (start_end_session L info reason) (\<lambda>q. case q of
       Some e \<Rightarrow> finish_end_session L e (answer e)
     | None \<Rightarrow> ret ())"
  by (rule ext) (auto simp: run_end_session_def start_end_session_def finish_end_session_def prog_simps
      split: option.split prod.split res.split)

fun reclaim_pairs :: "lib \<Rightarrow> end_answers \<Rightarrow> (uuid \<times> session_info) list \<Rightarrow> (db, unit, db_err) prog" where
  "reclaim_pairs L answer [] = ret ()"
| "reclaim_pairs L answer ((dev, i) # ps) =
     and_then (reclaim_session L answer dev i) (\<lambda>_. reclaim_pairs L answer ps)"

lemma reclaim_pairs_map: "reclaim_pairs L answer (map (Pair dev) is) = reclaim_each L answer dev is"
  by (induction "is") simp_all

lemma reclaim_split:
  "reclaim L answer = and_then (start_reclaim L) (reclaim_pairs L answer)"
  by (rule ext) (auto simp: reclaim_def start_reclaim_def prog_simps reclaim_pairs_map
      split: option.split prod.split res.split)

section \<open>The process\<close>

record system =
  sy_daemon :: daemon  \<comment> \<open>its \<open>dm\_db\<close> is the database of all\<close>
  sy_mailbox :: "daemon_event list"  \<comment> \<open>the daemon's command channel\<close>
  sy_token :: "string option"  \<comment> \<open>the device service's token in memory\<close>
  sy_device_up :: bool  \<comment> \<open>its task has not panicked\<close>
  sy_ending :: "end_session list"  \<comment> \<open>requests of tasks that wait for the answer\<close>
  sy_reclaiming :: "(uuid \<times> session_info) list"  \<comment> \<open>what the reclaimer's round has left\<close>
  sy_up :: bool  \<comment> \<open>the process runs\<close>

abbreviation in_db :: "(db, 'a, 'e) prog \<Rightarrow> (system, 'a, 'e) prog" where
  "in_db p \<equiv> zoom (\<lambda>s. dm_db (sy_daemon s)) (\<lambda>d s. s\<lparr>sy_daemon := (sy_daemon s)\<lparr>dm_db := d\<rparr>\<rparr>) p"

definition sys_reply :: "daemon_reply \<Rightarrow> (system, unit, 'e) prog" where
  "sys_reply r = writes (\<lambda>s. s\<lparr>sy_daemon := (sy_daemon s)\<lparr>dm_replies := dm_replies (sy_daemon s) @ [r]\<rparr>\<rparr>)"

text \<open>A message to the device service, and its reply; there is none if the task is gone, or dies.\<close>

definition device_part :: "system \<Rightarrow> device_service" where
  "device_part s = \<lparr>svc_token = sy_token s, svc_db = dm_db (sy_daemon s), svc_replies = []\<rparr>"

definition device_call :: "lib \<Rightarrow> device_world \<Rightarrow> device_command \<Rightarrow> (system, device_reply option, 'e) prog" where
  "device_call L w c s =
     (if sy_device_up s
      then let (r, v) = handle_device_message L (w, c) (device_part s) in
        (Ok (case svc_replies v of [] \<Rightarrow> None | x # xs \<Rightarrow> Some x),
         s\<lparr>sy_token := svc_token v, sy_daemon := (sy_daemon s)\<lparr>dm_db := svc_db v\<rparr>,
           sy_device_up := \<not> is_panic r\<rparr>)
      else (Ok None, s))"

fun unit_reply :: "device_reply option \<Rightarrow> (unit, device_error) res option" where
  "unit_reply (Some (ReplySignIn r)) = Some r"
| "unit_reply (Some (ReplySignOut r)) = Some r"
| "unit_reply _ = None"

fun bool_reply :: "device_reply option \<Rightarrow> (bool, device_error) res option" where
  "bool_reply (Some (ReplyAuthenticated r)) = Some r"
| "bool_reply _ = None"

fun version_reply :: "device_reply option \<Rightarrow> (string, device_error) res option" where
  "version_reply (Some (ReplyVersion r)) = Some r"
| "version_reply _ = None"

text \<open>The calls of \<open>DeviceHandler\<close>: the command, and the answer or \<open>DeviceServiceUnavailable\<close>.\<close>

definition handler_sign_in ::
    "lib \<Rightarrow> device_world \<Rightarrow> user_credentials \<Rightarrow> (system, (unit, device_error) res, 'e) prog" where
  "handler_sign_in L w c =
     and_then (device_call L w (DevSignIn c)) (\<lambda>r. ret (device_send_command (unit_reply r)))"

definition handler_sign_out :: "lib \<Rightarrow> device_world \<Rightarrow> (system, (unit, device_error) res, 'e) prog" where
  "handler_sign_out L w =
     and_then (device_call L w DevSignOut) (\<lambda>r. ret (device_send_command (unit_reply r)))"

definition handler_latest_app_version ::
    "lib \<Rightarrow> device_world \<Rightarrow> (system, (string, device_error) res, 'e) prog" where
  "handler_latest_app_version L w =
     and_then (device_call L w DevLatestAppVersion) (\<lambda>r. ret (device_send_command (version_reply r)))"

definition handler_is_authenticated :: "lib \<Rightarrow> device_world \<Rightarrow> (system, bool, 'e) prog" where
  "handler_is_authenticated L w =
     and_then (device_call L w DevIsAuthenticated) (\<lambda>r. ret (is_authenticated (bool_reply r)))"

lemmas handler_defs = handler_sign_in_def handler_sign_out_def handler_latest_app_version_def
  handler_is_authenticated_def

record task_world =
  tw_device :: device_world
  tw_locations :: "(location list, vpn_session_error) res"

fun run_task :: "lib \<Rightarrow> task_world \<Rightarrow> daemon_task \<Rightarrow> (system, unit, db_err) prog" where
  "run_task L w (TaskAddRecent l) = in_db (run_add_recent l)"
| "run_task L w (TaskEndSession info reason) =
     and_then (in_db (start_end_session L info reason)) (\<lambda>q. case q of
       Some e \<Rightarrow> writes (\<lambda>s. s\<lparr>sy_ending := sy_ending s @ [e]\<rparr>)
     | None \<Rightarrow> ret ())"
| "run_task L w (TaskClientConnected i) = and_then (in_db (run_client_connected L i)) (\<lambda>_. ret ())"
| "run_task L w TaskIsAuthenticated =
     and_then (handler_is_authenticated L (tw_device w)) (\<lambda>b. sys_reply (AuthenticatedReply (Ok b)))"
| "run_task L w (TaskSignIn c) =
     and_then (handler_sign_in L (tw_device w) c) (\<lambda>r. sys_reply (DoneReply (map_device_error r)))"
| "run_task L w TaskSignOut =
     and_then (handler_sign_out L (tw_device w)) (\<lambda>r. sys_reply (DoneReply (map_device_error r)))"
| "run_task L w TaskListLocations =
     sys_reply (LocationListReply (map_session_error (tw_locations w)))"
| "run_task L w TaskRecentLocations =
     and_then (in_db (run_recent_locations L)) sys_reply"
| "run_task L w TaskLatestAppVersion =
     and_then (handler_latest_app_version L (tw_device w)) (\<lambda>r.
       sys_reply (VersionReply (map_device_error r)))"

definition remove_at :: "nat \<Rightarrow> 'a list \<Rightarrow> 'a list" where
  "remove_at i xs = take i xs @ drop (Suc i) xs"

definition forget_task :: "nat \<Rightarrow> system \<Rightarrow> system" where
  "forget_task i s = s\<lparr>sy_daemon := (sy_daemon s)\<lparr>dm_tasks := remove_at i (dm_tasks (sy_daemon s))\<rparr>\<rparr>"

definition boot :: "daemon \<Rightarrow> string option \<Rightarrow> system" where
  "boot dm t = \<lparr>sy_daemon = dm, sy_mailbox = [], sy_token = t, sy_device_up = True, sy_ending = [],
     sy_reclaiming = [], sy_up = True\<rparr>"

definition startup_on :: "db \<Rightarrow> startup" where
  "startup_on d = \<lparr>sup_db = d, sup_token = None, sup_parts = []\<rparr>"

definition restarted :: "lib \<Rightarrow> startup_world \<Rightarrow> system \<Rightarrow> system" where
  \<comment> \<open>a new process on the file the old one left; it may fail to start\<close>
  "restarted L w s = (case create_daemon L (w\<lparr>su_running := False,
        su_db_connect := Ok (dm_db (sy_daemon s))\<rparr>) (startup_on (dm_db (sy_daemon s))) of
      (Ok dm, u) \<Rightarrow> boot dm (sup_token u)
    | (_, u) \<Rightarrow> s\<lparr>sy_daemon := (sy_daemon s)\<lparr>dm_db := sup_db u\<rparr>\<rparr>)"

section \<open>Steps\<close>

datatype sys_label =
    ClientCalls rpc_request
  | TunnelReports tunnel_transition
  | WatcherReports vpn_session_status
  | DaemonHandles daemon_world
  | TaskRuns nat task_world
  | EndAnswered nat end_session "(ended, vpn_session_error) res"
  | ReclaimerStarts
  | ReclaimerAnswered end_session "(ended, vpn_session_error) res"
  | ShutsDown
  | Crashes
  | Restarts startup_world

definition post :: "daemon_event \<Rightarrow> system \<Rightarrow> system" where
  "post e s = s\<lparr>sy_mailbox := sy_mailbox s @ [e]\<rparr>"

inductive sys_step :: "lib \<Rightarrow> sys_label \<Rightarrow> system \<Rightarrow> system \<Rightarrow> bool" for L where
  client_calls: "sy_up s \<Longrightarrow> command_of_request q = Some c \<Longrightarrow>
    auth_call (rpc_path q) (sy_device_up s \<and> sy_token s \<noteq> None) (Ok ()) = Ok () \<Longrightarrow>
    sys_step L (ClientCalls q) s (post (EvCommand c) s)"
| tunnel_reports: "sy_up s \<Longrightarrow>
    sys_step L (TunnelReports tr) s (post (EvTunnelStateTransition tr) s)"
| watcher_reports: "sy_up s \<Longrightarrow>
    sys_step L (WatcherReports st) s (post (EvVpnSessionStatus st) s)"
| daemon_handles: "sy_up s \<Longrightarrow> sy_mailbox s = e # es \<Longrightarrow>
    handle_event L (w, e) (sy_daemon s) = (r, dm) \<Longrightarrow>
    sys_step L (DaemonHandles w) s (s\<lparr>sy_mailbox := es, sy_daemon := dm, sy_up := \<not> is_panic r\<rparr>)"
| task_runs: "sy_up s \<Longrightarrow> i < length (dm_tasks (sy_daemon s)) \<Longrightarrow>
    run_task L w (dm_tasks (sy_daemon s) ! i) (forget_task i s) = (r, s') \<Longrightarrow>
    sys_step L (TaskRuns i w) s s'"
| end_answered: "sy_up s \<Longrightarrow> i < length (sy_ending s) \<Longrightarrow> e = sy_ending s ! i \<Longrightarrow>
    in_db (finish_end_session L e a) (s\<lparr>sy_ending := remove_at i (sy_ending s)\<rparr>) = (r, s') \<Longrightarrow>
    sys_step L (EndAnswered i e a) s s'"
| reclaimer_starts: "sy_up s \<Longrightarrow> sy_reclaiming s = [] \<Longrightarrow> in_db (start_reclaim L) s = (r, s') \<Longrightarrow>
    sys_step L ReclaimerStarts s
      (s'\<lparr>sy_reclaiming := (case r of Ok ps \<Rightarrow> ps | _ \<Rightarrow> [])\<rparr>)"
| reclaimer_answered: "sy_up s \<Longrightarrow> sy_reclaiming s = (dev, i) # ps \<Longrightarrow> e = reclaim_request dev i \<Longrightarrow>
    in_db (reclaim_session L (\<lambda>_. a) dev i) s = (r, s') \<Longrightarrow>
    sys_step L (ReclaimerAnswered e a) s (s'\<lparr>sy_reclaiming := ps\<rparr>)"
| shuts_down: "sy_up s \<Longrightarrow> handle_shutdown L (sy_daemon s) = (r, dm) \<Longrightarrow>
    sys_step L ShutsDown s (s\<lparr>sy_daemon := dm, sy_up := False\<rparr>)"
| crashes: "sy_up s \<Longrightarrow> sys_step L Crashes s (s\<lparr>sy_up := False\<rparr>)"
| restarts: "\<not> sy_up s \<Longrightarrow> sys_step L (Restarts w) s (restarted L w s)"

inductive sys_run :: "lib \<Rightarrow> system \<Rightarrow> sys_label list \<Rightarrow> system \<Rightarrow> bool" for L where
  run_none: "sys_run L s [] s"
| run_more: "sys_step L a s s1 \<Longrightarrow> sys_run L s1 as s2 \<Longrightarrow> sys_run L s (a # as) s2"

inductive_cases sys_stepE:
  "sys_step L (ClientCalls q) s s'" "sys_step L (TunnelReports tr) s s'"
  "sys_step L (WatcherReports st) s s'" "sys_step L (DaemonHandles w) s s'"
  "sys_step L (TaskRuns i w) s s'" "sys_step L (EndAnswered i e a) s s'"
  "sys_step L ReclaimerStarts s s'" "sys_step L (ReclaimerAnswered e a) s s'"
  "sys_step L ShutsDown s s'" "sys_step L Crashes s s'" "sys_step L (Restarts w) s s'"

inductive_simps run_simps: "sys_run L s [] s'" "sys_run L s (a # as) s'"


lemma create_daemon_state:
  "create_daemon L w u = (Ok dm, u') \<Longrightarrow> dm = daemon_new (sup_db u')"
  by (auto simp: create_daemon_def and_then_Ok_iff start_part_def split: if_splits)

section \<open>What all steps keep\<close>

definition sys_inv :: "(db \<Rightarrow> bool) \<Rightarrow> (vpn_session_status \<Rightarrow> bool) \<Rightarrow> system \<Rightarrow> bool" where
  "sys_inv J S s \<longleftrightarrow> dm_inv J False (sy_daemon s)
     \<and> (\<forall>st. EvVpnSessionStatus st \<in> set (sy_mailbox s) \<longrightarrow> S st)"

lemma sys_inv_fields [simp]:
  "sys_inv J S (s\<lparr>sy_ending := x\<rparr>) = sys_inv J S s"
  "sys_inv J S (s\<lparr>sy_reclaiming := y\<rparr>) = sys_inv J S s"
  "sys_inv J S (s\<lparr>sy_up := b\<rparr>) = sys_inv J S s"
  "sys_inv J S (forget_task i s) = sys_inv J S s"
  by (simp_all add: sys_inv_def dm_inv_def forget_task_def)

lemma sys_inv_post:
  "sys_inv J S s \<Longrightarrow> (\<And>st. e = EvVpnSessionStatus st \<Longrightarrow> S st) \<Longrightarrow> sys_inv J S (post e s)"
  by (auto simp: sys_inv_def post_def)

definition answer_ok :: "(uuid \<Rightarrow> bool) \<Rightarrow> end_session \<Rightarrow> bool \<Rightarrow> bool" where
  \<comment> \<open>a request may be settled only if the row it is about may go\<close>
  "answer_ok D e b \<longleftrightarrow> (b \<longrightarrow> D (es_request_id e))"

fun label_ok ::
    "(uuid \<Rightarrow> bool) \<Rightarrow> (uuid \<Rightarrow> bool) \<Rightarrow> (vpn_session_status \<Rightarrow> bool) \<Rightarrow> (accepted \<Rightarrow> bool)
      \<Rightarrow> (string \<Rightarrow> bool) \<Rightarrow> sys_label \<Rightarrow> bool" where
  "label_ok K D S A T (WatcherReports st) = S st"
| "label_ok K D S A T (DaemonHandles w) = world_ok K A w"
| "label_ok K D S A T (TaskRuns i w) =
     (\<forall>r a. srv_add_device (dw_server (tw_device w)) r = Ok a \<longrightarrow> T (ads_token a))"
| "label_ok K D S A T (EndAnswered i e a) = answer_ok D e (\<exists>x. a = Ok x)"
| "label_ok K D S A T (ReclaimerAnswered e a) = answer_ok D e (settled a)"
| "label_ok K D S A T (ClientCalls q) = True"
| "label_ok K D S A T (TunnelReports tr) = True"
| "label_ok K D S A T ReclaimerStarts = True"
| "label_ok K D S A T ShutsDown = True"
| "label_ok K D S A T Crashes = True"
| "label_ok K D S A T (Restarts w) = True"


text \<open>
  A property of the database that the operations keep, every step keeps. The locale lists what the
  process does on the database beyond the daemon's own operations; \<open>T\<close> says which tokens the server
  may issue.
\<close>

locale kept_system = kept_store +
  fixes T :: "string \<Rightarrow> bool"
  assumes recents_keep: "keeps J (add_recent l)" "keeps J (recent L)"
    and init_keeps: "keeps J (device_init L h w)"
    and reinit_keeps: "keeps J (reinitialize L h w)"
    and device_keeps: "keeps J (get_device L)"
    and ipv4_keeps: "keeps J (update_ipv4_address L u ip)"
    and token_keeps: "T t \<Longrightarrow> keeps J (save_token t)" "keeps J remove_all" "keeps J (get_token L)"
    and sweep_keeps: "keeps J storage_reclaim"
    and to_reclaim_keeps: "keeps J (storage_to_reclaim L)"
begin

lemma keeps_svc [keeps_intros]: "keeps J p \<Longrightarrow> keeps (\<lambda>v. J (svc_db v)) (in_svc_db p)"
  by (rule keeps_zoom [where J = J]) simp_all

lemma call_keeps: "keeps J (authorized_call L f)"
  unfolding authorized_call_def authorization_def bearer_token_def
  by (auto intro!: keeps_intros token_keeps split: option.split)

lemma device_message_keeps_db:
  assumes "\<forall>r a. srv_add_device (dw_server w) r = Ok a \<longrightarrow> T (ads_token a)"
  shows "keeps (\<lambda>v. J (svc_db v)) (handle_device_message L (w, c))"
proof -
  have "keeps (\<lambda>v. J (svc_db v)) (handle_sign_in_inner L w creds)" for creds
    unfolding handle_sign_in_inner_def
    using assms by (auto intro!: keeps_reply keeps_and_then keeps_with_err keeps_svc init_keeps
        device_keeps token_keeps ipv4_keeps keeps_intros)
  moreover have "keeps (\<lambda>v. J (svc_db v)) (handle_sign_out_inner L w)"
    unfolding handle_sign_out_inner_def
    by (auto intro!: keeps_intros call_keeps reinit_keeps token_keeps split: res.split)
  moreover have "keeps (\<lambda>v. J (svc_db v)) (handle_latest_app_version_inner L w)"
    unfolding handle_latest_app_version_inner_def by (auto intro!: keeps_intros call_keeps)
  ultimately show ?thesis
    by (cases c) (auto simp: respond_def intro!: keeps_intros)
qed

lemma keeps_sys_db [keeps_intros]: "keeps J p \<Longrightarrow> keeps (sys_inv J S) (in_db p)"
  by (rule keeps_zoom [where J = J]) (simp_all add: sys_inv_def dm_inv_def)

lemma keeps_sys_reply [keeps_intros]: "keeps (sys_inv J S) (sys_reply r)"
  by (simp add: sys_reply_def keeps_def sys_inv_def dm_inv_def)

lemma keeps_device_call [keeps_intros]:
  assumes "\<forall>r a. srv_add_device (dw_server w) r = Ok a \<longrightarrow> T (ads_token a)"
  shows "keeps (sys_inv J S) (device_call L w c)"
proof (rule keepsI)
  fix s r s'
  assume s: "sys_inv J S s" and run: "device_call L w c s = (r, s')"
  obtain q v where q: "handle_device_message L (w, c) (device_part s) = (q, v)" by fastforce
  from keepsD [OF device_message_keeps_db [OF assms] _ q] s have "J (svc_db v)"
    by (simp add: sys_inv_def dm_inv_def device_part_def)
  with s run q show "sys_inv J S s'"
    by (auto simp: device_call_def sys_inv_def dm_inv_def split: if_splits)
qed

lemma keeps_start_end [keeps_intros]: "keeps J (start_end_session L info reason)"
  unfolding start_end_session_def
  by (auto intro!: keeps_intros unique_id_keeps split: option.split)

lemma keeps_finish_end:
  "answer_ok D e (\<exists>x. a = Ok x) \<Longrightarrow> keeps J (finish_end_session L e a)"
  unfolding finish_end_session_def answer_ok_def
  by (cases a) (auto intro!: keeps_intros delete_keeps)

lemma keeps_start_reclaim: "keeps J (start_reclaim L)"
  unfolding start_reclaim_def
  by (auto intro!: keeps_intros to_reclaim_keeps device_keeps split: res.split)

lemma keeps_reclaim_one:
  "answer_ok D (reclaim_request dev i) (settled a) \<Longrightarrow> keeps J (reclaim_session L (\<lambda>_. a) dev i)"
  unfolding reclaim_session_def answer_ok_def
  by (cases a) (auto intro!: keeps_intros delete_keeps
      simp: settled_def reclaim_request_def split: vpn_session_error.split)

lemma keeps_task:
  assumes "\<forall>r a. srv_add_device (dw_server (tw_device w)) r = Ok a \<longrightarrow> T (ads_token a)"
  shows "keeps (sys_inv J S) (run_task L w t)"
  using assms
  by (cases t) (auto simp: handler_defs run_add_recent_def run_client_connected_def run_recent_locations_def
      intro!: keeps_intros recents_keep unique_id_keeps split: option.split)

lemma keeps_create:
  assumes "J d"
  shows "J (sup_db (snd (create_daemon L (w\<lparr>su_running := False, su_db_connect := Ok d\<rparr>) (startup_on d))))"
proof -
  have db: "keeps (\<lambda>u. J (sup_db u)) (in_sup_db p)" if "keeps J p" for p
    using that by (rule keeps_zoom [where J = J]) simp_all
  have "keeps J (device_service_new L)" by (rule keeps_service_new) (rule token_keeps)
  then have "keeps (\<lambda>u. J (sup_db u)) (start_device_handler L x)" for x
    unfolding start_device_handler_def start_part_def
    by (auto intro!: keeps_intros db)
  then have "keeps (\<lambda>u. J (sup_db u)) (create_daemon L (w\<lparr>su_running := False, su_db_connect := Ok d\<rparr>))"
    unfolding create_daemon_def start_part_def initialize_device_def
    using assms by (auto simp: db_new_def res_bind_Ok_iff intro!: keeps_intros keeps_reply db init_keeps sweep_keeps)
  then show ?thesis using assms by (simp add: keeps_def startup_on_def)
qed

lemma step_keeps:
  assumes "sys_step L a s s'" and "label_ok K D S A T a" and inv: "sys_inv J S s"
  shows "sys_inv J S s'"
  using assms(1)
proof cases
  case (client_calls q c)
  with inv show ?thesis by (auto intro: sys_inv_post)
next
  case (tunnel_reports tr)
  with inv show ?thesis by (auto intro: sys_inv_post)
next
  case (watcher_reports st)
  with inv assms(2) show ?thesis by (auto intro: sys_inv_post)
next
  case (daemon_handles e es w r dm)
  have "event_ok K S A (w, e)"
    using inv assms(2) daemon_handles by (auto simp: event_ok_def sys_inv_def)
  from keepsD [OF keeps_event [OF this] _ daemon_handles(5)] inv daemon_handles show ?thesis
    by (auto simp: sys_inv_def dm_inv_def)
next
  case (task_runs i w r)
  from keepsD [OF keeps_task _ task_runs(4)] inv assms(2) task_runs show ?thesis by simp
next
  case (end_answered i e x r)
  from keepsD [OF keeps_sys_db [OF keeps_finish_end] _ end_answered(5)] inv assms(2) end_answered
  show ?thesis by simp
next
  case (reclaimer_starts r t)
  from keepsD [OF keeps_sys_db [OF keeps_start_reclaim] inv reclaimer_starts(5)] reclaimer_starts
  show ?thesis by simp
next
  case (reclaimer_answered dev i ps e x r t)
  from keepsD [OF keeps_sys_db [OF keeps_reclaim_one] inv reclaimer_answered(6)] assms(2)
    reclaimer_answered
  show ?thesis by simp
next
  case (shuts_down r dm)
  from keepsD [OF keeps_shutdown _ shuts_down(4), of False] inv shuts_down show ?thesis
    by (simp add: sys_inv_def)
next
  case crashes
  with inv show ?thesis by simp
next
  case (restarts w)
  then show ?thesis
    using keeps_create [of "dm_db (sy_daemon s)" w] inv
    by (auto simp: restarted_def boot_def sys_inv_def dm_inv_def daemon_new_def dest!: create_daemon_state
        split: prod.splits res.splits)
qed

lemma run_keeps:
  "sys_run L s as s' \<Longrightarrow> \<forall>a \<in> set as. label_ok K D S A T a \<Longrightarrow> sys_inv J S s \<Longrightarrow> sys_inv J S s'"
  by (induction rule: sys_run.induct) (auto intro: step_keeps)

end

section \<open>What the parts leave alone\<close>

definition same_sessions :: "session_row list \<Rightarrow> db \<Rightarrow> bool" where
  "same_sessions rs d \<longleftrightarrow> vpn_sessions d = rs"

definition same_accounts :: "device_row list \<times> token_row list \<Rightarrow> db \<Rightarrow> bool" where
  "same_accounts x d \<longleftrightarrow> (devices d, tokens d) = x"

lemma statements_keep_sessions [keeps_intros]:
  "keeps (same_sessions rs) (sql_one L device_table P)"
  "keeps (same_sessions rs) (sql_insert device_table key r)"
  "keeps (same_sessions rs) (sql_update device_table P f)"
  "keeps (same_sessions rs) (sql_delete_many device_table P)"
  "keeps (same_sessions rs) (sql_one L token_table Q)"
  "keeps (same_sessions rs) (sql_insert token_table key2 t)"
  "keeps (same_sessions rs) (sql_delete_many token_table Q)"
  "keeps (same_sessions rs) (sql_insert recent_table key3 c)"
  "keeps (same_sessions rs) (sql_delete_many recent_table C)"
  "keeps (same_sessions rs) (sql_all session_table R)"
  unfolding sql_one_def sql_insert_def sql_update_def sql_delete_many_def sql_all_def
  by (rule keeps_statement; simp add: keeps_def same_sessions_def)+

lemma recents_keep_sessions [keeps_intros]:
  "keeps (same_sessions rs) fresh_id" "keeps (same_sessions rs) (recent L)"
  "keeps (same_sessions rs) (add_recent l)"
proof -
  have del: "keeps (same_sessions rs) (\<lambda>d. sql_delete_many recent_table (C d) d)" for C
    using statements_keep_sessions(9) unfolding keeps_def by blast
  show id: "keeps (same_sessions rs) fresh_id"
    by (simp add: keeps_def same_sessions_def fresh_id_run)
  show "keeps (same_sessions rs) (recent L)"
    unfolding recent_def by (rule keeps_statement) (simp_all add: keeps_def same_sessions_def)
  show "keeps (same_sessions rs) (add_recent l)"
    unfolding add_recent_def by (auto intro!: keeps_intros id del)
qed

lemma accounts_keep_sessions [keeps_intros]:
  "keeps (same_sessions rs) (device_init L h w)" "keeps (same_sessions rs) (reinitialize L h w)"
  "keeps (same_sessions rs) (get_device L)" "keeps (same_sessions rs) (get_device_unique_id L)"
  "keeps (same_sessions rs) (update_ipv4_address L u a)" "keeps (same_sessions rs) (save_token t)"
  "keeps (same_sessions rs) remove_all" "keeps (same_sessions rs) (get_token L)"
  "keeps (same_sessions rs) (storage_to_reclaim L)"
  unfolding device_init_def reinitialize_def get_device_def get_device_unique_id_def
    update_ipv4_address_def save_token_def remove_all_def get_token_def storage_to_reclaim_def Let_def
  by (auto intro!: keeps_intros split: option.split)

lemma statements_keep_accounts [keeps_intros]:
  "keeps (same_accounts x) (sql_one L session_table P)"
  "keeps (same_accounts x) (sql_all session_table P)"
  "keeps (same_accounts x) (sql_insert session_table key r)"
  "keeps (same_accounts x) (sql_update_many session_table P f)"
  "keeps (same_accounts x) (sql_update session_table P f)"
  "keeps (same_accounts x) (sql_delete_many session_table P)"
  "keeps (same_accounts x) (sql_insert recent_table key3 c)"
  "keeps (same_accounts x) (sql_delete_many recent_table C)"
  "keeps (same_accounts x) (sql_one L device_table Q)"
  "keeps (same_accounts x) (sql_one L token_table U)"
  unfolding sql_one_def sql_all_def sql_insert_def sql_update_many_def sql_update_def sql_delete_many_def
  by (rule keeps_statement; simp add: keeps_def same_accounts_def)+

lemma sessions_keep_accounts [keeps_intros]:
  "keeps (same_accounts x) (storage_new_session L k now l)"
  "keeps (same_accounts x) (storage_end_session L)"
  "keeps (same_accounts x) (storage_update_on_accepted L a)"
  "keeps (same_accounts x) (storage_delete L k)"
  "keeps (same_accounts x) (updated_server_status L now st)"
  "keeps (same_accounts x) (tunnel_state_transition L now tr cur)"
  "keeps (same_accounts x) storage_reclaim" "keeps (same_accounts x) (storage_to_reclaim L)"
  "keeps (same_accounts x) (get_device_unique_id L)" "keeps (same_accounts x) (get_device L)"
  "keeps (same_accounts x) (get_token L)"
  unfolding storage_new_session_def storage_end_session_def storage_update_on_accepted_def
    storage_delete_def updated_server_status_def apply_server_status_def tunnel_state_transition_def
    transition_with_session_def transition_without_session_def storage_reclaim_def
    storage_to_reclaim_def get_device_unique_id_def get_device_def get_token_def update_row_def
    delete_row_def Let_def
  by (auto intro!: keeps_intros split: option.split vpn_status.split vpn_session_status.split
      tunnel_transition.split)

lemma recents_keep_accounts [keeps_intros]:
  "keeps (same_accounts x) (recent L)" "keeps (same_accounts x) (add_recent l)"
proof -
  have del: "keeps (same_accounts x) (\<lambda>d. sql_delete_many recent_table (C d) d)" for C
    using statements_keep_accounts(8) unfolding keeps_def by blast
  have id: "keeps (same_accounts x) fresh_id"
    by (simp add: keeps_def same_accounts_def fresh_id_run)
  show "keeps (same_accounts x) (recent L)"
    unfolding recent_def by (rule keeps_statement) (simp_all add: keeps_def same_accounts_def)
  show "keeps (same_accounts x) (add_recent l)"
    unfolding add_recent_def by (auto intro!: keeps_intros id del)
qed

section \<open>Laws of the rows of the session table\<close>

definition grows :: "(session_row \<Rightarrow> session_row) \<Rightarrow> bool" where
  \<comment> \<open>a change of a row that keeps its ids and never takes its mark away\<close>
  "grows f \<longleftrightarrow> (\<forall>r. row_request_id (f r) = row_request_id r \<and> row_session_uuid (f r) = row_session_uuid r
     \<and> (row_mark_for_deletion r \<longrightarrow> row_mark_for_deletion (f r)))"

definition ends_row :: "lib \<Rightarrow> vpn_session_status \<Rightarrow> string option" where
  \<comment> \<open>the row a status deletes\<close>
  "ends_row L st = (case st of
      SessFailed f \<Rightarrow> Some (uuid_to_string L (fl_request_id f))
    | SessEnded e \<Rightarrow> Some (uuid_to_string L (en_request_id e))
    | _ \<Rightarrow> None)"

text \<open>
  A law speaks of the rows only: rows whose id is \<open>new\<close> may be added, without a session of the server;
  rows may grow; a row whose id is \<open>acc\<close> may be given the server's session; and rows whose id is
  \<open>del\<close> may go. What follows it is that a property of that kind is kept by the whole
  process.
\<close>

locale row_law =
  fixes L :: lib
    and P :: "session_row list \<Rightarrow> bool"
    and new :: "string \<Rightarrow> bool"
    and del :: "string \<Rightarrow> bool"
    and acc :: "string \<Rightarrow> bool"
  assumes added: "P rs \<Longrightarrow> new (row_request_id r) \<Longrightarrow> row_session_uuid r = None \<Longrightarrow> P (rs @ [r])"
    and grown: "P rs \<Longrightarrow> grows f \<Longrightarrow> P (map f rs)"
    and given: "P rs \<Longrightarrow> acc i \<Longrightarrow>
      P (map (\<lambda>r. if row_request_id r = i then r\<lparr>row_server_status := u, row_session_uuid := v\<rparr> else r) rs)"
    and gone: "P rs \<Longrightarrow> \<forall>r. Q r \<longrightarrow> del (row_request_id r) \<Longrightarrow> P (filter (\<lambda>r. \<not> Q r) rs)"
    and new_del: "new i \<Longrightarrow> del i"
begin

abbreviation law :: "db \<Rightarrow> bool" where
  "law d \<equiv> P (vpn_sessions d)"

abbreviation may_end :: "vpn_session_status \<Rightarrow> bool" where
  "may_end st \<equiv> \<forall>i. ends_row L st = Some i \<longrightarrow> del i"

lemma keeps_insert_law:
  "new (row_request_id r) \<Longrightarrow> row_session_uuid r = None \<Longrightarrow> keeps law (sql_insert session_table key r)"
  unfolding sql_insert_def by (rule keeps_statement) (simp_all add: keeps_def added)

lemma keeps_one_law [keeps_intros]: "keeps law (sql_one M session_table Q)"
  unfolding sql_one_def by (rule keeps_statement) (simp_all add: keeps_def)

lemma grown_some: "P rs \<Longrightarrow> grows f \<Longrightarrow> P (map (\<lambda>r. if Q r then f r else r) rs)"
  by (rule grown) (simp_all add: grows_def)

lemma keeps_change_law [keeps_intros]:
  assumes "grows f"
  shows "keeps law (sql_update_many session_table Q f)" "keeps law (sql_update session_table Q f)"
  unfolding sql_update_many_def sql_update_def
  using assms by (rule_tac [!] keeps_statement) (simp_all add: keeps_def grown_some)

lemma keeps_given_law:
  "acc i \<Longrightarrow> keeps law (sql_update_many session_table (\<lambda>r. row_request_id r = i)
     (\<lambda>r. r\<lparr>row_server_status := u, row_session_uuid := v\<rparr>))"
  unfolding sql_update_many_def by (rule keeps_statement) (simp_all add: keeps_def given)

lemma keeps_delete_law:
  "(\<And>r. Q r \<Longrightarrow> del (row_request_id r)) \<Longrightarrow> keeps law (sql_delete_many session_table Q)"
  unfolding sql_delete_many_def by (rule keeps_statement) (auto simp: keeps_def intro: gone)

lemma row_grows [simp]: "grows mark_row" "grows (set_status x)" "grows (set_ready M sr)"
  by (simp_all add: grows_def mark_row_def set_status_def set_ready_def)

lemma keeps_row_law [keeps_intros]: "grows f \<Longrightarrow> keeps law (update_row r f)"
  unfolding update_row_def by (intro keeps_intros)

lemma keeps_other: "(\<And>rs. keeps (same_sessions rs) p) \<Longrightarrow> keeps law p"
  unfolding keeps_def same_sessions_def by metis

lemmas keeps_others = accounts_keep_sessions [THEN keeps_other] recents_keep_sessions [THEN keeps_other]

lemma keeps_status_law:
  assumes "may_end st"
  shows "keeps law (updated_server_status L now st)"
  unfolding updated_server_status_def
proof (rule keeps_and_then_value, goal_cases)
  case 1
  show ?case by (intro keeps_intros)
next
  case (2 v s s')
  have "keeps law (apply_server_status L now st r)" if "v = Some r" for r
  proof -
    have "row_request_id r = uuid_to_string L (si_request_id (get_session_info st))"
      using sessions.one_Some 2 that by blast
    with assms have "ends_row L st \<noteq> None \<Longrightarrow> keeps law (delete_row r)"
      unfolding delete_row_def
      by (intro keeps_delete_law) (auto simp: ends_row_def split: vpn_session_status.splits)
    then show ?thesis
      unfolding apply_server_status_def Let_def
      by (cases st) (auto simp: ends_row_def intro!: keeps_intros)
  qed
  then show ?case by (cases v) (auto intro: keeps_ret)
qed

lemma keeps_transition_law: "keeps law (tunnel_state_transition L now tr cur)"
  unfolding tunnel_state_transition_def transition_with_session_def transition_without_session_def Let_def
  by (cases tr) (auto intro!: keeps_intros split: option.split vpn_status.split)

end

sublocale row_law \<subseteq> kept_system L law "\<lambda>k. new (uuid_to_string L k)" "\<lambda>k. del (uuid_to_string L k)"
    may_end "\<lambda>a. acc (uuid_to_string L (acc_request_id a))" "\<lambda>_. True"
proof (unfold_locales, goal_cases)
  case (1 k now l)
  then show ?case
    unfolding storage_new_session_def
    by (intro keeps_intros keeps_insert_law) (simp_all add: session_row_of_def)
next
  case (2 k)
  then show ?case
    unfolding storage_delete_def by (intro keeps_intros keeps_delete_law) simp
next
  case (6 a)
  then show ?case
    unfolding storage_update_on_accepted_def by (intro keeps_intros keeps_given_law)
qed (auto simp: new_del keeps_status_law keeps_transition_law storage_end_session_def
    storage_reclaim_def intro!: keeps_others keeps_intros split: option.split)

definition not_live :: "string \<Rightarrow> session_row list \<Rightarrow> bool" where
  "not_live k rs \<longleftrightarrow> (\<forall>r \<in> set rs. row_request_id r = k \<longrightarrow> row_mark_for_deletion r)"

definition filed :: "string \<Rightarrow> session_row list \<Rightarrow> bool" where
  "filed k rs \<longleftrightarrow> k \<in> row_request_id ` set rs"

interpretation dead: row_law L "not_live k" "\<lambda>i. i \<noteq> k" "\<lambda>_. True" "\<lambda>_. True" for L k
  by unfold_locales (auto simp: not_live_def grows_def)

lemma filed_map: "(\<And>r. row_request_id (f r) = row_request_id r) \<Longrightarrow> filed k (map f rs) = filed k rs"
  by (simp add: filed_def image_image)

interpretation kept: row_law L "filed k" "\<lambda>i. i \<noteq> k" "\<lambda>i. i \<noteq> k" "\<lambda>_. True" for L k
  by unfold_locales (auto simp: filed_map grows_def, auto simp: filed_def image_iff)

text \<open>The database in order: its rows can be read, and what is read back is good.\<close>

definition in_order :: "lib \<Rightarrow> db \<Rightarrow> bool" where
  "in_order L d \<longleftrightarrow> lib_ok L \<and> rows_ok L d \<and> stored_ok L d"

lemma in_order_sessions:
  assumes "lib_ok L \<Longrightarrow> keeps (rows_ok L) p" and "\<And>x. keeps (same_accounts x) p"
  shows "keeps (in_order L) p"
proof (rule keepsI)
  fix d r d'
  assume d: "in_order L d" and run: "p d = (r, d')"
  have "same_accounts (devices d, tokens d) d'"
    using keepsD [OF assms(2) _ run] by (simp add: same_accounts_def)
  moreover have "rows_ok L d'" using keepsD [OF assms(1) _ run] d by (simp add: in_order_def)
  ultimately show "in_order L d'"
    using d by (simp add: in_order_def stored_ok_def device_ok_def tokens_safe_def same_accounts_def)
qed

lemma in_order_accounts:
  assumes "lib_ok L \<Longrightarrow> keeps (stored_ok L) p" and "\<And>rs. keeps (same_sessions rs) p"
  shows "keeps (in_order L) p"
proof (rule keepsI)
  fix d r d'
  assume d: "in_order L d" and run: "p d = (r, d')"
  have "vpn_sessions d' = vpn_sessions d"
    using keepsD [OF assms(2) _ run] by (simp add: same_sessions_def)
  moreover have "stored_ok L d'" using keepsD [OF assms(1) _ run] d by (simp add: in_order_def)
  ultimately show "in_order L d'" using d by (simp add: in_order_def rows_ok_def)
qed

lemma keeps_stored [keeps_intros]:
  "keeps (device_ok L) p \<Longrightarrow> keeps (tokens_safe L) p \<Longrightarrow> keeps (stored_ok L) p"
  by (simp add: keeps_def stored_ok_def)

lemma keeps_rows_recents [keeps_intros]:
  "keeps (rows_ok L) (recent M)" "keeps (rows_ok L) (add_recent l)"
  using recents_keep_sessions(2,3) unfolding keeps_def same_sessions_def rows_ok_def by metis+

lemma device_get_token [keeps_intros]: "keeps (device_ok L) (get_token M)"
  by (rule boot_keeps(3))

interpretation ordered: kept_system L "in_order L" "\<lambda>_. True" "\<lambda>_. True" "\<lambda>_. True" "\<lambda>_. True" "token_safe L" for L
  by unfold_locales
    ((rule in_order_sessions; (intro keeps_intros)?; (erule lib_uuid)?; fail)
     | (rule in_order_accounts; (intro keeps_intros)?; assumption?; fail) | simp)+

end
