(* ===== verification/Guarantees.thy ===== *)
theory Guarantees
  imports System
begin

text \<open>
  What holds of every run of the daemon's process: its database stays in order, no session is
  forgotten, an ended one never comes back; and one run that goes wrong, a race of signing out and
  connecting.
\<close>

section \<open>The process in order\<close>

definition sys_ordered :: "lib \<Rightarrow> system \<Rightarrow> bool" where
  "sys_ordered L s \<longleftrightarrow> sys_inv (in_order L) (\<lambda>_. True) s \<and> sy_device_up s"

fun server_behaves :: "lib \<Rightarrow> sys_label \<Rightarrow> bool" where
  \<comment> \<open>the server's answers to the device service decode, and its tokens are header values\<close>
  "server_behaves L (TaskRuns i w) = server_calm L (dw_server (tw_device w))"
| "server_behaves L a = True"

lemma keeps_up [keeps_intros]:
  "keeps sy_device_up (in_db p)" "keeps sy_device_up (sys_reply r)"
  by (auto simp: keeps_def zoom_def sys_reply_def split: prod.split)

lemma behaves_label:
  "server_behaves L a \<Longrightarrow> label_ok (\<lambda>_. True) (\<lambda>_. True) (\<lambda>_. True) (\<lambda>_. True) (token_safe L) a"
  by (cases a) (auto simp: server_calm_def answer_ok_def)

lemma ordered_device_call [keeps_intros]:
  assumes "server_calm L (dw_server w)"
  shows "keeps (sys_ordered L) (device_call L w c)"
proof (rule keepsI)
  fix s r s'
  assume s: "sys_ordered L s" and run: "device_call L w c s = (r, s')"
  have "sys_inv (in_order L) (\<lambda>_. True) s'"
    using keepsD [OF ordered.keeps_device_call _ run] assms s
    by (simp add: sys_ordered_def server_calm_def)
  moreover obtain q v where q: "handle_device_message L (w, c) (device_part s) = (q, v)" by fastforce
  have "lib_ok L" and "svc_ok L (device_part s)"
    using s by (simp_all add: sys_ordered_def sys_inv_def dm_inv_def in_order_def svc_ok_stored device_part_def)
  with calmD [OF device_message_calm _ q] assms have "\<not> is_panic q" by simp
  ultimately show "sys_ordered L s'"
    using s run q by (auto simp: sys_ordered_def device_call_def)
qed

lemma ordered_of [keeps_intros]:
  "keeps (in_order L) p \<Longrightarrow> keeps (sys_ordered L) (in_db p)" "keeps (sys_ordered L) (sys_reply r)"
  unfolding sys_ordered_def
  by (intro keeps_conj keeps_up ordered.keeps_sys_db ordered.keeps_sys_reply; assumption)+

lemma ordered_task:
  assumes "server_calm L (dw_server (tw_device w))"
  shows "keeps (sys_ordered L) (run_task L w t)"
  using assms
  by (cases t) (auto simp: handler_defs run_add_recent_def run_client_connected_def run_recent_locations_def
      intro!: keeps_intros ordered.recents_keep ordered.unique_id_keeps ordered.keeps_start_end
      simp: sys_ordered_def split: option.split)

lemma ordered_step:
  assumes step: "sys_step L a s s'" and "server_behaves L a" and "sys_ordered L s"
  shows "sys_ordered L s'"
proof -
  have "sys_inv (in_order L) (\<lambda>_. True) s'"
    using ordered.step_keeps [OF step behaves_label] assms by (simp add: sys_ordered_def)
  moreover have "sy_device_up s'"
    using step
  proof cases
    case (task_runs i w r)
    with assms keepsD [OF ordered_task _ task_runs(4)] show ?thesis
      by (simp add: sys_ordered_def) (simp add: forget_task_def)
  next
    case (restarts w)
    with assms show ?thesis
      by (auto simp: restarted_def boot_def sys_ordered_def split: prod.split res.split)
  qed (use assms in \<open>auto simp: sys_ordered_def post_def zoom_def split: prod.splits\<close>)
  ultimately show ?thesis by (simp add: sys_ordered_def)
qed

lemma ordered_run:
  "sys_run L s as s' \<Longrightarrow> \<forall>a \<in> set as. server_behaves L a \<Longrightarrow> sys_ordered L s \<Longrightarrow> sys_ordered L s'"
  by (induction rule: sys_run.induct) (auto intro: ordered_step)

definition draws :: "lib \<Rightarrow> string \<Rightarrow> sys_label \<Rightarrow> bool" where
  \<comment> \<open>the id drawn for a new session has this text\<close>
  "draws L k a = (case a of DaemonHandles w \<Rightarrow> uuid_to_string L (dmw_uuid w) = k | _ \<Rightarrow> False)"

definition settles :: "lib \<Rightarrow> string \<Rightarrow> sys_label \<Rightarrow> bool" where
  \<comment> \<open>the server's word that the session is over: it failed or ended; or the answer to a request to
    end it, which for the reclaimer may be any answer of the server\<close>
  "settles L k a = (case a of
      WatcherReports st \<Rightarrow> ends_row L st = Some k
    | EndAnswered i e r \<Rightarrow> (\<exists>x. r = Ok x) \<and> uuid_to_string L (es_request_id e) = k
    | ReclaimerAnswered e r \<Rightarrow> settled r \<and> uuid_to_string L (es_request_id e) = k
    | _ \<Rightarrow> False)"

lemma settles_own [simp]: "\<not> settles L k (ClientCalls q)" "\<not> settles L k (DaemonHandles w)"
  by (simp_all add: settles_def)

lemma dead_label: "\<not> draws L k a \<Longrightarrow>
    label_ok (\<lambda>u. uuid_to_string L u \<noteq> k) (\<lambda>_. True) (\<lambda>_. True) (\<lambda>_. True) (\<lambda>_. True) a"
  by (cases a) (auto simp: draws_def world_ok_def answer_ok_def)

lemma kept_label: "\<not> draws L k a \<Longrightarrow> \<not> settles L k a \<Longrightarrow>
    label_ok (\<lambda>u. uuid_to_string L u \<noteq> k) (\<lambda>u. uuid_to_string L u \<noteq> k)
      (\<lambda>st. \<forall>i. ends_row L st = Some i \<longrightarrow> i \<noteq> k) (\<lambda>_. True) (\<lambda>_. True) a"
  by (cases a) (auto simp: draws_def settles_def world_ok_def answer_ok_def)

abbreviation sessions_of :: "system \<Rightarrow> session_row list" where
  "sessions_of s \<equiv> vpn_sessions (dm_db (sy_daemon s))"

definition at_rest :: "system \<Rightarrow> bool" where
  \<comment> \<open>a process that has just started, or is down\<close>
  "at_rest s \<longleftrightarrow> sy_mailbox s = [] \<and> ds_wf (dm_state (sy_daemon s))"

interpretation free: row_law L "\<lambda>_. True" "\<lambda>_. True" "\<lambda>_. True" "\<lambda>_. True" for L
  by unfold_locales simp_all

lemma run_keeps_state:
  assumes "sys_run L s as s'" and "ds_wf (dm_state (sy_daemon s))"
  shows "ds_wf (dm_state (sy_daemon s'))"
proof -
  have "label_ok (\<lambda>_. True) (\<lambda>_. True) (\<lambda>_. True) (\<lambda>_. True) (\<lambda>_. True) a" for a
    by (cases a) (simp_all add: answer_ok_def)
  then show ?thesis
    using free.run_keeps [OF assms(1)] assms(2) by (simp add: sys_inv_def dm_inv_def)
qed

text \<open>A status that waits in the mailbox was reported.\<close>

definition same_mailbox :: "daemon_event list \<Rightarrow> system \<Rightarrow> bool" where
  "same_mailbox m s \<longleftrightarrow> sy_mailbox s = m"

lemma keeps_mailbox [keeps_intros]:
  "keeps (same_mailbox m) (in_db p)" "keeps (same_mailbox m) (sys_reply r)"
  "keeps (same_mailbox m) (device_call L w c)"
  by (auto simp: keeps_def zoom_def sys_reply_def device_call_def same_mailbox_def split: prod.split)

lemma task_mailbox: "keeps (same_mailbox m) (run_task L w t)"
  by (cases t) (auto intro!: keeps_mailbox keeps_and_then keeps_option keeps_writes keeps_ret
      simp: handler_defs same_mailbox_def)

lemma step_mailbox:
  assumes "sys_step L a s s'" and "EvVpnSessionStatus st \<in> set (sy_mailbox s')"
  shows "EvVpnSessionStatus st \<in> set (sy_mailbox s) \<or> a = WatcherReports st"
proof -
  have task: "sy_mailbox (snd (run_task L w x t)) = sy_mailbox t" for w x t
    using task_mailbox [of "sy_mailbox t" L w x] by (simp add: keeps_def same_mailbox_def)
  have forget: "sy_mailbox (forget_task i t) = sy_mailbox t" for i t by (simp add: forget_task_def)
  show ?thesis
    using assms(1)
  proof cases
    case (task_runs i w r)
    then show ?thesis using assms(2) task [of w _ "forget_task i s"] forget by (metis snd_conv)
  qed (use assms(2) in \<open>auto simp: post_def zoom_def restarted_def boot_def split: prod.splits res.splits\<close>)
qed

lemma run_mailbox:
  "sys_run L s as s' \<Longrightarrow> EvVpnSessionStatus st \<in> set (sy_mailbox s') \<Longrightarrow>
     EvVpnSessionStatus st \<in> set (sy_mailbox s) \<or> WatcherReports st \<in> set as"
  by (induction rule: sys_run.induct) (auto dest: step_mailbox)

section \<open>Properties\<close>

text \<open>No session is forgotten: one that is in the table stays in it until the server's word that it
  is over, whatever the steps between.\<close>

lemma session_kept:
  assumes "at_rest s0" and "sys_run L s0 as s" and "sys_run L s bs s'" and "filed k (sessions_of s)"
    and "\<forall>a \<in> set bs. \<not> draws L k a"
  shows "filed k (sessions_of s') \<or> (\<exists>a \<in> set (as @ bs). settles L k a)"
proof (rule disjCI)
  assume never: "\<not> (\<exists>a \<in> set (as @ bs). settles L k a)"
  then have labels: "\<forall>a \<in> set bs. label_ok (\<lambda>u. uuid_to_string L u \<noteq> k) (\<lambda>u. uuid_to_string L u \<noteq> k)
      (\<lambda>st. \<forall>i. ends_row L st = Some i \<longrightarrow> i \<noteq> k) (\<lambda>_. True) (\<lambda>_. True) a"
    using assms(5) kept_label by auto
  have waiting: "ends_row L st \<noteq> Some k" if "EvVpnSessionStatus st \<in> set (sy_mailbox s)" for st
  proof -
    have "WatcherReports st \<in> set as" using run_mailbox [OF assms(2) that] assms(1) by (simp add: at_rest_def)
    with never have "\<not> settles L k (WatcherReports st)" by auto
    then show ?thesis by (simp add: settles_def)
  qed
  have "sys_inv (\<lambda>d. filed k (vpn_sessions d)) (\<lambda>st. \<forall>i. ends_row L st = Some i \<longrightarrow> i \<noteq> k) s"
    using waiting run_keeps_state [OF assms(2)] assms(1,4) by (auto simp: sys_inv_def dm_inv_def at_rest_def)
  from kept.run_keeps [OF assms(3) labels this] show "filed k (sessions_of s')"
    by (simp add: sys_inv_def dm_inv_def)
qed

text \<open>C2: a session that has been ended never comes back. Once its row is marked for deletion, or gone,
  no run in which its uuid is not drawn again makes a live row with its id.\<close>

theorem ended_session_stays_ended:
  assumes "at_rest s0" and "sys_run L s0 as s" and "sys_run L s bs s'" and "not_live k (sessions_of s)"
    and "\<forall>a \<in> set bs. \<not> draws L k a"
  shows "not_live k (sessions_of s')"
  using dead.run_keeps [OF assms(3)] dead_label assms(4,5) run_keeps_state [OF assms(2)] assms(1)
  by (simp add: sys_inv_def dm_inv_def at_rest_def)

text \<open>C8: in every run of the process in which the server's answers to the device service decode and the
  tokens it issues are values of a header (the premise \<open>server_behaves\<close>; an answer
  without an address would end the device service's task, by the panic of its decoder): the shared
  database stays in order (request ids unique and readable, at most one device, and it can be
  read, stored tokens are header values), the notifications stay well-formed, and the device
  service's task does not die. Clients, tunnel, watchers, failing statements, crashes and restarts
  are arbitrary.\<close>

theorem process_stays_in_order:
  assumes "sys_run L s as s'" and "at_rest s" and "sy_device_up s" and "in_order L (dm_db (sy_daemon s))"
    and "\<forall>a \<in> set as. server_behaves L a"
  shows "in_order L (dm_db (sy_daemon s')) \<and> ds_wf (dm_state (sy_daemon s')) \<and> sy_device_up s'"
  using ordered_run [OF assms(1,5)] assms(2-4)
  by (simp add: sys_ordered_def sys_inv_def dm_inv_def at_rest_def)

section \<open>A run\<close>

definition sample_process :: system where
  \<comment> \<open>signed in, with a live session\<close>
  "sample_process = boot sample_busy (Some ''t'')"

definition sample_info :: session_info where
  "sample_info = \<lparr>si_request_id = 5, si_vpn_session_id = 9\<rparr>"

definition sample_end :: end_session where
  "sample_end = reclaim_request 1 sample_info"

definition marked_db :: db where
  "marked_db = sample_db\<lparr>vpn_sessions := [mark_row sample_live]\<rparr>"

lemma sample_disconnect:
  "\<exists>dm. sys_run sample_lib sample_process [ClientCalls DisconnectVpn, DaemonHandles sample_world]
     (sample_process\<lparr>sy_daemon := dm\<rparr>) \<and> dm_db dm = marked_db"
proof -
  have db: "snd (storage_end_session sample_lib (sample_db\<lparr>vpn_sessions := [sample_live]\<rparr>)) = marked_db"
    by (simp add: end_session_some [of _ _ sample_live] rows_ok_def row_ok_def unmarked_def marked_db_def)
  obtain dm where run: "handle_event sample_lib (sample_world, EvCommand CmdDisconnect) sample_busy = (Ok (), dm)"
    and dm: "dm_db dm = marked_db"
    using dm_goodD [OF sample_busy_good] db by (simp add: disconnect_run)
  let ?p = "post (EvCommand CmdDisconnect) sample_process"
  have handle: "handle_event sample_lib (sample_world, EvCommand CmdDisconnect) (sy_daemon ?p) = (Ok (), dm)"
    unfolding run [symmetric] by (simp add: post_def sample_process_def boot_def)
  have "sys_step sample_lib (ClientCalls DisconnectVpn) sample_process ?p"
    by (rule client_calls) (simp_all add: sample_process_def boot_def auth_call_def)
  moreover have "sys_step sample_lib (DaemonHandles sample_world) ?p
      (?p\<lparr>sy_mailbox := [], sy_daemon := dm, sy_up := \<not> is_panic (Ok () :: (unit, daemon_error) res)\<rparr>)"
    by (rule daemon_handles [OF _ _ handle]) (simp_all add: post_def sample_process_def boot_def)
  moreover have "?p\<lparr>sy_mailbox := [], sy_daemon := dm, sy_up := \<not> is_panic (Ok () :: (unit, daemon_error) res)\<rparr>
      = sample_process\<lparr>sy_daemon := dm\<rparr>"
    by (simp add: post_def sample_process_def boot_def)
  ultimately show ?thesis using dm by (metis run_more run_none)
qed

lemma sample_reclaim:
  assumes "dm_db (sy_daemon s) = marked_db" and "sy_up s" and "sy_reclaiming s = []"
  shows "\<exists>s'. sys_run sample_lib s [ReclaimerStarts,
      ReclaimerAnswered sample_end (Err (VpnServerError \<lparr>st_code = NotFound, st_message = []\<rparr>))] s'
    \<and> sessions_of s' = []"
proof -
  have info: "info_of_row sample_lib (sample_live\<lparr>row_mark_for_deletion := True\<rparr>) = (Ok sample_info :: (session_info, db_err) res)"
    by (simp add: info_of_row_def sample_info_def)
  have "storage_to_reclaim sample_lib marked_db = (Ok [sample_info], marked_db)"
    using info by (simp add: storage_to_reclaim_def prog_simps marked_db_def reclaimable_def mark_row_def)
  then have start: "start_reclaim sample_lib marked_db = (Ok [(1, sample_info)], marked_db)"
    by (simp add: start_reclaim_def prog_simps get_device_run marked_db_def sample_details_def)
  let ?a = "Err (VpnServerError \<lparr>st_code = NotFound, st_message = []\<rparr>) :: (ended, vpn_session_error) res"
  define s1 where "s1 = s\<lparr>sy_reclaiming := [(1, sample_info)]\<rparr>"
  have "in_db (start_reclaim sample_lib) s = (Ok [(1, sample_info)], s)"
    using start assms(1) by (simp add: zoom_def)
  from reclaimer_starts [OF assms(2,3) this] have "sys_step sample_lib ReclaimerStarts s s1"
    by (simp add: s1_def)
  moreover obtain r s2 where r: "in_db (reclaim_session sample_lib (\<lambda>_. ?a) 1 sample_info) s1 = (r, s2)"
    by fastforce
  have "sys_step sample_lib (ReclaimerAnswered sample_end ?a) s1 (s2\<lparr>sy_reclaiming := []\<rparr>)"
    by (rule reclaimer_answered [OF _ _ _ r]) (simp_all add: s1_def assms(2) sample_end_def)
  moreover have "sessions_of s2 = []"
    using r assms(1)
    by (auto simp: s1_def zoom_def reclaim_session_def prog_simps marked_db_def sample_info_def mark_row_def)
  then have "sessions_of (s2\<lparr>sy_reclaiming := []\<rparr>) = []" by simp
  ultimately show ?thesis by (meson run_more run_none)
qed

theorem ended_session_stays_ended_witness:
  "\<exists>s s'. sys_run sample_lib s [ReclaimerStarts,
      ReclaimerAnswered sample_end (Err (VpnServerError \<lparr>st_code = NotFound, st_message = []\<rparr>))] s'
     \<and> filed (uuid_to_string sample_lib 5) (sessions_of s)
     \<and> not_live (uuid_to_string sample_lib 5) (sessions_of s')"
proof -
  obtain dm where run: "sys_run sample_lib sample_process [ClientCalls DisconnectVpn, DaemonHandles sample_world]
     (sample_process\<lparr>sy_daemon := dm\<rparr>)" and dm: "dm_db dm = marked_db"
    using sample_disconnect by blast
  let ?s = "sample_process\<lparr>sy_daemon := dm\<rparr>"
  obtain s' where run': "sys_run sample_lib ?s [ReclaimerStarts,
      ReclaimerAnswered sample_end (Err (VpnServerError \<lparr>st_code = NotFound, st_message = []\<rparr>))] s'"
    using sample_reclaim [of ?s] dm by (auto simp: sample_process_def boot_def)
  from ended_session_stays_ended [OF _ run run', of "uuid_to_string sample_lib 5"] dm
  have "not_live (uuid_to_string sample_lib 5) (sessions_of s')"
    by (simp add: at_rest_def sample_process_def boot_def not_live_def marked_db_def mark_row_def draws_def)
  with run' dm show ?thesis by (intro exI [of _ ?s] exI [of _ s']) (simp add: filed_def marked_db_def)
qed

theorem process_stays_in_order_witness:
  "\<exists>s'. sys_run sample_lib sample_process [ClientCalls DisconnectVpn, DaemonHandles sample_world] s'
     \<and> in_order sample_lib (dm_db (sy_daemon s')) \<and> sy_device_up s'"
proof -
  obtain dm where run: "sys_run sample_lib sample_process [ClientCalls DisconnectVpn, DaemonHandles sample_world]
     (sample_process\<lparr>sy_daemon := dm\<rparr>)"
    using sample_disconnect by blast
  have "in_order sample_lib (sample_db\<lparr>vpn_sessions := [sample_live]\<rparr>)"
    using sample_device_ok
    by (simp add: in_order_def rows_ok_def row_ok_def stored_ok_def device_ok_def tokens_safe_def)
  with process_stays_in_order [OF run] run show ?thesis
    by (intro exI [of _ "sample_process\<lparr>sy_daemon := dm\<rparr>"])
      (simp add: at_rest_def sample_process_def boot_def)
qed

section \<open>A race of signing out and connecting\<close>

lemma signed_out_calls:
  "sy_token s = None \<Longrightarrow> sys_step L (ClientCalls q) s s' \<Longrightarrow> (\<exists>c. q = AccountSignIn c) \<or> q = IsAuthenticated"
  by (auto elim!: sys_stepE(1) simp: auth_call_def allowed_iff split: if_splits)

lemma sign_in_refused:
  "status_of dm \<noteq> VpnDisconnected \<Longrightarrow>
     \<exists>m. handle_event L (w, EvCommand (CmdAccountSignIn c)) dm =
       (Ok (), dm\<lparr>dm_replies := dm_replies dm @ [DoneReply (Err (InvalidOpVpnSessionInProgress m))]\<rparr>)"
  by (cases "status_of dm")
    (auto simp: on_account_sign_in_def unless_in_session_def vpn_session_in_progress_def prog_simps)

definition sample_signed_in :: system where
  "sample_signed_in = boot sample_daemon (Some ''t'')"

definition sample_task_world :: task_world where
  "sample_task_world = \<lparr>tw_device = sample_device_world, tw_locations = Ok []\<rparr>"

definition race :: "sys_label list" where
  "race = [ClientCalls AccountSignOut, ClientCalls (ConnectVpn (location_to_proto sample_location)),
     DaemonHandles sample_world, DaemonHandles sample_world, TaskRuns 0 sample_task_world]"

definition after_connect :: daemon where
  "after_connect = snd (handle_event sample_lib (sample_world, EvCommand (CmdConnect sample_location))
     (sample_daemon\<lparr>dm_tasks := [TaskSignOut]\<rparr>))"

lemma connect_after_sign_out:
  "handle_event sample_lib (sample_world, EvCommand (CmdConnect sample_location))
     (sample_daemon\<lparr>dm_tasks := [TaskSignOut]\<rparr>) = (Ok (), after_connect)
   \<and> status_of after_connect = VpnAccepted sample_location
   \<and> dm_tasks after_connect = [TaskSignOut, TaskAddRecent sample_location]
   \<and> reliable (dm_db after_connect) \<and> tokens (dm_db after_connect) = []"
proof -
  have ok: "dm_ok sample_lib (sample_daemon\<lparr>dm_tasks := [TaskSignOut]\<rparr>)"
    using sample_daemon_ok by (simp add: dm_ok_def dm_inv_def)
  show ?thesis
    using connect_accepted_run [OF ok, of sample_world 1 sample_location "\<lparr>acc_request_id = 5, acc_vpn_session_uuid = 9\<rparr>"]
    by (simp add: after_connect_def fresh_for_def session_request_def accepted_at_def)
qed

lemma sample_sign_out:
  assumes "reliable (svc_db v)" and "tokens (svc_db v) = []"
  shows "\<exists>d. handle_device_message sample_lib (sample_device_world, DevSignOut) v
     = (Ok (), v\<lparr>svc_token := None, svc_db := d, svc_replies := svc_replies v @ [ReplySignOut (Ok ())]\<rparr>)"
proof -
  obtain dd where "create_new (dw_host sample_device_world) (dw_draw sample_device_world) = Ok dd"
    using create_new_Ok_iff [of sample_host "dw_draw sample_device_world"]
    by (auto simp: sample_host_def sample_device_world_def)
  from sign_out_run [OF assms(1) _ _ _ this, of sample_lib "Ok ()"] assms show ?thesis
    by (intro exI [of _ "(svc_db v)\<lparr>devices := [device_row_of_details sample_lib dd], tokens := []\<rparr>"])
     (simp add: respond_def attempt_def sample_device_world_def authorized_call_def authorization_def
        bearer_token_def get_token_def prog_simps)
qed

lemma race_runs:
  "\<exists>s. sys_run sample_lib sample_signed_in race s \<and> status_of (sy_daemon s) = VpnAccepted sample_location
     \<and> sy_token s = None"
proof -
  let ?connect = "EvCommand (CmdConnect sample_location)"
  define s1 where "s1 = post (EvCommand CmdAccountSignOut) sample_signed_in"
  define s2 where "s2 = post ?connect s1"
  define s3 where "s3 = s2\<lparr>sy_mailbox := [?connect], sy_daemon := sample_daemon\<lparr>dm_tasks := [TaskSignOut]\<rparr>\<rparr>"
  define s4 where "s4 = s3\<lparr>sy_mailbox := [], sy_daemon := after_connect\<rparr>"
  note defs = s1_def s2_def s3_def s4_def post_def sample_signed_in_def boot_def
  have 1: "sys_step sample_lib (ClientCalls AccountSignOut) sample_signed_in s1"
    unfolding s1_def by (rule client_calls) (simp_all add: sample_signed_in_def boot_def auth_call_def)
  have 2: "sys_step sample_lib (ClientCalls (ConnectVpn (location_to_proto sample_location))) s1 s2"
    unfolding s2_def by (rule client_calls) (simp_all add: defs auth_call_def)
  have "handle_event sample_lib (sample_world, EvCommand CmdAccountSignOut) (sy_daemon s2)
      = (Ok (), sample_daemon\<lparr>dm_tasks := [TaskSignOut]\<rparr>)"
    by (simp add: defs on_account_sign_out_def unless_in_session_def vpn_session_in_progress_def prog_simps)
      (simp add: sample_daemon_def daemon_new_def ds_new_def)
  from daemon_handles [OF _ _ this] have 3: "sys_step sample_lib (DaemonHandles sample_world) s2 s3"
    by (simp add: defs)
  have "handle_event sample_lib (sample_world, ?connect) (sy_daemon s3) = (Ok (), after_connect)"
    using connect_after_sign_out by (simp add: s3_def)
  from daemon_handles [OF _ _ this] have 4: "sys_step sample_lib (DaemonHandles sample_world) s3 s4"
    by (simp add: defs)
  obtain r s5 where t: "run_task sample_lib sample_task_world TaskSignOut (forget_task 0 s4) = (r, s5)"
    by fastforce
  have 5: "sys_step sample_lib (TaskRuns 0 sample_task_world) s4 s5"
    using t connect_after_sign_out by (intro task_runs) (simp_all add: defs)
  have "sy_token s5 = None \<and> status_of (sy_daemon s5) = VpnAccepted sample_location"
    using t connect_after_sign_out sample_sign_out [of "device_part (forget_task 0 s4)"]
    by (auto simp: defs handler_defs and_then_def ret_def device_call_def sys_reply_def device_part_def forget_task_def sample_task_world_def)
  with 1 2 3 4 5 show ?thesis unfolding race_def by (blast intro: run_more run_none)
qed

text \<open>C9: a race that locks the user out. The daemon checks that no session is in progress when it
  takes the command to sign out, and signs out in a task of its own; a connect handled in between
  is accepted. Then the device is signed out while a session is in progress: the middleware refuses
  to disconnect, for want of a token, and the daemon refuses to sign in, for the session.\<close>

theorem sign_out_race_locks_out:
  "\<exists>s. sys_run sample_lib sample_signed_in race s
     \<and> status_of (sy_daemon s) = VpnAccepted sample_location \<and> sy_token s = None
     \<and> (\<forall>s'. \<not> sys_step sample_lib (ClientCalls DisconnectVpn) s s')
     \<and> (\<forall>w c. \<exists>m. handle_event sample_lib (w, EvCommand (CmdAccountSignIn c)) (sy_daemon s) =
          (Ok (), (sy_daemon s)\<lparr>dm_replies := dm_replies (sy_daemon s)
             @ [DoneReply (Err (InvalidOpVpnSessionInProgress m))]\<rparr>))"
proof -
  obtain s where run: "sys_run sample_lib sample_signed_in race s"
    and st: "status_of (sy_daemon s) = VpnAccepted sample_location" and out: "sy_token s = None"
    using race_runs by blast
  have "\<not> sys_step sample_lib (ClientCalls DisconnectVpn) s s'" for s'
    using signed_out_calls [OF out] by blast
  moreover have "\<exists>m. handle_event sample_lib (w, EvCommand (CmdAccountSignIn c)) (sy_daemon s) =
      (Ok (), (sy_daemon s)\<lparr>dm_replies := dm_replies (sy_daemon s)
         @ [DoneReply (Err (InvalidOpVpnSessionInProgress m))]\<rparr>)" for w c
    using sign_in_refused st by simp
  ultimately show ?thesis using run st out by blast
qed

end
