(* ===== verification/Process.thy ===== *)
theory Process
  imports Guarantees Watcher
begin

text \<open>
  The process of System with the session service and its watchers in it: a connect is answered by
  the service's handler, an accepted session starts a watcher, a request to end a session or the
  client's connection stops it, and a status reaches the daemon only as the answer to a watcher's
  query. What is left open are the answers of the server, which the labels carry. A message to the
  service is taken when it is sent.

  The abstraction that forgets the service and the watchers is the process of System; so what holds
  of its runs holds here, of the server's own words.
\<close>

section \<open>A connect up to its request\<close>

definition connect_request :: "lib \<Rightarrow> daemon_world \<Rightarrow> location \<Rightarrow> new_session dm" where
  "connect_request L w l =
     and_then (reads (\<lambda>s. vpn_session_in_progress (dm_state s))) (\<lambda>busy. case busy of
       Some other \<Rightarrow> give (Err (AnotherVpnSessionInProgress other))
     | None \<Rightarrow>
         and_then (on_db (storage_new_session L (dmw_uuid w) (dmw_now w) l)) (\<lambda>request_id.
         and_then (on_db (get_device_unique_id L)) (\<lambda>device_unique_id.
           ret \<lparr>ns_request_id = request_id, ns_device_unique_id = device_unique_id,
             ns_location_code = loc_code l\<rparr>)))"

lemma connect_split:
  "on_connect_inner L w l =
     and_then (connect_request L w l) (\<lambda>ns. case dmw_new_session w ns of
       Ok a \<Rightarrow> connect_accepted L l a
     | Err err \<Rightarrow> connect_rejected L w (ns_request_id ns) l err
     | Panic m \<Rightarrow> give (Panic m))"
  by (rule ext) (simp add: on_connect_inner_def connect_request_def and_then_def split: option.split prod.split res.split)

definition connect_asks :: "lib \<Rightarrow> daemon_world \<Rightarrow> daemon_event \<Rightarrow> daemon \<Rightarrow> new_session option" where
  \<comment> \<open>the request an event makes to the session service, if it comes that far\<close>
  "connect_asks L w e s = (case e of
      EvCommand (CmdConnect l) \<Rightarrow>
        (case connect_request L w l (s\<lparr>dm_tasks := dm_tasks s @ [TaskAddRecent l]\<rparr>) of
           (Ok ns, t) \<Rightarrow> Some ns
         | _ \<Rightarrow> None)
    | _ \<Rightarrow> None)"

text \<open>The answer of the service matters for no other request.\<close>

lemma only_asked:
  assumes "\<And>ns. connect_asks L w e s = Some ns \<Longrightarrow> f ns = dmw_new_session w ns"
  shows "handle_event L (w\<lparr>dmw_new_session := f\<rparr>, e) s = handle_event L (w, e) s"
proof -
  have rejected: "connect_rejected L (w\<lparr>dmw_new_session := f\<rparr>) k l err = connect_rejected L w k l err" for k l err
    by (simp add: connect_rejected_def)
  have request: "connect_request L (w\<lparr>dmw_new_session := f\<rparr>) l = connect_request L w l" for l
    by (simp add: connect_request_def cong: option.case_cong)
  have connect: "on_connect L (w\<lparr>dmw_new_session := f\<rparr>) l s = on_connect L w l s" if "e = EvCommand (CmdConnect l)" for l
    using assms that
    by (auto simp: on_connect_def respond_dm_def connect_split request rejected connect_asks_def spawn_def
        and_then_def attempt_def split: prod.splits res.splits)
  show ?thesis
  proof (cases e)
    case (EvCommand c)
    with connect show ?thesis by (cases c) (simp_all add: on_get_notifications_def)
  next
    case (EvVpnSessionStatus st)
    then show ?thesis by (simp add: handle_vpn_session_status_def)
  next
    case (EvTunnelStateTransition tr)
    then show ?thesis by (simp add: handle_tunnel_state_transition_def)
  qed simp
qed

section \<open>The process\<close>

record process =
  pr_sys :: system
  pr_svc :: session_service
  pr_svc_up :: bool
  pr_watching :: "(nat \<times> vpn_session_status_request \<times> watcher) list"  \<comment> \<open>the watchers that run\<close>
  pr_ended :: "(nat \<times> vpn_session_status option) list"
    \<comment> \<open>those that ended by themselves: with a final status, or an answer that did not decode\<close>
  pr_connected :: "uuid list"  \<comment> \<open>the sessions whose client has connected\<close>

definition new_session_answer ::
    "bool \<Rightarrow> session_server \<Rightarrow> new_session \<Rightarrow> (accepted, vpn_session_error) res" where
  "new_session_answer up v ns = (if up then received (on_new_session_inner v ns) else Err VpnSessionServiceDown)"

definition end_session_answer ::
    "bool \<Rightarrow> session_server \<Rightarrow> end_session \<Rightarrow> (ended, vpn_session_error) res" where
  "end_session_answer up v e = (if up then received (on_end_session_inner v e) else Err VpnSessionServiceDown)"

definition list_locations_answer :: "bool \<Rightarrow> session_server \<Rightarrow> (location list, vpn_session_error) res" where
  "list_locations_answer up v = (if up then received (on_list_locations_inner v) else Err VpnSessionServiceDown)"

lemma handle_answers:
  "fst (handler_new_session up v ns s) = Ok (new_session_answer up v ns)"
  "fst (handler_end_session up v e s) = Ok (end_session_answer up v e)"
  "fst (handler_list_locations up v s) = Ok (list_locations_answer up v)"
  by (cases up; simp add: handler_answers handler_down new_session_answer_def end_session_answer_def
      list_locations_answer_def)+

text \<open>A panic of the service's task drops its map, and with it the senders of all watchers.\<close>

definition service_dies :: "process \<Rightarrow> process" where
  "service_dies p = p\<lparr>pr_svc := (pr_svc p)\<lparr>vs_watchers := []\<rparr>, pr_svc_up := False\<rparr>"

definition new_watchers :: "session_service \<Rightarrow> session_service \<Rightarrow> (nat \<times> vpn_session_status_request \<times> watcher) list" where
  "new_watchers s s' = map (\<lambda>(i, q). (i, q, watcher_new)) (drop (length (vs_spawned s)) (vs_spawned s'))"

definition service_accepts :: "session_server \<Rightarrow> new_session option \<Rightarrow> process \<Rightarrow> process" where
  "service_accepts v q p = (case q of
      Some ns \<Rightarrow>
        if pr_svc_up p
        then let (r, svc) = handle_session_command (v, NewSessionCmd ns) (pr_svc p);
               p1 = p\<lparr>pr_svc := svc, pr_watching := pr_watching p @ new_watchers (pr_svc p) svc\<rparr>
             in if is_panic r then service_dies p1 else p1
        else p
    | None \<Rightarrow> p)"

text \<open>
  A request to end a session, or the client's connection, stops the watcher at once; the server is
  asked by a task of its own, whose answer comes later.
\<close>

lemma end_session_in_two: "on_end_session v e s =
    spawn_reply EndedReply (on_end_session_inner v e) (stop_watcher (es_request_id e) s)"
  by (simp add: on_end_session_def prog_simps)

fun service_takes :: "vpn_session_command \<Rightarrow> process \<Rightarrow> process" where
  "service_takes (EndSessionCmd e) p =
     (if pr_svc_up p then p\<lparr>pr_svc := stop_watcher (es_request_id e) (pr_svc p)\<rparr> else p)"
| "service_takes (ClientConnectedCmd c) p =
     (if pr_svc_up p
      then p\<lparr>pr_svc := stop_watcher (cc_request_id c) (pr_svc p),
             pr_connected := pr_connected p @ [cc_request_id c]\<rparr> else p)"
| "service_takes c p = p"

fun task_sends :: "lib \<Rightarrow> daemon_task \<Rightarrow> db \<Rightarrow> vpn_session_command option" where
  \<comment> \<open>what a task sends to the session service\<close>
  "task_sends L (TaskEndSession info reason) d =
     (case start_end_session L info reason d of (Ok (Some e), _) \<Rightarrow> Some (EndSessionCmd e) | _ \<Rightarrow> None)"
| "task_sends L (TaskClientConnected i) d =
     (case run_client_connected L i d of (Ok (Some c), _) \<Rightarrow> Some (ClientConnectedCmd c) | _ \<Rightarrow> None)"
| "task_sends L TaskListLocations d = Some ListLocationsCmd"
| "task_sends L t d = None"

definition service_hears :: "vpn_session_command option \<Rightarrow> process \<Rightarrow> process" where
  "service_hears c p = (case c of Some c \<Rightarrow> service_takes c p | None \<Rightarrow> p)"

text \<open>One tick of a watcher: what it sends is posted, and it goes on or ends.\<close>

definition watcher_ends :: "nat \<Rightarrow> vpn_session_status option \<Rightarrow> process \<Rightarrow> process" where
  "watcher_ends n why p = p\<lparr>pr_watching := remove_at n (pr_watching p),
     pr_ended := pr_ended p @ [(fst (pr_watching p ! n), why)]\<rparr>"

definition watcher_ticks :: "nat \<Rightarrow> watch_answer \<Rightarrow> process \<Rightarrow> process" where
  "watcher_ticks n a p =
     (let (i, q, w) = pr_watching p ! n;
          (r, w') = watch_ended a w;
          p1 = p\<lparr>pr_sys := fold (\<lambda>st. post (EvVpnSessionStatus st)) (drop (length (w_sent w)) (w_sent w')) (pr_sys p)\<rparr>
      in case r of
           Ok stop \<Rightarrow> if stop then watcher_ends n (w_last w') p1
                      else p1\<lparr>pr_watching := (pr_watching p)[n := (i, q, w')]\<rparr>
         | _ \<Rightarrow> watcher_ends n None p1)"

definition without_services :: "process \<Rightarrow> process" where
  \<comment> \<open>the operating system's process has ended\<close>
  "without_services p = p\<lparr>pr_svc := session_service_new, pr_svc_up := False, pr_watching := [],
     pr_ended := [], pr_connected := []\<rparr>"

definition unless_gone :: "process \<Rightarrow> process" where
  "unless_gone p = (if sy_up (pr_sys p) then p else without_services p)"

definition started :: "process \<Rightarrow> process" where
  "started p = (if sy_up (pr_sys p) then (without_services p)\<lparr>pr_svc_up := True\<rparr> else without_services p)"

section \<open>Steps\<close>

datatype process_label =
    Outside sys_label  \<comment> \<open>clients, the tunnel, the start of a round of the reclaimer\<close>
  | GoesDown sys_label
  | ComesUp startup_world
  | Handles session_server daemon_world
  | Runs session_server nat task_world
  | EndAnswers session_server nat end_session bool  \<comment> \<open>whether the service was reached\<close>
  | ReclaimAsks session_server end_session
  | Ticks nat vpn_session_status_request watch_answer
  | Stops nat

fun outside :: "sys_label \<Rightarrow> bool" where
  "outside (ClientCalls q) = True"
| "outside (TunnelReports tr) = True"
| "outside ReclaimerStarts = True"
| "outside a = False"

fun going_down :: "sys_label \<Rightarrow> bool" where
  "going_down ShutsDown = True"
| "going_down Crashes = True"
| "going_down a = False"

inductive process_step :: "lib \<Rightarrow> process_label \<Rightarrow> process \<Rightarrow> process \<Rightarrow> bool" for L where
  from_outside: "outside a \<Longrightarrow> sys_step L a (pr_sys p) s \<Longrightarrow>
    process_step L (Outside a) p (p\<lparr>pr_sys := s\<rparr>)"
| goes_down: "going_down a \<Longrightarrow> sys_step L a (pr_sys p) s \<Longrightarrow>
    process_step L (GoesDown a) p (without_services (p\<lparr>pr_sys := s\<rparr>))"
| comes_up: "sys_step L (Restarts w) (pr_sys p) s \<Longrightarrow>
    process_step L (ComesUp w) p (started (p\<lparr>pr_sys := s\<rparr>))"
| handles: "sy_mailbox (pr_sys p) = e # es \<Longrightarrow>
    sys_step L (DaemonHandles (w\<lparr>dmw_new_session := new_session_answer (pr_svc_up p) v\<rparr>)) (pr_sys p) s \<Longrightarrow>
    process_step L (Handles v w) p
      (unless_gone ((service_accepts v (connect_asks L w e (sy_daemon (pr_sys p))) p)\<lparr>pr_sys := s\<rparr>))"
| runs: "i < length (dm_tasks (sy_daemon (pr_sys p))) \<Longrightarrow>
    sys_step L (TaskRuns i (tw\<lparr>tw_locations := list_locations_answer (pr_svc_up p) v\<rparr>)) (pr_sys p) s \<Longrightarrow>
    process_step L (Runs v i tw) p
      ((service_hears (task_sends L (dm_tasks (sy_daemon (pr_sys p)) ! i) (dm_db (sy_daemon (pr_sys p)))) p)
        \<lparr>pr_sys := s\<rparr>)"
| end_answers: "sys_step L (EndAnswered i e (end_session_answer up v e)) (pr_sys p) s \<Longrightarrow>
    process_step L (EndAnswers v i e up) p (p\<lparr>pr_sys := s\<rparr>)"
| reclaim_asks: "sys_step L (ReclaimerAnswered e (end_session_answer (pr_svc_up p) v e)) (pr_sys p) s \<Longrightarrow>
    process_step L (ReclaimAsks v e) p ((service_takes (EndSessionCmd e) p)\<lparr>pr_sys := s\<rparr>)"
| ticks: "sy_up (pr_sys p) \<Longrightarrow> n < length (pr_watching p) \<Longrightarrow> fst (snd (pr_watching p ! n)) = q \<Longrightarrow>
    wa_daemon_up a \<Longrightarrow> process_step L (Ticks n q a) p (watcher_ticks n a p)"
| stops: "sy_up (pr_sys p) \<Longrightarrow> n < length (pr_watching p) \<Longrightarrow>
    told_to_stop (pr_svc p) (fst (pr_watching p ! n)) \<Longrightarrow>
    process_step L (Stops n) p (p\<lparr>pr_watching := remove_at n (pr_watching p)\<rparr>)"

text \<open>Runs, each step of which satisfies \<open>G\<close>: what is known of the steps where they are taken.\<close>

inductive process_run ::
    "lib \<Rightarrow> (process \<Rightarrow> process_label \<Rightarrow> bool) \<Rightarrow> process \<Rightarrow> process_label list \<Rightarrow> process \<Rightarrow> bool" for L G where
  run_nothing: "process_run L G p [] p"
| run_step: "G p a \<Longrightarrow> process_step L a p p1 \<Longrightarrow> process_run L G p1 as p2 \<Longrightarrow> process_run L G p (a # as) p2"

abbreviation anything :: "process \<Rightarrow> process_label \<Rightarrow> bool" where
  "anything p a \<equiv> True"

section \<open>Refinement\<close>

fun backs :: "process_label \<Rightarrow> sys_label \<Rightarrow> bool" where
  \<comment> \<open>what a step amounts to in the process of System\<close>
  "backs (Outside a) b = (b = a \<and> outside a)"
| "backs (GoesDown a) b = (b = a \<and> going_down a)"
| "backs (ComesUp w) b = (b = Restarts w)"
| "backs (Handles v w) b = (\<exists>up. b = DaemonHandles (w\<lparr>dmw_new_session := new_session_answer up v\<rparr>))"
| "backs (Runs v i tw) b = (\<exists>up. b = TaskRuns i (tw\<lparr>tw_locations := list_locations_answer up v\<rparr>))"
| "backs (EndAnswers v i e up) b = (b = EndAnswered i e (end_session_answer up v e))"
| "backs (ReclaimAsks v e) b = (\<exists>up. b = ReclaimerAnswered e (end_session_answer up v e))"
| "backs (Ticks n q a) b = (\<exists>st. wa_status a = Ok st \<and> b = WatcherReports st)"
| "backs (Stops n) b = False"

lemma pr_sys_parts [simp]:
  "pr_sys (without_services p) = pr_sys p" "pr_sys (unless_gone p) = pr_sys p"
  "pr_sys (started p) = pr_sys p" "pr_sys (watcher_ends n why p) = pr_sys p"
  by (simp_all add: without_services_def unless_gone_def started_def watcher_ends_def)

lemma watch_sends:
  assumes "watch_ended a w = (r, w')"
  obtains (nothing) "w_sent w' = w_sent w"
  | (one) st where "wa_status a = Ok st" and "w_sent w' = w_sent w @ [st]"
  using assms
  by (auto simp: watch_ended_def watch_status_def Let_def split: res.splits if_splits)

lemma tick_steps:
  assumes "sy_up (pr_sys p)" and "n < length (pr_watching p)"
  shows "pr_sys (watcher_ticks n a p) = pr_sys p
     \<or> (\<exists>st. wa_status a = Ok st \<and> pr_sys (watcher_ticks n a p) = post (EvVpnSessionStatus st) (pr_sys p))"
proof -
  obtain i q w where w: "pr_watching p ! n = (i, q, w)" by (cases "pr_watching p ! n")
  obtain r w' where t: "watch_ended a w = (r, w')" by fastforce
  from t show ?thesis
    by (cases rule: watch_sends) (auto simp: watcher_ticks_def w t Let_def split: res.split)
qed

lemma one_step: "sys_step L a s s' \<Longrightarrow> sys_run L s [a] s'"
  by (auto intro: run_more run_none)

definition refined :: "process_label \<Rightarrow> sys_label list \<Rightarrow> bool" where
  \<comment> \<open>a step amounts to one step of System, or to none\<close>
  "refined a bs \<longleftrightarrow> length bs \<le> 1 \<and> (\<forall>b \<in> set bs. backs a b)"

lemma refined_one: "sys_step L b (pr_sys p) s \<Longrightarrow> backs a b \<Longrightarrow> \<exists>bs. sys_run L (pr_sys p) bs s \<and> refined a bs"
  by (intro exI [of _ "[b]"]) (simp add: one_step refined_def)

lemma refined_none: "\<exists>bs. sys_run L (pr_sys p) bs (pr_sys p) \<and> refined a bs"
  by (intro exI [of _ "[]"]) (simp add: run_none refined_def)

lemma step_refines:
  assumes "process_step L a p p'"
  shows "\<exists>bs. sys_run L (pr_sys p) bs (pr_sys p') \<and> refined a bs"
  using assms
proof cases
  case (ticks n q ans)
  from tick_steps [OF ticks(3,4), of ans] show ?thesis
  proof
    assume "pr_sys (watcher_ticks n ans p) = pr_sys p"
    with ticks refined_none show ?thesis by simp
  next
    assume "\<exists>st. wa_status ans = Ok st \<and> pr_sys (watcher_ticks n ans p) = post (EvVpnSessionStatus st) (pr_sys p)"
    then obtain st where st: "wa_status ans = Ok st" and p': "pr_sys p' = post (EvVpnSessionStatus st) (pr_sys p)"
      using ticks by auto
    have "\<exists>bs. sys_run L (pr_sys p) bs (post (EvVpnSessionStatus st) (pr_sys p)) \<and> refined a bs"
      by (rule refined_one [OF watcher_reports [OF ticks(3)]]) (use st ticks(1) in simp)
    then show ?thesis unfolding p' .
  qed
next
  case (stops n)
  with refined_none show ?thesis by simp
next
  case (from_outside b s)
  with refined_one [OF from_outside(4)] show ?thesis by simp
next
  case (goes_down b s)
  with refined_one [OF goes_down(4)] show ?thesis by simp
next
  case (comes_up w s)
  with refined_one [OF comes_up(3)] show ?thesis by simp
next
  case (handles e es v w s)
  have "\<exists>bs. sys_run L (pr_sys p) bs s \<and> refined (Handles v w) bs" by (rule refined_one [OF handles(4)]) auto
  with handles(1,2) show ?thesis by simp
next
  case (runs i v tw s)
  have "\<exists>bs. sys_run L (pr_sys p) bs s \<and> refined (Runs v i tw) bs" by (rule refined_one [OF runs(4)]) auto
  with runs(1,2) show ?thesis by simp
next
  case (end_answers i e up v s)
  with refined_one [OF end_answers(3)] show ?thesis by simp
next
  case (reclaim_asks e v s)
  have "\<exists>bs. sys_run L (pr_sys p) bs s \<and> refined (ReclaimAsks v e) bs" by (rule refined_one [OF reclaim_asks(3)]) auto
  with reclaim_asks(1,2) show ?thesis by simp
qed

lemma sys_run_append: "sys_run L s as s1 \<Longrightarrow> sys_run L s1 bs s2 \<Longrightarrow> sys_run L s (as @ bs) s2"
  by (induction rule: sys_run.induct) (auto intro: run_more)

lemma run_refines:
  "process_run L G p as p' \<Longrightarrow> \<exists>bss. list_all2 refined as bss \<and> sys_run L (pr_sys p) (concat bss) (pr_sys p')"
proof (induction rule: process_run.induct)
  case (run_nothing p)
  then show ?case by (intro exI [of _ "[]"]) (simp add: run_none)
next
  case (run_step p a p1 as p2)
  obtain bs where "sys_run L (pr_sys p) bs (pr_sys p1)" and "refined a bs"
    using step_refines [OF run_step(2)] by blast
  moreover obtain bss where "list_all2 refined as bss" and "sys_run L (pr_sys p1) (concat bss) (pr_sys p2)"
    using run_step.IH by blast
  ultimately show ?case using sys_run_append by (intro exI [of _ "bs # bss"]) simp
qed

lemma backed_by: "list_all2 refined as bss \<Longrightarrow> b \<in> set (concat bss) \<Longrightarrow> \<exists>a \<in> set as. backs a b"
  by (induction rule: list_all2_induct) (auto simp: refined_def)

section \<open>What the server said\<close>

definition server_answered :: "session_server \<Rightarrow> end_session \<Rightarrow> (ended, grpc_status) res \<Rightarrow> bool" where
  \<comment> \<open>an attempt to end the session reached the server, and this was its answer\<close>
  "server_answered v e r \<longleftrightarrow> \<not> is_panic r \<and>
     (\<exists>a \<in> set (ss_first_attempt v # ss_retries v). ea_connect a = Ok () \<and> ea_answer a e = r)"

definition server_settles :: "lib \<Rightarrow> string \<Rightarrow> process_label \<Rightarrow> bool" where
  \<comment> \<open>to a watcher, the status failed or ended; to a task, that it has ended the session; to the
    reclaimer, which takes them all as settled, any answer, an error status included\<close>
  "server_settles L k a = (case a of
      Ticks n q ans \<Rightarrow> (\<exists>st. wa_status ans = Ok st \<and> ends_row L st = Some k)
    | EndAnswers v i e up \<Rightarrow> (\<exists>x. server_answered v e (Ok x)) \<and> uuid_to_string L (es_request_id e) = k
    | ReclaimAsks v e \<Rightarrow> (\<exists>r. server_answered v e r) \<and> uuid_to_string L (es_request_id e) = k
    | _ \<Rightarrow> False)"

definition id_drawn :: "lib \<Rightarrow> string \<Rightarrow> process_label \<Rightarrow> bool" where
  "id_drawn L k a = (case a of Handles v w \<Rightarrow> uuid_to_string L (dmw_uuid w) = k | _ \<Rightarrow> False)"

lemma retry_in: "retry r rs \<in> set (r # rs)"
  by (induction r rs rule: retry.induct) auto

lemma attempt_answered:
  "end_once e a = Ok x \<Longrightarrow> ea_connect a = Ok () \<and> ea_answer a e = Ok x"
  "end_once e a = Err (VpnServerError st) \<Longrightarrow> ea_connect a = Ok () \<and> ea_answer a e = Err st"
  by (cases "ea_connect a"; cases "ea_answer a e"; simp add: end_once_def)+

lemma answer_of:
  "end_session_answer up v e = r \<Longrightarrow> r \<noteq> Err VpnSessionServiceDown \<Longrightarrow>
     \<exists>a \<in> set (ss_first_attempt v # ss_retries v). end_once e a = r"
  using retry_in [of "end_once e (ss_first_attempt v)" "map (end_once e) (ss_retries v)"]
  by (auto simp: end_session_answer_def received_def on_end_session_inner_def split: if_splits)

lemma ended_by_server:
  "end_session_answer up v e = Ok x \<Longrightarrow> server_answered v e (Ok x)"
  "end_session_answer up v e = Err (VpnServerError st) \<Longrightarrow> server_answered v e (Err st)"
  using answer_of [of up v e] attempt_answered by (fastforce simp: server_answered_def)+

lemma settled_cases:
  assumes "settled r" obtains x where "r = Ok x" | st where "r = Err (VpnServerError st)"
  using assms by (auto simp: settled_def split: res.splits vpn_session_error.splits)

lemma settled_by_server: "settled (end_session_answer up v e) \<Longrightarrow> \<exists>r. server_answered v e r"
  using ended_by_server by (blast elim: settled_cases)

lemma backed_words:
  "backs a b \<Longrightarrow> settles L k b \<Longrightarrow> server_settles L k a"
  "backs a b \<Longrightarrow> draws L k b \<Longrightarrow> id_drawn L k a"
  by (cases a; cases b; auto simp: settles_def server_settles_def dest: ended_by_server settled_by_server)
    (cases a; cases b; auto simp: draws_def id_drawn_def)

lemma words_of_run:
  assumes "list_all2 refined as bss"
  shows "\<exists>b \<in> set (concat bss). settles L k b \<Longrightarrow> \<exists>a \<in> set as. server_settles L k a"
    and "\<forall>a \<in> set as. \<not> id_drawn L k a \<Longrightarrow> \<forall>b \<in> set (concat bss). \<not> draws L k b"
  using backed_by [OF assms] backed_words by blast+

section \<open>Properties\<close>

text \<open>C1: what it takes to make a session disappear. In every run of the process, whatever clients ask,
  whatever the tunnel reports and the server answers, however tasks and watchers interleave,
  whichever statements of the database fail, and through crashes and restarts: a session that is
  in the table after the first part of a run is still in it after the second, unless in the course
  of it a watcher saw the status failed or ended for it, a task that asked to end it was told that
  it had ended, or the reclaimer got any answer to its
  request to end it. That answer may be an error status, of whatever kind, also one that the
  client's library makes itself once the connection stands: reclaimer.rs takes it as settled. The
  premise is that no connect of the second part draws the session's uuid again, so that the row a
  refused or failed connect deletes, within its own step, is never this one.\<close>

theorem kept_until_server_settles_it:
  assumes "at_rest (pr_sys p0)" and "process_run L anything p0 as p" and "process_run L anything p bs p'"
    and "filed k (sessions_of (pr_sys p))" and "\<forall>a \<in> set bs. \<not> id_drawn L k a"
  shows "filed k (sessions_of (pr_sys p')) \<or> (\<exists>a \<in> set (as @ bs). server_settles L k a)"
proof -
  obtain ass where as: "list_all2 refined as ass" "sys_run L (pr_sys p0) (concat ass) (pr_sys p)"
    using run_refines [OF assms(2)] by blast
  obtain bss where bs: "list_all2 refined bs bss" "sys_run L (pr_sys p) (concat bss) (pr_sys p')"
    using run_refines [OF assms(3)] by blast
  from session_kept [OF assms(1) as(2) bs(2) assms(4) words_of_run(2) [OF bs(1) assms(5)]]
    words_of_run(1) [OF as(1)] words_of_run(1) [OF bs(1)]
  show ?thesis unfolding set_append by blast
qed

section \<open>A run\<close>

definition gone_server :: session_server where
  \<comment> \<open>it no longer knows the session\<close>
  "gone_server = sample_session_server\<lparr>ss_first_attempt := \<lparr>ea_connect = Ok (),
     ea_answer = (\<lambda>e. Err \<lparr>st_code = NotFound, st_message = []\<rparr>)\<rparr>, ss_retries := []\<rparr>"

definition sample_served :: process where
  \<comment> \<open>with a session that is to be reclaimed\<close>
  "sample_served = \<lparr>pr_sys = boot (sample_daemon\<lparr>dm_db := marked_db\<rparr>) (Some ''t''), pr_svc = session_service_new,
     pr_svc_up = True, pr_watching = [], pr_ended = [], pr_connected = []\<rparr>"

definition sample_round :: "process_label list" where
  "sample_round = [Outside ReclaimerStarts, ReclaimAsks gone_server sample_end]"

lemma gone_answers:
  "end_session_answer True gone_server e = Err (VpnServerError \<lparr>st_code = NotFound, st_message = []\<rparr>)"
  by (simp add: end_session_answer_def received_def on_end_session_inner_def end_once_def gone_server_def)

lemma sample_round_runs:
  "\<exists>p'. process_run sample_lib anything sample_served sample_round p' \<and> sessions_of (pr_sys p') = []"
proof -
  have up: "pr_svc_up sample_served" by (simp add: sample_served_def)
  have "dm_db (sy_daemon (pr_sys sample_served)) = marked_db" "sy_up (pr_sys sample_served)"
    "sy_reclaiming (pr_sys sample_served) = []"
    by (simp_all add: sample_served_def boot_def)
  from sample_reclaim [OF this] obtain s1 s2 where 1: "sys_step sample_lib ReclaimerStarts (pr_sys sample_served) s1"
    and 2: "sys_step sample_lib (ReclaimerAnswered sample_end (end_session_answer True gone_server sample_end)) s1 s2"
    and gone: "sessions_of s2 = []"
    unfolding gone_answers run_simps by blast
  let ?p1 = "sample_served\<lparr>pr_sys := s1\<rparr>"
  have "process_step sample_lib (Outside ReclaimerStarts) sample_served ?p1" by (rule from_outside [OF _ 1]) simp
  moreover have "process_step sample_lib (ReclaimAsks gone_server sample_end) ?p1
      ((service_takes (EndSessionCmd sample_end) ?p1)\<lparr>pr_sys := s2\<rparr>)"
    by (rule reclaim_asks) (simp add: up 2)
  ultimately show ?thesis
    using gone unfolding sample_round_def by (force intro: run_step run_nothing)
qed

theorem kept_until_server_settles_it_witness:
  "\<exists>p'. process_run sample_lib anything sample_served sample_round p'
     \<and> filed (uuid_to_string sample_lib 5) (sessions_of (pr_sys sample_served))
     \<and> \<not> filed (uuid_to_string sample_lib 5) (sessions_of (pr_sys p'))
     \<and> (\<exists>a. a \<in> set sample_round \<and> server_settles sample_lib (uuid_to_string sample_lib 5) a)"
proof -
  let ?k = "uuid_to_string sample_lib 5"
  obtain p' where run: "process_run sample_lib anything sample_served sample_round p'"
    and gone: "sessions_of (pr_sys p') = []"
    using sample_round_runs by blast
  have here: "filed ?k (sessions_of (pr_sys sample_served))" and gone: "\<not> filed ?k (sessions_of (pr_sys p'))"
    using gone by (simp_all add: filed_def sample_served_def boot_def marked_db_def mark_row_def)
  have "at_rest (pr_sys sample_served)" by (simp add: at_rest_def sample_served_def boot_def)
  from kept_until_server_settles_it [OF this run_nothing run here] gone
  have "\<exists>a \<in> set sample_round. server_settles sample_lib ?k a" by (auto simp: sample_round_def id_drawn_def)
  with run here gone show ?thesis by blast
qed

end
