(* ===== verification/Ending.thy ===== *)
theory Ending
  imports Process
begin

text \<open>
  Sessions that are being ended: a session that a task is about to end, or waits for the server to
  end, or that the reclaimer's round has before it, has no live row; and no step makes it live again,
  unless its id is drawn anew. So nothing that is live loses its watcher by such a request.
\<close>

section \<open>Sessions that are being ended\<close>

interpretation readable: kept_system L "\<lambda>d. uuid_ok L \<and> rows_ok L d" "\<lambda>_. True" "\<lambda>_. True" "\<lambda>_. True"
    "\<lambda>_. True" "\<lambda>_. True" for L
proof -
  have both: "keeps (\<lambda>d. uuid_ok L \<and> rows_ok L d) p" if "uuid_ok L \<Longrightarrow> keeps (rows_ok L) p" for p :: "(db, 'a, 'e) prog"
    using that by (cases "uuid_ok L") (simp_all add: keeps_def)
  have other: "keeps (rows_ok L) p" if "\<And>rs. keeps (same_sessions rs) p" for p :: "(db, 'a, 'e) prog"
    using that unfolding keeps_def same_sessions_def rows_ok_def by metis
  show "kept_system L (\<lambda>d. uuid_ok L \<and> rows_ok L d) (\<lambda>_. True) (\<lambda>_. True) (\<lambda>_. True) (\<lambda>_. True) (\<lambda>_. True)"
    by unfold_locales
      (rule both; (erule keeps_new_session | erule keeps_update_on_accepted | (intro keeps_intros; fail)
        | (rule other; intro keeps_intros; fail)) | simp)+
qed

lemma end_marks:
  assumes "uuid_ok L" and "rows_ok L d" and "storage_end_session L d = (Ok (Some i), d')"
  shows "not_live (uuid_to_string L (si_request_id i)) (vpn_sessions d')"
proof -
  obtain v d1 where v: "sql_one L session_table unmarked d = (Ok v, d1)"
    and found: "(case v of
       Some r \<Rightarrow>
         and_then (sql_update_many session_table (\<lambda>x. row_request_id x = row_request_id r) mark_row)
           (\<lambda>_. case row_session_uuid r of
              Some u \<Rightarrow> give (map_ok Some (info_of_texts L (row_request_id r) u))
            | None \<Rightarrow> ret None)
     | None \<Rightarrow> ret None) d1 = (Ok (Some i), d')"
    using assms(3) by (auto simp: storage_end_session_def and_then_Ok_iff)
  then obtain r where r: "sql_one L session_table unmarked d = (Ok (Some r), d1)"
    and rest: "and_then (sql_update_many session_table (\<lambda>x. row_request_id x = row_request_id r) mark_row)
           (\<lambda>_. case row_session_uuid r of
              Some u \<Rightarrow> give (map_ok Some (info_of_texts L (row_request_id r) u))
            | None \<Rightarrow> ret None) d1 = (Ok (Some i), d')"
    by (cases v) auto
  have "row_ok L r" using sessions.one_Some [OF r] assms(2) by (simp add: rows_ok_def)
  then obtain k where k: "uuid_parse_str L (row_request_id r) = Some k" "uuid_to_string L k = row_request_id r"
    by (auto simp: row_ok_def elim: canonical_idE)
  obtain n where mark: "sql_update_many session_table (\<lambda>x. row_request_id x = row_request_id r) mark_row d1 = (Ok n, d')"
    and "(case row_session_uuid r of
        Some u \<Rightarrow> map_ok Some (info_of_texts L (row_request_id r) u)
      | None \<Rightarrow> Ok None) = (Ok (Some i) :: (session_info option, db_err) res)"
    using rest unfolding and_then_Ok_iff by (auto split: option.splits)
  then obtain u where "info_of_texts L (row_request_id r) u = (Ok i :: (session_info, db_err) res)"
    by (cases "row_session_uuid r") (auto simp: map_ok_Ok_iff)
  then have "si_request_id i = k"
    using k(1) by (auto simp: info_of_texts_def parse_uuid_def res_bind_Ok_iff split: option.splits)
  with k(2) have "row_request_id r = uuid_to_string L (si_request_id i)" by simp
  with mark show ?thesis
    by (auto simp: sql_update_many_def statement_def not_live_def mark_row_def split: list.splits option.splits)
qed

definition ending_ids :: "lib \<Rightarrow> daemon \<Rightarrow> string set" where
  \<comment> \<open>of the sessions that tasks are about to end\<close>
  "ending_ids L s =
     (\<lambda>i. uuid_to_string L (si_request_id i)) ` {i. \<exists>x. TaskEndSession (Some i) x \<in> set (dm_tasks s)}"

definition endings_marked :: "lib \<Rightarrow> daemon \<Rightarrow> bool" where
  "endings_marked L s \<longleftrightarrow> uuid_ok L \<and> rows_ok L (dm_db s)
     \<and> (\<forall>k \<in> ending_ids L s. not_live k (vpn_sessions (dm_db s)))"

lemma ending_ids_db [simp]: "ending_ids L (s\<lparr>dm_db := d\<rparr>) = ending_ids L s"
  by (simp add: ending_ids_def)

lemma ending_ids_spawn:
  "ending_ids L (s\<lparr>dm_tasks := dm_tasks s @ [TaskEndSession v x]\<rparr>) =
     ending_ids L s \<union> (case v of Some i \<Rightarrow> {uuid_to_string L (si_request_id i)} | None \<Rightarrow> {})"
  by (auto simp: ending_ids_def split: option.split)

lemma marked_in_db [keeps_intros]:
  assumes "keeps (\<lambda>d. uuid_ok L \<and> rows_ok L d) p" and "\<And>k. keeps (\<lambda>d. not_live k (vpn_sessions d)) p"
  shows "keeps (endings_marked L) (in_dm_db p)" "keeps (endings_marked L) (on_db p)"
proof -
  show "keeps (endings_marked L) (in_dm_db p)"
  proof (rule keepsI)
    fix s r s'
    assume s: "endings_marked L s" and run: "in_dm_db p s = (r, s')"
    obtain d where d: "p (dm_db s) = (r, d)" and s': "s' = s\<lparr>dm_db := d\<rparr>"
      using run by (auto simp: zoom_def split: prod.splits)
    show "endings_marked L s'"
      using s keepsD [OF assms(1) _ d] keepsD [OF assms(2) _ d] by (simp add: endings_marked_def s')
  qed
  then show "keeps (endings_marked L) (on_db p)" unfolding on_db_def by (rule keeps_with_err)
qed

lemma marked_effects [keeps_intros]:
  "(\<And>i x. t \<noteq> TaskEndSession (Some i) x) \<Longrightarrow> keeps (endings_marked L) (spawn t)"
  "keeps (endings_marked L) (dm_reply r)" "keeps (endings_marked L) (broadcast_dm b)"
  "keeps (endings_marked L) (to_state f)" "keeps (endings_marked L) (send_tunnel_command c)"
  "keeps (endings_marked L) (do_shutdown_step x)"
  by (auto simp: keeps_def endings_marked_def ending_ids_def spawn_def dm_reply_def broadcast_dm_def
      to_state_def send_tunnel_command_def do_shutdown_step_def)

lemma marked_state [keeps_intros]:
  "keeps (endings_marked L) (\<lambda>s. let (v, st) = f (dm_state s) in (Ok v, s\<lparr>dm_state := st\<rparr>))"
  "keeps (endings_marked L) (\<lambda>s. case f (dm_state s) of (v, st) \<Rightarrow> (Ok v, s\<lparr>dm_state := st\<rparr>))"
  by (auto simp: keeps_def endings_marked_def ending_ids_def split: prod.split)

lemma marked_end_session [keeps_intros]: "keeps (endings_marked L) (end_session_dm L reason)"
proof (rule keepsI)
  fix s r s'
  assume s: "endings_marked L s" and run: "end_session_dm L reason s = (r, s')"
  obtain q d where d: "storage_end_session L (dm_db s) = (q, d)" by fastforce
  have ok: "uuid_ok L" "rows_ok L (dm_db s)" using s by (simp_all add: endings_marked_def)
  have "rows_ok L d" using keepsD [OF keeps_end_session ok(2) d] .
  moreover have "not_live k (vpn_sessions d)" if "k \<in> ending_ids L s" for k
    using keepsD [OF dead.end_keeps _ d] s that by (simp add: endings_marked_def)
  moreover have "not_live (uuid_to_string L (si_request_id i)) (vpn_sessions d)" if "q = Ok (Some i)" for i
    using end_marks [OF ok] d that by simp
  ultimately show "endings_marked L s'"
    using run ok(1) d
    by (cases q) (auto simp: end_session_dm_def on_db_def zoom_def prog_simps spawn_def endings_marked_def
        ending_ids_spawn [of L "s\<lparr>dm_db := d\<rparr>", simplified] split: option.splits)
qed

lemma marked_disconnect [keeps_intros]: "keeps (endings_marked L) (on_disconnect_inner L reason)"
  unfolding on_disconnect_inner_def tunnel_command_on_disconnect_def
  by (auto intro!: keeps_intros split: vpn_status.split)

lemma marked_shutdown: "keeps (endings_marked L) (handle_shutdown L)"
  unfolding handle_shutdown_def by (auto intro!: keeps_intros)

lemma marked_transition: "keeps (endings_marked L) (handle_tunnel_state_transition L w tr)"
proof -
  have "keeps (endings_marked L) (expect m (in_dm_db (tunnel_state_transition L now tr cur)))" for m now cur
    by (intro keeps_intros readable.transition_keeps dead.transition_keeps)
  then have "keeps (endings_marked L) (\<lambda>s. expect m (in_dm_db (tunnel_state_transition L now tr (f s))) s)" for m now f
    unfolding keeps_def by blast
  then show ?thesis
    unfolding handle_tunnel_state_transition_def when_some_def client_connected_dm_def add_notification_dm_def
      set_vpn_status_dm_def
    by (auto intro!: keeps_intros split: option.split)
qed

lemma marked_status: "keeps (endings_marked L) (handle_vpn_session_status L w st)"
  unfolding handle_vpn_session_status_def when_some_def add_notification_dm_def set_vpn_status_dm_def
    update_tunnel_on_new_status_def
  by (auto intro!: keeps_intros readable.status_keeps dead.status_keeps split: option.split vpn_status.split)

definition same_endings :: "lib \<Rightarrow> string set \<Rightarrow> daemon \<Rightarrow> bool" where
  "same_endings L X s \<longleftrightarrow> ending_ids L s = X"

lemma same_endings_effects [keeps_intros]:
  "(\<And>i x. t \<noteq> TaskEndSession (Some i) x) \<Longrightarrow> keeps (same_endings L X) (spawn t)"
  "keeps (same_endings L X) (dm_reply r)" "keeps (same_endings L X) (broadcast_dm b)"
  "keeps (same_endings L X) (to_state f)" "keeps (same_endings L X) (on_db p)"
  "keeps (same_endings L X) (\<lambda>s. let (v, st) = g (dm_state s) in (Ok v, s\<lparr>dm_state := st\<rparr>))"
  "keeps (same_endings L X) (\<lambda>s. case g (dm_state s) of (v, st) \<Rightarrow> (Ok v, s\<lparr>dm_state := st\<rparr>))"
  by (auto simp: keeps_def same_endings_def ending_ids_def spawn_def dm_reply_def broadcast_dm_def
      to_state_def on_db_def zoom_def prog_simps split: prod.split)

lemma connect_endings: "keeps (same_endings L X) (on_connect L w l)"
  unfolding on_connect_def respond_dm_def connect_split connect_request_def connect_accepted_def
    connect_rejected_def add_notification_dm_def
  by (auto intro!: keeps_intros split: option.split res.split)

lemma event_marked:
  assumes s: "endings_marked L s" and wf: "ds_wf (dm_state s)"
    and fresh: "uuid_to_string L (dmw_uuid w) \<notin> ending_ids L s"
    and run: "handle_event L (w, e) s = (r, s')"
  shows "endings_marked L s'"
proof (cases "\<exists>l. e = EvCommand (CmdConnect l)")
  case True
  then obtain l where e: "e = EvCommand (CmdConnect l)" by blast
  have "ending_ids L s' = ending_ids L s"
    using keepsD [OF connect_endings [of L "ending_ids L s" w l], of s r s'] run e by (simp add: same_endings_def)
  moreover have "dm_inv (\<lambda>d. uuid_ok L \<and> rows_ok L d) False s'"
    using keepsD [OF readable.keeps_event [where up = False] _ run] s wf by (simp add: event_ok_def endings_marked_def dm_inv_def)
  moreover have "not_live k (vpn_sessions (dm_db s'))" if "k \<in> ending_ids L s" for k
    using keepsD [OF dead.keeps_event [where k = k and up = False] _ run] s wf fresh that
    by (auto simp: event_ok_def world_ok_def endings_marked_def dm_inv_def)
  ultimately show ?thesis by (auto simp: endings_marked_def dm_inv_def)
next
  case False
  have "keeps (endings_marked L) (handle_event L (w, e))"
  proof (cases e)
    case (EvCommand c)
    with False show ?thesis
      by (cases c) (auto simp: on_is_authenticated_def on_account_sign_in_def on_account_sign_out_def
        unless_in_session_def on_list_locations_dm_def on_recent_locations_def
        on_disconnect_def on_get_vpn_status_def on_get_notifications_def on_ack_notification_def
        on_latest_app_version_def respond_dm_def intro!: keeps_intros split: option.split)
  qed (auto simp: marked_status marked_transition intro: keeps_intros)
  from keepsD [OF this s run] show ?thesis .
qed

text \<open>The same for the process: the tasks that wait for the server, and the round of the reclaimer.\<close>

definition busy_ids :: "lib \<Rightarrow> system \<Rightarrow> string set" where
  "busy_ids L s = ending_ids L (sy_daemon s)
     \<union> (\<lambda>e. uuid_to_string L (es_request_id e)) ` set (sy_ending s)
     \<union> (\<lambda>x. uuid_to_string L (si_request_id (snd x))) ` set (sy_reclaiming s)"

definition busy_marked :: "lib \<Rightarrow> system \<Rightarrow> bool" where
  "busy_marked L s \<longleftrightarrow> uuid_ok L \<and> rows_ok L (dm_db (sy_daemon s)) \<and> ds_wf (dm_state (sy_daemon s))
     \<and> (\<forall>k \<in> busy_ids L s. not_live k (sessions_of s))"

lemma collect_from: "collect f xs = Ok ys \<Longrightarrow> y \<in> set ys \<Longrightarrow> \<exists>x \<in> set xs. f x = Ok y"
  by (induction xs arbitrary: ys) (auto simp: res_bind_Ok_iff)

lemma to_reclaim_marked:
  assumes "uuid_ok L" and ok: "rows_ok L d" and "storage_to_reclaim L d = (Ok is, d')" and "i \<in> set is"
  shows "not_live (uuid_to_string L (si_request_id i)) (vpn_sessions d)"
proof -
  obtain rs d1 where rs: "sql_all session_table row_mark_for_deletion d = (Ok rs, d1)"
    and "collect (info_of_row L) (filter (reclaimable L) rs) = (Ok is :: (session_info list, db_err) res)"
    using assms(3) by (auto simp: storage_to_reclaim_def and_then_Ok_iff)
  with assms(4) obtain r where r: "r \<in> set rs" and info: "info_of_row L r = (Ok i :: (session_info, db_err) res)"
    using collect_from by fastforce
  have row: "r \<in> set (vpn_sessions d)" "row_mark_for_deletion r"
    using rs r by (auto simp: sql_all_def statement_def split: list.splits option.splits)
  then have "row_ok L r" using ok by (simp add: rows_ok_def)
  then obtain k where k: "uuid_parse_str L (row_request_id r) = Some k" "uuid_to_string L k = row_request_id r"
    by (auto simp: row_ok_def elim: canonical_idE)
  have "si_request_id i = k"
    using info k(1) by (auto simp: info_of_row_def parse_uuid_def res_bind_Ok_iff split: option.splits)
  then show ?thesis
    using ok row k(2) unfolding rows_ok_def not_live_def by (metis eq_key_imp_eq_value distinct_map inj_on_def)
qed

lemma start_reclaim_marked:
  assumes "uuid_ok L" and "rows_ok L d" and "start_reclaim L d = (Ok ps, d')" and "x \<in> set ps"
  shows "not_live (uuid_to_string L (si_request_id (snd x))) (vpn_sessions d')"
proof -
  have "keeps (same_sessions rs) (start_reclaim L)" for rs
    unfolding start_reclaim_def by (auto intro!: keeps_intros split: res.split)
  from keepsD [OF this [of "vpn_sessions d"] _ assms(3)] have same: "vpn_sessions d' = vpn_sessions d"
    by (simp add: same_sessions_def)
  obtain js d1 where "storage_to_reclaim L d = (Ok js, d1)" and "snd x \<in> set js"
    using assms(3,4)
    by (auto simp: start_reclaim_def attempt_def split: prod.splits res.splits option.splits)
  with to_reclaim_marked [OF assms(1,2)] same show ?thesis by auto
qed

lemma busy_ids_parts [simp]:
  "busy_ids L (post e s) = busy_ids L s"
  "busy_ids L (s\<lparr>sy_up := b\<rparr>) = busy_ids L s"
  by (simp_all add: busy_ids_def post_def)

definition in_busy :: "lib \<Rightarrow> string set \<Rightarrow> system \<Rightarrow> bool" where
  "in_busy L X s \<longleftrightarrow> busy_ids L s \<subseteq> X"

lemma in_busy_intros [keeps_intros]:
  "keeps (in_busy L X) (in_db p)" "keeps (in_busy L X) (sys_reply r)" "keeps (in_busy L X) (device_call L w c)"
  by (auto simp: keeps_def in_busy_def busy_ids_def zoom_def sys_reply_def device_call_def ending_ids_def
      split: prod.split)

lemma task_busy:
  assumes "\<And>i x. t = TaskEndSession (Some i) x \<Longrightarrow> uuid_to_string L (si_request_id i) \<in> X"
  shows "keeps (in_busy L X) (run_task L w t)"
proof (cases "\<exists>i x. t = TaskEndSession (Some i) x")
  case True
  then obtain i x where t: "t = TaskEndSession (Some i) x" by blast
  with assms have i: "uuid_to_string L (si_request_id i) \<in> X" by blast
  show ?thesis
  proof (rule keepsI)
    fix s r s'
    assume s: "in_busy L X s" and run: "run_task L w t s = (r, s')"
    obtain q d where d: "start_end_session L (Some i) x (dm_db (sy_daemon s)) = (q, d)" by fastforce
    have "es_request_id e = si_request_id i" if "q = Ok (Some e)" for e
      using d that by (auto simp: start_end_session_def prog_simps split: prod.splits res.splits)
    then show "in_busy L X s'"
      using s run i d
      by (cases q) (auto simp: t zoom_def prog_simps in_busy_def busy_ids_def image_subset_iff split: option.splits)
  qed
next
  case False
  have none: "keeps (in_busy L X) (and_then (in_db (start_end_session L None x)) (\<lambda>q. case q of
       Some e \<Rightarrow> writes (\<lambda>s. s\<lparr>sy_ending := sy_ending s @ [e]\<rparr>) | None \<Rightarrow> ret ()))" for x
    by (auto simp: keeps_def in_busy_def busy_ids_def zoom_def prog_simps start_end_session_def)
  from False show ?thesis
    by (cases t) (auto simp: handler_defs none intro!: keeps_intros)
qed

lemma forget_busy:
  assumes "i < length (dm_tasks (sy_daemon s))"
  shows "busy_ids L (forget_task i s) \<subseteq> busy_ids L s"
    and "dm_tasks (sy_daemon s) ! i = TaskEndSession (Some j) x \<Longrightarrow> uuid_to_string L (si_request_id j) \<in> busy_ids L s"
proof -
  have "set (remove_at i (dm_tasks (sy_daemon s))) \<subseteq> set (dm_tasks (sy_daemon s))"
    using set_take_subset set_drop_subset by (fastforce simp: remove_at_def)
  then show "busy_ids L (forget_task i s) \<subseteq> busy_ids L s"
    by (auto simp: busy_ids_def ending_ids_def forget_task_def)
  show "uuid_to_string L (si_request_id j) \<in> busy_ids L s" if "dm_tasks (sy_daemon s) ! i = TaskEndSession (Some j) x"
    using nth_mem [OF assms] that by (auto simp: busy_ids_def ending_ids_def)
qed

lemma busy_new:
  assumes step: "sys_step L a s s'" and ok: "busy_marked L s"
    and fresh: "\<And>w. a = DaemonHandles w \<Longrightarrow> uuid_to_string L (dmw_uuid w) \<notin> busy_ids L s"
    and k: "k \<in> busy_ids L s'"
  shows "k \<in> busy_ids L s \<or> not_live k (sessions_of s')"
proof -
  have marked: "endings_marked L (sy_daemon s)"
    using ok by (auto simp: busy_marked_def endings_marked_def busy_ids_def)
  show ?thesis
    using step
  proof cases
    case (daemon_handles e es w r dm)
    have "uuid_to_string L (dmw_uuid w) \<notin> ending_ids L (sy_daemon s)"
      using fresh daemon_handles(1) by (auto simp: busy_ids_def)
    from event_marked [OF marked _ this daemon_handles(5)] ok have "endings_marked L dm"
      by (simp add: busy_marked_def)
    then show ?thesis using k daemon_handles(2) by (auto simp: busy_ids_def endings_marked_def)
  next
    case (task_runs i w r)
    have "in_busy L (busy_ids L s) (forget_task i s)"
      using forget_busy(1) [OF task_runs(3)] by (simp add: in_busy_def)
    from keepsD [OF task_busy this task_runs(4)] forget_busy(2) [OF task_runs(3)] k show ?thesis
      by (auto simp: in_busy_def)
  next
    case (end_answered i e x r)
    have "set (remove_at i (sy_ending s)) \<subseteq> set (sy_ending s)"
      using set_take_subset set_drop_subset by (fastforce simp: remove_at_def)
    then show ?thesis using k end_answered(5) by (auto simp: busy_ids_def zoom_def split: prod.splits)
  next
    case (reclaimer_starts r t)
    then obtain d where d: "start_reclaim L (dm_db (sy_daemon s)) = (r, d)"
      and t: "t = s\<lparr>sy_daemon := (sy_daemon s)\<lparr>dm_db := d\<rparr>\<rparr>"
      by (auto simp: zoom_def split: prod.splits)
    show ?thesis
      using k ok start_reclaim_marked [of L "dm_db (sy_daemon s)"] d
      by (cases r) (auto simp: reclaimer_starts(2) t busy_ids_def busy_marked_def)
  next
    case (reclaimer_answered dev i ps e x r t)
    then show ?thesis using k by (auto simp: busy_ids_def zoom_def split: prod.splits)
  next
    case (shuts_down r dm)
    have "endings_marked L dm" using keepsD [OF marked_shutdown marked shuts_down(4)] .
    then show ?thesis using k shuts_down(2) by (auto simp: busy_ids_def endings_marked_def)
  next
    case (restarts w)
    then show ?thesis
      using k by (auto simp: restarted_def busy_ids_def boot_def ending_ids_def daemon_new_def
          dest!: create_daemon_state split: prod.splits res.splits)
  qed (use k in auto)
qed

lemma any_label: "label_ok (\<lambda>_. True) (\<lambda>_. True) (\<lambda>_. True) (\<lambda>_. True) (\<lambda>_. True) a"
  by (cases a) (simp_all add: answer_ok_def)

lemma busy_stays:
  assumes step: "sys_step L a s s'" and ok: "busy_marked L s"
    and fresh: "\<And>w. a = DaemonHandles w \<Longrightarrow> uuid_to_string L (dmw_uuid w) \<notin> busy_ids L s"
    and k: "k \<in> busy_ids L s"
  shows "not_live k (sessions_of s')"
proof -
  have "\<not> draws L k a" using fresh k by (auto simp: draws_def split: sys_label.split)
  with dead.step_keeps [where k = k, OF step] dead_label [of L k a] ok k show ?thesis
    by (auto simp: sys_inv_def dm_inv_def busy_marked_def)
qed

lemma busy_step:
  assumes step: "sys_step L a s s'" and ok: "busy_marked L s"
    and fresh: "\<And>w. a = DaemonHandles w \<Longrightarrow> uuid_to_string L (dmw_uuid w) \<notin> busy_ids L s"
  shows "busy_marked L s'"
proof -
  have "\<forall>k \<in> busy_ids L s'. not_live k (sessions_of s')"
    using busy_new [OF step ok fresh] busy_stays [OF step ok fresh] by blast
  moreover have "rows_ok L (dm_db (sy_daemon s')) \<and> ds_wf (dm_state (sy_daemon s'))"
    using readable.step_keeps [OF step any_label] ok by (auto simp: sys_inv_def dm_inv_def busy_marked_def)
  ultimately show ?thesis using ok by (simp add: busy_marked_def)
qed

end
