(* ===== verification/Watching.thy ===== *)
theory Watching
  imports Ending
begin

text \<open>
  Who watches the sessions: in the process of the theory Process, a live session that the server
  has accepted has a watcher, until that has brought a final status, the client has connected, or the
  server's answer could not be decoded.
\<close>

section \<open>Who is watched\<close>

definition live_within :: "string set \<Rightarrow> session_row list \<Rightarrow> bool" where
  \<comment> \<open>the live sessions that the server has accepted have ids in \<open>W\<close>\<close>
  "live_within W rs \<longleftrightarrow> (\<forall>r \<in> set rs. \<not> row_mark_for_deletion r \<longrightarrow> row_session_uuid r \<noteq> None \<longrightarrow> row_request_id r \<in> W)"

interpretation within: row_law L "live_within W" "\<lambda>_. True" "\<lambda>_. True" "\<lambda>i. i \<in> W" for L W
  by unfold_locales (fastforce simp: live_within_def grows_def)+

definition watched_ids :: "lib \<Rightarrow> process \<Rightarrow> string set" where
  "watched_ids L p = uuid_to_string L ` ({k. watcher_of (pr_svc p) k \<noteq> None} \<union> set (pr_connected p))"

definition minded :: "process \<Rightarrow> nat \<Rightarrow> bool" where
  \<comment> \<open>a watcher that has not been told to stop runs, or has ended by itself\<close>
  "minded p i \<longleftrightarrow> told_to_stop (pr_svc p) i \<or> i \<in> fst ` set (pr_watching p) \<or> i \<in> fst ` set (pr_ended p)"

definition attended :: "process \<Rightarrow> bool" where
  "attended p \<longleftrightarrow> (\<forall>i \<in> fst ` set (vs_spawned (pr_svc p)). minded p i)"

lemma attended_mono:
  assumes "attended p" and "\<And>i. minded p i \<Longrightarrow> minded p' i"
    and "fst ` set (vs_spawned (pr_svc p')) \<subseteq> fst ` set (vs_spawned (pr_svc p)) \<union> fst ` set (pr_watching p')"
  shows "attended p'"
  unfolding attended_def
proof
  fix i assume "i \<in> fst ` set (vs_spawned (pr_svc p'))"
  with assms(3) have "i \<in> fst ` set (vs_spawned (pr_svc p)) \<or> i \<in> fst ` set (pr_watching p')" by blast
  then show "minded p' i"
  proof
    assume "i \<in> fst ` set (vs_spawned (pr_svc p))"
    with assms(1) have "minded p i" unfolding attended_def by (rule bspec)
    then show ?thesis by (rule assms(2))
  qed (simp add: minded_def)
qed

definition watch_inv :: "lib \<Rightarrow> process \<Rightarrow> bool" where
  "watch_inv L p \<longleftrightarrow> busy_marked L (pr_sys p)
     \<and> (pr_svc_up p \<longrightarrow> vs_ok (pr_svc p) \<and> attended p \<and> live_within (watched_ids L p) (sessions_of (pr_sys p)))"

definition ids_new :: "lib \<Rightarrow> process \<Rightarrow> process_label \<Rightarrow> bool" where
  \<comment> \<open>an id drawn for a new session is not that of one that is just being ended\<close>
  "ids_new L p a = (case a of Handles v w \<Rightarrow> uuid_to_string L (dmw_uuid w) \<notin> busy_ids L (pr_sys p) | _ \<Rightarrow> True)"

definition echoes :: "process_label \<Rightarrow> bool" where
  \<comment> \<open>the server accepts a request under the request's own id\<close>
  "echoes a = (case a of
      Handles v w \<Rightarrow> (\<forall>ns x. on_new_session_inner v ns = Ok x \<longrightarrow> acc_request_id x = ns_request_id ns)
    | _ \<Rightarrow> True)"

lemma within_step:
  assumes "sys_step L b s s'" and "label_ok (\<lambda>_. True) (\<lambda>_. True) (\<lambda>_. True) (\<lambda>x. uuid_to_string L (acc_request_id x) \<in> W) (\<lambda>_. True) b"
    and "busy_marked L s" and "live_within W (sessions_of s)"
  shows "live_within W (sessions_of s')"
  using within.step_keeps [where W = W and L = L, OF assms(1)] assms(2-4)
  by (simp add: sys_inv_def dm_inv_def busy_marked_def)

lemma plain_label: "\<forall>w. b \<noteq> DaemonHandles w \<Longrightarrow> label_ok (\<lambda>_. True) (\<lambda>_. True) (\<lambda>_. True) A (\<lambda>_. True) b"
  by (cases b) (simp_all add: answer_ok_def)

lemma remove_at_set: "n < length xs \<Longrightarrow> x \<in> set xs \<Longrightarrow> x \<noteq> xs ! n \<Longrightarrow> x \<in> set (remove_at n xs)"
  by (metis Cons_nth_drop_Suc Un_iff append_take_drop_id remove_at_def set_ConsD set_append)

lemma watching_kept:
  "n < length xs \<Longrightarrow> i \<in> fst ` set xs \<Longrightarrow> i \<in> fst ` set (remove_at n xs) \<or> i = fst (xs ! n)"
  by (metis (no_types, lifting) imageE image_eqI remove_at_set)

lemma told_after_stop: "told_to_stop s i \<Longrightarrow> told_to_stop (stop_watcher k s) i"
  using delete_subset [of k "vs_watchers s"] by (auto simp: told_to_stop_def stop_watcher_def)

lemma stopping:
  assumes ok: "vs_ok (pr_svc p)" "attended p" and "live_within (watched_ids L p) rs" and k: "not_live (uuid_to_string L k) rs"
    and p': "pr_svc p' = stop_watcher k (pr_svc p)" "pr_watching p' = pr_watching p" "pr_ended p' = pr_ended p"
      "pr_connected p' = pr_connected p"
  shows "vs_ok (pr_svc p') \<and> attended p' \<and> live_within (watched_ids L p') rs"
proof (intro conjI)
  show "vs_ok (pr_svc p')" using ok by (simp add: p')
  show "attended p'" by (rule attended_mono [OF ok(2)]) (use told_after_stop in \<open>auto simp: minded_def p'\<close>)
  have "watched_ids L p \<subseteq> insert (uuid_to_string L k) (watched_ids L p')"
    by (auto simp: watched_ids_def p' watcher_of_stop [OF ok(1)])
  with assms(3) k show "live_within (watched_ids L p') rs" by (force simp: live_within_def not_live_def)
qed

lemma create_marks:
  assumes "create_daemon L w u = (Ok dm, u')"
  shows "\<forall>r \<in> set (vpn_sessions (sup_db u')). row_mark_for_deletion r"
  using assms
  by (auto simp: create_daemon_def and_then_Ok_iff zoom_Ok_iff start_part_def split: if_splits dest: reclaim_marks)

lemma restart_marks:
  assumes "sys_step L (Restarts w) s s'" and "sy_up s'"
  shows "live_within W (sessions_of s')"
proof -
  from assms(1) have up: "\<not> sy_up s" and s': "s' = restarted L w s" by (auto elim: sys_stepE)
  obtain r u where c: "create_daemon L (w\<lparr>su_running := False, su_db_connect := Ok (dm_db (sy_daemon s))\<rparr>)
      (startup_on (dm_db (sy_daemon s))) = (r, u)" by fastforce
  with assms(2) up s' obtain dm where r: "r = Ok dm" by (cases r) (auto simp: restarted_def)
  have "\<forall>r \<in> set (vpn_sessions (sup_db u)). row_mark_for_deletion r" using create_marks c r by blast
  moreover have "sy_daemon s' = dm" using c r by (simp add: s' restarted_def boot_def)
  have "sessions_of s' = vpn_sessions (sup_db u)"
    using create_daemon_state [OF c [unfolded r]] by (simp add: \<open>sy_daemon s' = dm\<close>) (simp add: daemon_new_def)
  ultimately show ?thesis by (auto simp: live_within_def)
qed

section \<open>Every step keeps it\<close>

lemma posted [simp]: "busy_marked L (post e s) = busy_marked L s" "sessions_of (post e s) = sessions_of s"
  by (simp_all add: busy_marked_def) (simp_all add: post_def)

lemma plain_step:
  assumes "sys_step L b (pr_sys p) s" and "\<forall>w. b \<noteq> DaemonHandles w" and "watch_inv L p"
  shows "busy_marked L s" and "pr_svc_up p \<Longrightarrow> live_within (watched_ids L p) (sessions_of s)"
    and "k \<in> busy_ids L (pr_sys p) \<Longrightarrow> not_live k (sessions_of s)"
proof -
  have busy: "busy_marked L (pr_sys p)" using assms(3) by (simp add: watch_inv_def)
  show "busy_marked L s" using busy_step [OF assms(1) busy] assms(2) by blast
  show "k \<in> busy_ids L (pr_sys p) \<Longrightarrow> not_live k (sessions_of s)"
    using busy_stays [OF assms(1) busy] assms(2) by blast
  show "pr_svc_up p \<Longrightarrow> live_within (watched_ids L p) (sessions_of s)"
    using within_step [OF assms(1) plain_label [OF assms(2)] busy] assms(3) by (simp add: watch_inv_def)
qed

lemma same_watch [simp]:
  "watched_ids L (p\<lparr>pr_sys := s\<rparr>) = watched_ids L p" "attended (p\<lparr>pr_sys := s\<rparr>) = attended p"
  by (simp_all add: watched_ids_def attended_def minded_def)

lemma plain_keeps:
  assumes "sys_step L b (pr_sys p) s" and "\<forall>w. b \<noteq> DaemonHandles w" and "watch_inv L p"
  shows "watch_inv L (p\<lparr>pr_sys := s\<rparr>)"
  using plain_step [OF assms] assms(3) by (simp add: watch_inv_def)

lemma down_keeps: "busy_marked L (pr_sys p) \<Longrightarrow> watch_inv L (without_services p)"
  by (simp add: watch_inv_def without_services_def)

lemma stop_keeps:
  assumes step: "sys_step L b (pr_sys p) s" and plain: "\<forall>w. b \<noteq> DaemonHandles w" and ok: "watch_inv L p"
    and busy: "uuid_to_string L (es_request_id e) \<in> busy_ids L (pr_sys p)"
  shows "watch_inv L ((service_takes (EndSessionCmd e) p)\<lparr>pr_sys := s\<rparr>)"
proof (cases "pr_svc_up p")
  case True
  let ?q = "service_takes (EndSessionCmd e) p"
  have "vs_ok (pr_svc ?q) \<and> attended ?q \<and> live_within (watched_ids L ?q) (sessions_of s)"
    using ok True plain_step [OF step plain ok] busy
    by (intro stopping [of p L "sessions_of s" "es_request_id e"]) (simp_all add: watch_inv_def)
  with plain_step(1) [OF step plain ok] show ?thesis by (simp add: watch_inv_def)
next
  case False
  with plain_keeps [OF step plain ok] show ?thesis by simp
qed

lemma connected_keeps:
  assumes step: "sys_step L b (pr_sys p) s" and plain: "\<forall>w. b \<noteq> DaemonHandles w" and ok: "watch_inv L p"
  shows "watch_inv L ((service_takes (ClientConnectedCmd c) p)\<lparr>pr_sys := s\<rparr>)"
proof (cases "pr_svc_up p")
  case True
  let ?q = "service_takes (ClientConnectedCmd c) p"
  have vs: "vs_ok (pr_svc p)" "attended p" using ok True by (simp_all add: watch_inv_def)
  have "attended ?q"
    by (rule attended_mono [OF vs(2)]) (use told_after_stop True in \<open>auto simp: minded_def\<close>)
  moreover have "watched_ids L p \<subseteq> watched_ids L ?q"
    using True by (auto simp: watched_ids_def watcher_of_stop [OF vs(1)])
  then have "live_within (watched_ids L ?q) (sessions_of s)"
    using plain_step(2) [OF step plain ok True] unfolding live_within_def by blast
  ultimately show ?thesis using plain_step(1) [OF step plain ok] vs True by (simp add: watch_inv_def)
next
  case False
  with plain_keeps [OF step plain ok] show ?thesis by simp
qed

lemma tick_keeps:
  assumes ok: "watch_inv L p" and up: "sy_up (pr_sys p)" and n: "n < length (pr_watching p)"
  shows "watch_inv L (watcher_ticks n a p)"
proof -
  let ?p = "watcher_ticks n a p"
  have busy: "busy_marked L (pr_sys ?p)" and rows: "sessions_of (pr_sys ?p) = sessions_of (pr_sys p)"
    using tick_steps [OF up n, of a] ok by (auto simp: watch_inv_def)
  obtain i q w where w: "pr_watching p ! n = (i, q, w)" by (cases "pr_watching p ! n")
  obtain r w' where t: "watch_ended a w = (r, w')" by fastforce
  have same: "pr_svc ?p = pr_svc p" "pr_svc_up ?p = pr_svc_up p" "pr_connected ?p = pr_connected p"
    by (cases r; simp add: watcher_ticks_def w t Let_def watcher_ends_def)+
  have moved: "j \<in> fst ` set (pr_watching ?p) \<or> j \<in> fst ` set (pr_ended ?p)"
    if "j \<in> fst ` set (pr_watching p) \<or> j \<in> fst ` set (pr_ended p)" for j
    using that
  proof
    assume j: "j \<in> fst ` set (pr_watching p)"
    have "map fst ((pr_watching p)[n := (i, q, w')]) = map fst (pr_watching p)"
      using n w by (metis fst_conv list_update_id map_update)
    then have "fst ` set ((pr_watching p)[n := (i, q, w')]) = fst ` set (pr_watching p)" by (metis set_map)
    with j watching_kept [OF n j] w show ?thesis
      by (cases r) (auto simp: watcher_ticks_def t Let_def watcher_ends_def)
  next
    assume "j \<in> fst ` set (pr_ended p)"
    then show ?thesis by (cases r) (auto simp: watcher_ticks_def w t Let_def watcher_ends_def)
  qed
  have "attended ?p" if "attended p"
    by (rule attended_mono [OF that]) (use moved same in \<open>auto simp: minded_def\<close>)
  with ok busy rows same show ?thesis by (auto simp: watch_inv_def watched_ids_def)
qed

lemma stops_keeps:
  assumes ok: "watch_inv L p" and n: "n < length (pr_watching p)"
    and told: "told_to_stop (pr_svc p) (fst (pr_watching p ! n))"
  shows "watch_inv L (p\<lparr>pr_watching := remove_at n (pr_watching p)\<rparr>)"
proof -
  have "attended (p\<lparr>pr_watching := remove_at n (pr_watching p)\<rparr>)" if "attended p"
    by (rule attended_mono [OF that]) (use told watching_kept [OF n] in \<open>simp add: minded_def, metis\<close>, simp)
  with ok show ?thesis by (simp add: watch_inv_def watched_ids_def)
qed

lemma asks_anyway: "connect_asks L (w\<lparr>dmw_new_session := f\<rparr>) e s = connect_asks L w e s"
  by (simp add: connect_asks_def connect_request_def cong: option.case_cong daemon_event.case_cong daemon_command.case_cong)

lemma service_new_session_run:
  "handle_session_command (v, NewSessionCmd ns) s = (case on_new_session_inner v ns of
      Ok x \<Rightarrow> (Ok (), reply (AcceptedReply (Ok x)) (start_watcher \<lparr>req_request_id = ns_request_id ns,
        req_device_unique_id = ns_device_unique_id ns, req_vpn_session_uuid = acc_vpn_session_uuid x\<rparr> s))
    | Err e \<Rightarrow> (Ok (), reply (AcceptedReply (Err e)) s)
    | Panic m \<Rightarrow> (Panic m, s))"
  by (simp add: on_new_session_def prog_simps split: res.split)

lemma service_accepts_run:
  "service_accepts v (Some ns) p = (if pr_svc_up p then (case on_new_session_inner v ns of
      Ok x \<Rightarrow> p\<lparr>pr_svc := reply (AcceptedReply (Ok x)) (start_watcher \<lparr>req_request_id = ns_request_id ns,
          req_device_unique_id = ns_device_unique_id ns, req_vpn_session_uuid = acc_vpn_session_uuid x\<rparr> (pr_svc p)),
        pr_watching := pr_watching p @ [(length (vs_spawned (pr_svc p)), \<lparr>req_request_id = ns_request_id ns,
          req_device_unique_id = ns_device_unique_id ns, req_vpn_session_uuid = acc_vpn_session_uuid x\<rparr>, watcher_new)]\<rparr>
    | Err e \<Rightarrow> p\<lparr>pr_svc := reply (AcceptedReply (Err e)) (pr_svc p)\<rparr>
    | Panic m \<Rightarrow> service_dies p) else p)"
  unfolding service_accepts_def option.case service_new_session_run
  by (simp add: new_watchers_def start_watcher_def insert_watcher_def Let_def split: res.split)

lemma told_after_start:
  "told_to_stop s i \<Longrightarrow> i \<noteq> length (vs_spawned s) \<Longrightarrow> told_to_stop (start_watcher q s) i"
  using update_subset [of "req_request_id q" "length (vs_spawned s)" "vs_watchers s"]
  by (fastforce simp: told_to_stop_def start_watcher_def insert_watcher_def Let_def)

lemma told_reply [simp]: "told_to_stop (reply r s) i = told_to_stop s i"
  by (simp add: told_to_stop_def reply_def)

lemma spawned_start: "vs_spawned (start_watcher q s) = vs_spawned s @ [(length (vs_spawned s), q)]"
  by (simp add: start_watcher_def insert_watcher_def Let_def)

lemma accepts_keeps:
  assumes ok: "vs_ok (pr_svc p)" and att: "attended p"
  shows "pr_svc_up (service_accepts v q p) \<Longrightarrow> vs_ok (pr_svc (service_accepts v q p)) \<and> attended (service_accepts v q p)
    \<and> watched_ids L p \<subseteq> watched_ids L (service_accepts v q p)"
proof (cases q)
  case (Some ns)
  assume up: "pr_svc_up (service_accepts v q p)"
  show ?thesis
  proof (cases "pr_svc_up p")
    case True
    show ?thesis
    proof (cases "on_new_session_inner v ns")
      case (Ok x)
      let ?p = "service_accepts v q p"
      have "attended ?p"
        by (rule attended_mono [OF att])
          (use told_after_start Ok in \<open>auto simp: Some service_accepts_run True minded_def spawned_start\<close>)
      with Ok show ?thesis
        using ok vs_ok_start [OF ok]
        by (auto simp: Some service_accepts_run True watched_ids_def watcher_of_start)
    next
      case (Err e)
      then show ?thesis using ok att by (simp add: Some service_accepts_run True attended_def minded_def watched_ids_def)
    next
      case (Panic m)
      then show ?thesis using up by (simp add: Some service_accepts_run True service_dies_def)
    qed
  qed (use ok att in \<open>simp add: Some service_accepts_run\<close>)
qed (use ok att in \<open>simp add: service_accepts_def\<close>)

lemma accepts_watches:
  assumes "vs_ok (pr_svc p)" and "new_session_answer (pr_svc_up p) v ns = Ok x"
    and "acc_request_id x = ns_request_id ns"
  shows "uuid_to_string L (acc_request_id x) \<in> watched_ids L (service_accepts v (Some ns) p)"
proof -
  from assms(2) have up: "pr_svc_up p" and "on_new_session_inner v ns = Ok x"
    by (auto simp: new_session_answer_def received_def split: if_splits)
  with assms(1,3) show ?thesis by (simp add: service_accepts_run watched_ids_def watcher_of_start)
qed

lemma unless_gone_keeps: "watch_inv L p \<Longrightarrow> watch_inv L (unless_gone p)"
  by (simp add: unless_gone_def down_keeps watch_inv_def without_services_def)

lemma handles_keeps:
  assumes ok: "watch_inv L p" and new: "ids_new L p (Handles v w)" and echo: "echoes (Handles v w)"
    and e: "sy_mailbox (pr_sys p) = e # es"
    and step: "sys_step L (DaemonHandles (w\<lparr>dmw_new_session := new_session_answer (pr_svc_up p) v\<rparr>)) (pr_sys p) s"
  shows "watch_inv L ((service_accepts v (connect_asks L w e (sy_daemon (pr_sys p))) p)\<lparr>pr_sys := s\<rparr>)"
proof -
  let ?q = "connect_asks L w e (sy_daemon (pr_sys p))"
  let ?p = "service_accepts v ?q p"
  let ?f = "\<lambda>ns. if ?q = Some ns then new_session_answer (pr_svc_up p) v ns else Err VpnSessionServiceDown"
  have busy: "busy_marked L (pr_sys p)" using ok by (simp add: watch_inv_def)
  have fresh: "uuid_to_string L (dmw_uuid w) \<notin> busy_ids L (pr_sys p)" using new by (simp add: ids_new_def)
  have marked: "busy_marked L s" using busy_step [OF step busy] fresh by auto
  show ?thesis
  proof (cases "pr_svc_up ?p")
    case True
    then have up: "pr_svc_up p"
      by (auto simp: service_accepts_def service_dies_def Let_def split: option.splits if_splits prod.splits)
    have vs: "vs_ok (pr_svc p)" "attended p" and live: "live_within (watched_ids L p) (sessions_of (pr_sys p))"
      using ok up by (simp_all add: watch_inv_def)
    note kept = accepts_keeps [OF vs True]
    have same: "handle_event L (w\<lparr>dmw_new_session := ?f\<rparr>, e) (sy_daemon (pr_sys p)) =
        handle_event L (w\<lparr>dmw_new_session := new_session_answer (pr_svc_up p) v\<rparr>, e) (sy_daemon (pr_sys p))"
      using only_asked [of L "w\<lparr>dmw_new_session := new_session_answer (pr_svc_up p) v\<rparr>" e "sy_daemon (pr_sys p)" ?f]
      by (simp add: asks_anyway)
    have "sys_step L (DaemonHandles (w\<lparr>dmw_new_session := ?f\<rparr>)) (pr_sys p) s"
      using step
    proof cases
      case (daemon_handles e' es' r dm)
      then show ?thesis using e same by (auto intro!: sys_step.daemon_handles)
    qed
    moreover have "label_ok (\<lambda>_. True) (\<lambda>_. True) (\<lambda>_. True) (\<lambda>x. uuid_to_string L (acc_request_id x) \<in> watched_ids L ?p)
        (\<lambda>_. True) (DaemonHandles (w\<lparr>dmw_new_session := ?f\<rparr>))"
    proof -
      have "uuid_to_string L (acc_request_id x) \<in> watched_ids L ?p" if x: "?f ns = Ok x" for ns x
      proof -
        from x have q: "?q = Some ns" and a: "new_session_answer (pr_svc_up p) v ns = Ok x" by (auto split: if_splits)
        then have "on_new_session_inner v ns = Ok x"
          by (auto simp: new_session_answer_def received_def split: if_splits)
        with echo have "acc_request_id x = ns_request_id ns" by (simp add: echoes_def)
        with accepts_watches [OF vs(1) a] show ?thesis by (simp add: q)
      qed
      then show ?thesis by (simp add: world_ok_def)
    qed
    moreover have "live_within (watched_ids L ?p) (sessions_of (pr_sys p))"
      using live kept unfolding live_within_def by blast
    ultimately have "live_within (watched_ids L ?p) (sessions_of s)" by (rule within_step [OF _ _ busy])
    with kept marked show ?thesis by (simp add: watch_inv_def)
  next
    case False
    with marked show ?thesis by (simp add: watch_inv_def)
  qed
qed

lemma task_keeps:
  assumes step: "sys_step L (TaskRuns i w) (pr_sys p) s" and ok: "watch_inv L p"
    and i: "i < length (dm_tasks (sy_daemon (pr_sys p)))"
  shows "watch_inv L ((service_hears (task_sends L (dm_tasks (sy_daemon (pr_sys p)) ! i) d) p)\<lparr>pr_sys := s\<rparr>)"
proof (cases "task_sends L (dm_tasks (sy_daemon (pr_sys p)) ! i) d")
  case (Some c)
  have plain: "\<forall>w'. TaskRuns i w \<noteq> DaemonHandles w'" by simp
  show ?thesis
  proof (cases c)
    case (EndSessionCmd e)
    then obtain j x where t: "dm_tasks (sy_daemon (pr_sys p)) ! i = TaskEndSession j x"
      using Some by (cases "dm_tasks (sy_daemon (pr_sys p)) ! i")
        (auto split: prod.splits res.splits option.splits)
    then have sent: "fst (start_end_session L j x d) = Ok (Some e)"
      using Some EndSessionCmd by (auto split: prod.splits res.splits option.splits)
    then obtain k where j: "j = Some k" and k: "es_request_id e = si_request_id k"
      by (auto simp: start_end_session_def prog_simps split: option.splits prod.splits res.splits)
    have "uuid_to_string L (es_request_id e) \<in> busy_ids L (pr_sys p)"
      using forget_busy(2) [OF i, of k x L] t j k by simp
    from stop_keeps [OF step plain ok this] show ?thesis by (simp add: Some EndSessionCmd service_hears_def)
  next
    case (ClientConnectedCmd cc)
    from connected_keeps [OF step plain ok] show ?thesis by (simp add: Some ClientConnectedCmd service_hears_def)
  qed (use plain_keeps [OF step plain ok] in \<open>simp_all add: Some service_hears_def\<close>)
next
  case None
  then show ?thesis using plain_keeps [OF step _ ok] by (simp add: service_hears_def)
qed

lemma no_watcher: "vs_spawned session_service_new = []"
  by (simp add: session_service_new_def)

lemma watch_step:
  assumes step: "process_step L a p p'" and ok: "watch_inv L p" and "ids_new L p a" and "echoes a"
  shows "watch_inv L p'"
  using step
proof cases
  case (from_outside b s)
  then have "\<forall>w. b \<noteq> DaemonHandles w" by auto
  with plain_keeps [OF from_outside(4) _ ok] from_outside(2) show ?thesis by simp
next
  case (goes_down b s)
  then have "\<forall>w. b \<noteq> DaemonHandles w" by auto
  from plain_step(1) [OF goes_down(4) this ok] show ?thesis using goes_down(2) by (simp add: down_keeps)
next
  case (comes_up w s)
  have "busy_marked L s" using plain_step(1) [OF comes_up(3) _ ok] by simp
  then show ?thesis
    using restart_marks [OF comes_up(3)] vs_ok_new comes_up(2)
    by (cases "sy_up s") (simp_all add: started_def watch_inv_def without_services_def attended_def no_watcher)
next
  case (handles e es v w s)
  then show ?thesis using unless_gone_keeps [OF handles_keeps [OF ok _ _ handles(3,4)]] assms(3,4) by simp
next
  case (runs i v tw s)
  then show ?thesis using task_keeps [OF runs(4) ok runs(3)] by simp
next
  case (end_answers i e up v s)
  then show ?thesis using plain_keeps [OF end_answers(3) _ ok] by simp
next
  case (reclaim_asks e v s)
  from reclaim_asks(3) have "uuid_to_string L (es_request_id e) \<in> busy_ids L (pr_sys p)"
    by (auto simp: busy_ids_def reclaim_request_def elim: sys_stepE)
  with stop_keeps [OF reclaim_asks(3) _ ok] reclaim_asks(2) show ?thesis by simp
next
  case (ticks n q ans)
  with tick_keeps [OF ok] show ?thesis by simp
next
  case (stops n)
  with stops_keeps [OF ok] show ?thesis by simp
qed

lemma watch_run_keeps:
  "process_run L G p as p' \<Longrightarrow> (\<And>q a. G q a \<Longrightarrow> ids_new L q a \<and> echoes a) \<Longrightarrow> watch_inv L p \<Longrightarrow> watch_inv L p'"
  by (induction rule: process_run.induct) (auto intro: watch_step)

section \<open>What the watchers have seen\<close>

fun finished :: "vpn_session_status option \<Rightarrow> bool" where
  \<comment> \<open>with a final status, or with an answer that did not decode\<close>
  "finished (Some st) = final_status st"
| "finished None = True"

definition watchers_sound :: "process \<Rightarrow> bool" where
  \<comment> \<open>what runs was started by the service, and what has ended has ended for a reason\<close>
  "watchers_sound p \<longleftrightarrow> (\<forall>x \<in> set (pr_watching p). (fst x, fst (snd x)) \<in> set (vs_spawned (pr_svc p)))
     \<and> (\<forall>x \<in> set (pr_ended p). finished (snd x))"

lemma stopped_finished:
  "wa_daemon_up a \<Longrightarrow> watch_ended a w = (Ok True, w') \<Longrightarrow> finished (w_last w')"
  by (auto simp: watch_ended_def watch_status_def Let_def split: res.splits if_splits)

lemma sound_sys [simp]: "watchers_sound (p\<lparr>pr_sys := s\<rparr>) = watchers_sound p"
  by (simp add: watchers_sound_def)

lemma sound_gone [simp]: "watchers_sound (without_services p)"
  by (simp add: watchers_sound_def without_services_def)

lemma sound_up [simp]: "watchers_sound (p\<lparr>pr_svc_up := b\<rparr>) = watchers_sound p"
  by (simp add: watchers_sound_def)

lemma sound_stop [simp]: "watchers_sound (p\<lparr>pr_svc := stop_watcher k (pr_svc p)\<rparr>) = watchers_sound p"
  by (simp add: watchers_sound_def)

lemma sound_stops: "watchers_sound p \<Longrightarrow> watchers_sound (p\<lparr>pr_watching := remove_at n (pr_watching p)\<rparr>)"
  using set_take_subset [of n "pr_watching p"] set_drop_subset [of "Suc n" "pr_watching p"]
  by (auto simp: watchers_sound_def remove_at_def)

lemma sound_takes: "watchers_sound p \<Longrightarrow> watchers_sound (service_takes c p)"
  by (cases c) (auto simp: watchers_sound_def)

lemma sound_accepts: "watchers_sound p \<Longrightarrow> watchers_sound (service_accepts v q p)"
  by (cases q) (auto simp: service_accepts_def [of v None] service_accepts_run watchers_sound_def
      service_dies_def spawned_start split: res.split)

lemma sound_tick:
  assumes ok: "watchers_sound p" and n: "n < length (pr_watching p)" and up: "wa_daemon_up a"
  shows "watchers_sound (watcher_ticks n a p)"
proof -
  obtain i q w where w: "pr_watching p ! n = (i, q, w)" by (cases "pr_watching p ! n")
  obtain r w' where t: "watch_ended a w = (r, w')" by fastforce
  have "(i, q) \<in> set (vs_spawned (pr_svc p))" using ok nth_mem [OF n] w by (force simp: watchers_sound_def)
  then have on: "watchers_sound (p\<lparr>pr_sys := s, pr_watching := (pr_watching p)[n := (i, q, w')]\<rparr>)" for s
    using ok set_update_subset_insert [of "pr_watching p" n "(i, q, w')"] by (fastforce simp: watchers_sound_def)
  have off: "watchers_sound (watcher_ends n why p)" if "finished why" for why
    using sound_stops [OF ok, of n] that by (auto simp: watcher_ends_def watchers_sound_def)
  have "watchers_sound (watcher_ends n why (p\<lparr>pr_sys := s\<rparr>))" if "finished why" for why s
    using off [OF that] by (simp add: watcher_ends_def watchers_sound_def)
  then show ?thesis
    using on stopped_finished [OF up, of w w'] t
    by (cases r) (auto simp: watcher_ticks_def w Let_def)
qed

lemma sound_step: "process_step L a p p' \<Longrightarrow> watchers_sound p \<Longrightarrow> watchers_sound p'"
  by (induction rule: process_step.induct)
    (auto simp: unless_gone_def started_def service_hears_def split: option.split
      intro: sound_takes sound_accepts sound_tick sound_stops)

lemma sound_run: "process_run L G p as p' \<Longrightarrow> watchers_sound p \<Longrightarrow> watchers_sound p'"
  by (induction rule: process_run.induct) (auto intro: sound_step)

lemma watched_by:
  assumes ok: "vs_ok (pr_svc p)" "attended p" "watchers_sound p" and k: "watcher_of (pr_svc p) k = Some i"
  shows "\<exists>q. req_request_id q = k \<and> (i, q) \<in> set (vs_spawned (pr_svc p))
     \<and> ((\<exists>w. (i, q, w) \<in> set (pr_watching p)) \<or> (\<exists>why. (i, why) \<in> set (pr_ended p) \<and> finished why))"
proof -
  from k have "(k, i) \<in> set (vs_watchers (pr_svc p))" unfolding watcher_of_def by (rule map_of_SomeD)
  then obtain q where q: "(i, q) \<in> set (vs_spawned (pr_svc p))" and r: "req_request_id q = k"
    using ok(1) by (auto simp: vs_ok_def)
  have "\<not> told_to_stop (pr_svc p) i" using running_watcher [OF ok(1) q] k r by simp
  moreover have "minded p i" using ok(2) q by (force simp: attended_def)
  ultimately consider (runs) x where "x \<in> set (pr_watching p)" "fst x = i"
    | (over) y where "y \<in> set (pr_ended p)" "fst y = i"
    by (auto simp: minded_def)
  then show ?thesis
  proof cases
    case runs
    with ok(3) have "(i, fst (snd x)) \<in> set (vs_spawned (pr_svc p))" by (auto simp: watchers_sound_def)
    with numbered_once [of "vs_spawned (pr_svc p)" i "fst (snd x)" q] ok(1) q have "fst (snd x) = q"
      by (simp add: vs_ok_def)
    with runs have "(i, q, snd (snd x)) \<in> set (pr_watching p)" by (metis prod.collapse)
    with q r show ?thesis by blast
  next
    case over
    with ok(3) have "(i, snd y) \<in> set (pr_ended p)" "finished (snd y)" by (auto simp: watchers_sound_def)
    with q r show ?thesis by blast
  qed
qed

section \<open>Properties\<close>

definition powered_off :: "db \<Rightarrow> process" where
  "powered_off d = without_services \<lparr>pr_sys = (boot (daemon_new d) None)\<lparr>sy_up := False\<rparr>,
     pr_svc = session_service_new, pr_svc_up = False, pr_watching = [], pr_ended = [], pr_connected = []\<rparr>"

lemma watch_inv_off: "uuid_ok L \<Longrightarrow> rows_ok L d \<Longrightarrow> watch_inv L (powered_off d)"
  by (simp add: powered_off_def watch_inv_def without_services_def busy_marked_def busy_ids_def ending_ids_def
      boot_def daemon_new_def)

abbreviation fair :: "lib \<Rightarrow> process \<Rightarrow> process_label \<Rightarrow> bool" where
  "fair L p a \<equiv> ids_new L p a \<and> echoes a"

text \<open>C3: the daemon does not lose sight of a session. In every run of the process, from any
  database and through crashes and restarts, while the session service is there: a live session
  that the server has accepted either has a client that has connected, or a watcher of its own,
  which runs, or has ended by itself, having brought a final status or met an answer that it could not
  decode. What is asked of the steps is that the server accepts a request under its own id, and
  that an id drawn is not that of a session just being ended.\<close>

theorem live_session_watched:
  assumes "process_run L (fair L) (powered_off d) as p" and "uuid_ok L" and "rows_ok L d"
    and "pr_svc_up p" and "r \<in> set (sessions_of (pr_sys p))" and "\<not> row_mark_for_deletion r"
    and "row_session_uuid r \<noteq> None"
  shows "\<exists>k. uuid_to_string L k = row_request_id r \<and> (k \<in> set (pr_connected p) \<or>
     (\<exists>i q. watcher_of (pr_svc p) k = Some i \<and> req_request_id q = k \<and> (i, q) \<in> set (vs_spawned (pr_svc p))
       \<and> ((\<exists>w. (i, q, w) \<in> set (pr_watching p)) \<or> (\<exists>why. (i, why) \<in> set (pr_ended p) \<and> finished why))))"
proof -
  have "watch_inv L p"
    using watch_run_keeps [OF assms(1) _ watch_inv_off [OF assms(2,3)]] by blast
  with assms(4) have ok: "vs_ok (pr_svc p)" "attended p" "live_within (watched_ids L p) (sessions_of (pr_sys p))"
    by (simp_all add: watch_inv_def)
  have sound: "watchers_sound p" by (rule sound_run [OF assms(1)]) (simp add: powered_off_def)
  obtain k where k: "uuid_to_string L k = row_request_id r"
    and "watcher_of (pr_svc p) k \<noteq> None \<or> k \<in> set (pr_connected p)"
    using ok(3) assms(5-7) by (auto simp: live_within_def watched_ids_def)
  then show ?thesis using watched_by [OF ok(1,2) sound, of k] by blast
qed

section \<open>A session that is watched\<close>

definition signed_in_db :: db where
  "signed_in_db = sample_db\<lparr>tokens := [\<lparr>tok_id = 0, tok_token = ''t''\<rparr>]\<rparr>"

definition sample_start :: "process_label list" where
  \<comment> \<open>the daemon starts, and a client connects\<close>
  "sample_start = [ComesUp sample_startup_world, Outside (ClientCalls (ConnectVpn (location_to_proto sample_location))),
     Handles sample_session_server sample_world]"

lemma signed_in_create:
  "create_daemon sample_lib (sample_startup_world\<lparr>su_running := False, su_db_connect := Ok signed_in_db\<rparr>)
     (startup_on signed_in_db) =
     (Ok (daemon_new signed_in_db), \<lparr>sup_db = signed_in_db, sup_token = Some ''t'',
        sup_parts = [DeviceServicePart, ControllerPart, SessionServicePart, ReclaimerPart, OfflineWatcherPart, TunnelPart]\<rparr>)"
  by (simp add: create_daemon_def sample_startup_world_def already_running_def db_new_def db_migrate_def
      prog_simps initialize_device_def device_init_some start_device_handler_def device_service_new_run
      get_token_run reclaim_run start_part_def sample_host_def comp_def signed_in_db_def startup_on_def)
    (simp add: sample_db_def empty_db_def)

lemma sample_accepts: "pr_svc_up (service_accepts sample_session_server q p) = pr_svc_up p"
  by (cases q) (auto simp: service_accepts_def [of _ None] service_accepts_run on_new_session_inner_def
      sample_session_server_def split: res.split)

lemma sample_answer: "new_session_answer True sample_session_server = dmw_new_session sample_world"
  by (rule ext) (simp add: new_session_answer_def received_def on_new_session_inner_def sample_session_server_def)

lemma signed_in_connect:
  "handle_event sample_lib (sample_world, EvCommand (CmdConnect sample_location)) (daemon_new signed_in_db) =
     (Ok (), (daemon_new signed_in_db)\<lparr>dm_tasks := [TaskAddRecent sample_location],
        dm_state := accepted_at sample_location ds_new, dm_db := signed_in_db\<lparr>vpn_sessions := [sample_live]\<rparr>,
        dm_replies := [StatusReply (Ok (VpnAccepted sample_location))]\<rparr>)"
proof -
  have db: "reliable signed_in_db" "vpn_sessions signed_in_db = []" "devices signed_in_db = devices sample_db"
    by (simp_all add: signed_in_db_def)
  have "store_ok sample_lib signed_in_db"
    using sample_store_ok by (simp add: store_ok_def rows_ok_def signed_in_db_def device_ok_def)
  then have "dm_ok sample_lib (daemon_new signed_in_db)" by (simp add: dm_ok_def dm_inv_def daemon_new_def)
  from connect_accepted_run [OF this, of sample_world 1 sample_location "\<lparr>acc_request_id = 5, acc_vpn_session_uuid = 9\<rparr>"]
  show ?thesis
    using db by (simp add: daemon_new_def fresh_for_def session_request_def sample_live_def
        unique_id_run [OF _ _ sample_converts] sample_details_def)
qed

lemma sample_start_runs:
  "\<exists>p. process_run sample_lib (fair sample_lib) (powered_off signed_in_db) sample_start p
     \<and> pr_svc_up p \<and> sessions_of (pr_sys p) = [sample_live]"
proof -
  let ?off = "powered_off signed_in_db"
  define s1 where "s1 = boot (daemon_new signed_in_db) (Some ''t'')"
  define s2 where "s2 = post (EvCommand (CmdConnect sample_location)) s1"
  obtain dm where dm: "handle_event sample_lib (sample_world, EvCommand (CmdConnect sample_location)) (daemon_new signed_in_db) = (Ok (), dm)"
    and rows: "vpn_sessions (dm_db dm) = [sample_live]"
    using signed_in_connect by fastforce
  define s3 where "s3 = s2\<lparr>sy_mailbox := [], sy_daemon := dm, sy_up := True\<rparr>"
  have "restarted sample_lib sample_startup_world (pr_sys ?off) = s1"
    using signed_in_create by (simp add: restarted_def powered_off_def without_services_def boot_def s1_def daemon_new_def)
  then have 1: "sys_step sample_lib (Restarts sample_startup_world) (pr_sys ?off) s1"
    using restarts [of "pr_sys ?off" sample_lib sample_startup_world]
    by (simp add: powered_off_def without_services_def)
  have 2: "sys_step sample_lib (ClientCalls (ConnectVpn (location_to_proto sample_location))) s1 s2"
    unfolding s2_def by (rule client_calls) (simp_all add: s1_def boot_def auth_call_def)
  have mail: "sy_mailbox s2 = [EvCommand (CmdConnect sample_location)]" "sy_daemon s2 = daemon_new signed_in_db" "sy_up s2"
    by (simp_all add: s2_def s1_def boot_def post_def)
  have same: "sample_world\<lparr>dmw_new_session := new_session_answer True sample_session_server\<rparr> = sample_world"
    by (simp add: sample_answer)
  from daemon_handles [OF mail(3,1), of sample_lib sample_world] dm mail(2,3)
  have 3: "sys_step sample_lib (DaemonHandles sample_world) s2 s3" by (simp add: s3_def)
  define p1 where "p1 = started (?off\<lparr>pr_sys := s1\<rparr>)"
  define p2 where "p2 = p1\<lparr>pr_sys := s2\<rparr>"
  have up: "pr_svc_up p1" "pr_sys p1 = s1" "pr_svc_up p2" "pr_sys p2 = s2"
    by (simp_all add: p1_def p2_def started_def s1_def boot_def)
  define p3 where "p3 = unless_gone ((service_accepts sample_session_server (connect_asks sample_lib sample_world
      (EvCommand (CmdConnect sample_location)) (sy_daemon (pr_sys p2))) p2)\<lparr>pr_sys := s3\<rparr>)"
  have "process_step sample_lib (ComesUp sample_startup_world) ?off p1"
    unfolding p1_def by (rule comes_up [OF 1])
  moreover have "process_step sample_lib (Outside (ClientCalls (ConnectVpn (location_to_proto sample_location)))) p1 p2"
    unfolding p2_def by (rule from_outside) (simp_all add: up 2)
  moreover have "process_step sample_lib (Handles sample_session_server sample_world) p2 p3"
    unfolding p3_def by (rule handles) (simp_all add: up mail same 3)
  moreover have "fair sample_lib ?off (ComesUp sample_startup_world)"
    "fair sample_lib p1 (Outside (ClientCalls (ConnectVpn (location_to_proto sample_location))))"
    by (simp_all add: ids_new_def echoes_def)
  moreover have "fair sample_lib p2 (Handles sample_session_server sample_world)"
    by (auto simp: ids_new_def echoes_def up busy_ids_def mail ending_ids_def on_new_session_inner_def
        sample_session_server_def) (simp_all add: daemon_new_def s2_def s1_def boot_def post_def)
  moreover have "sy_up s3" using mail by (simp add: s3_def)
  then have "pr_svc_up p3 \<and> sessions_of (pr_sys p3) = [sample_live]"
    using up rows by (simp add: p3_def unless_gone_def sample_accepts s3_def)
  ultimately show ?thesis unfolding sample_start_def by (blast intro: run_step run_nothing)
qed

theorem live_session_watched_witness:
  "\<exists>p k. process_run sample_lib (fair sample_lib) (powered_off signed_in_db) sample_start p
     \<and> sample_live \<in> set (sessions_of (pr_sys p)) \<and> uuid_to_string sample_lib k = row_request_id sample_live
     \<and> (k \<in> set (pr_connected p) \<or> watcher_of (pr_svc p) k \<noteq> None)"
proof -
  obtain p where run: "process_run sample_lib (fair sample_lib) (powered_off signed_in_db) sample_start p"
    and up: "pr_svc_up p" and rows: "sessions_of (pr_sys p) = [sample_live]"
    using sample_start_runs by blast
  have live: "sample_live \<in> set (sessions_of (pr_sys p))" using rows by simp
  have "rows_ok sample_lib signed_in_db" by (simp add: rows_ok_def signed_in_db_def)
  moreover have "\<not> row_mark_for_deletion sample_live" "row_session_uuid sample_live \<noteq> None" by simp_all
  ultimately obtain k where "uuid_to_string sample_lib k = row_request_id sample_live"
    and "k \<in> set (pr_connected p) \<or> watcher_of (pr_svc p) k \<noteq> None"
    using live_session_watched [OF run _ _ up live] by auto
  with run live show ?thesis by blast
qed

end
