(* ===== verification/Progress.thy ===== *)
theory Progress
  imports Process
begin

text \<open>
  What the process can always do about the sessions that are over: a round of the reclaimer that
  reaches the server removes every one of them that the server ever knew.
\<close>

definition reaches :: "session_server \<Rightarrow> bool" where
  \<comment> \<open>every request to end a session is answered by the server, whatever the answer\<close>
  "reaches v \<longleftrightarrow> (\<forall>e. settled (on_end_session_inner v e))"

lemma reaches_answer: "reaches v \<Longrightarrow> settled (end_session_answer True v e)"
proof -
  assume "reaches v"
  then have "settled (on_end_session_inner v e)" by (simp add: reaches_def)
  then show ?thesis by (cases "on_end_session_inner v e") (simp_all add: end_session_answer_def received_def settled_def)
qed

lemma settled_calm: "settled r \<Longrightarrow> \<not> is_panic r"
  by (cases r) (simp_all add: settled_def)

lemma asks_each:
  assumes v: "reaches v" and "sy_up (pr_sys p)" and "pr_svc_up p"
    and "sy_reclaiming (pr_sys p) = map (Pair dev) is" and "reliable (dm_db (sy_daemon (pr_sys p)))"
  shows "\<exists>p'. process_run L anything p (map (\<lambda>i. ReclaimAsks v (reclaim_request dev i)) is) p'
     \<and> sy_reclaiming (pr_sys p') = [] \<and> sy_up (pr_sys p')
     \<and> sessions_of (pr_sys p') =
         filter (\<lambda>r. \<not> (\<exists>i \<in> set is. has_id (uuid_to_string L (si_request_id i)) r)) (sessions_of (pr_sys p))"
  using assms(2-5)
proof (induction "is" arbitrary: p)
  case Nil
  then show ?case by (intro exI [of _ p]) (simp add: run_nothing)
next
  case (Cons i js)
  let ?e = "reclaim_request dev i" and ?s = "pr_sys p"
  let ?gone = "vpn_sessions_update (filter (\<lambda>r. \<not> has_id (uuid_to_string L (si_request_id i)) r))"
  let ?a = "end_session_answer True v ?e"
  let ?t = "?s\<lparr>sy_daemon := (sy_daemon ?s)\<lparr>dm_db := ?gone (dm_db (sy_daemon ?s))\<rparr>\<rparr>"
  have settled: "settled ?a" by (rule reaches_answer [OF v])
  then have "answers_calm (\<lambda>_. ?a)" by (simp add: answers_calm_def settled_calm)
  from reclaim_session_run [OF Cons.prems(4) this, of L dev i] settled
  have run: "in_db (reclaim_session L (\<lambda>_. ?a) dev i) ?s = (Ok (), ?t)" by (simp add: zoom_def)
  have "sys_step L (ReclaimerAnswered ?e ?a) ?s (?t\<lparr>sy_reclaiming := map (Pair dev) js\<rparr>)"
    by (rule reclaimer_answered [OF _ _ refl run]) (use Cons.prems in simp_all)
  then have step: "process_step L (ReclaimAsks v ?e) p
      ((service_takes (EndSessionCmd ?e) p)\<lparr>pr_sys := ?t\<lparr>sy_reclaiming := map (Pair dev) js\<rparr>\<rparr>)"
    by (intro reclaim_asks) (simp add: Cons.prems(2))
  let ?p = "(service_takes (EndSessionCmd ?e) p)\<lparr>pr_sys := ?t\<lparr>sy_reclaiming := map (Pair dev) js\<rparr>\<rparr>"
  have "sy_up (pr_sys ?p)" "pr_svc_up ?p" "sy_reclaiming (pr_sys ?p) = map (Pair dev) js"
    "reliable (dm_db (sy_daemon (pr_sys ?p)))"
    using Cons.prems by simp_all
  from Cons.IH [OF this] obtain p' where rest: "process_run L anything ?p (map (\<lambda>i. ReclaimAsks v (reclaim_request dev i)) js) p'"
    and p': "sy_reclaiming (pr_sys p') = []" "sy_up (pr_sys p')"
    and rows: "sessions_of (pr_sys p') =
         filter (\<lambda>r. \<not> (\<exists>i \<in> set js. has_id (uuid_to_string L (si_request_id i)) r)) (sessions_of (pr_sys ?p))"
    by blast
  have "sessions_of (pr_sys p') =
      filter (\<lambda>r. \<not> (\<exists>i \<in> set (i # js). has_id (uuid_to_string L (si_request_id i)) r)) (sessions_of ?s)"
  proof -
    have "sessions_of (pr_sys ?p) = filter (\<lambda>r. \<not> has_id (uuid_to_string L (si_request_id i)) r) (sessions_of ?s)" by simp
    then show ?thesis unfolding rows by (auto intro!: filter_cong)
  qed
  with run_step [OF TrueI step rest] p' show ?case by (intro exI [of _ p']) simp
qed

lemma reclaimed_iff:
  "row_ok L r \<Longrightarrow> reaches v \<Longrightarrow> reclaimed L (end_session_answer True v) dev r \<longleftrightarrow>
     row_mark_for_deletion r \<and> row_session_uuid r \<noteq> None"
  using reaches_answer [of v]
  by (auto simp: reclaimed_def reclaimable_def row_ok_def elim: canonical_idE split: option.splits)

lemma round_clears:
  assumes v: "reaches v" and up: "sy_up (pr_sys p)" "pr_svc_up p" and idle: "sy_reclaiming (pr_sys p) = []"
    and d: "d = dm_db (sy_daemon (pr_sys p))" "reliable d" "rows_ok L d" "get_device L d = (Ok (Some dd), d)"
  shows "\<exists>is p'. process_run L anything p (Outside ReclaimerStarts
       # map (\<lambda>i. ReclaimAsks v (reclaim_request (dd_unique_id dd) i)) is) p'
     \<and> sy_reclaiming (pr_sys p') = [] \<and> sy_up (pr_sys p')
     \<and> sessions_of (pr_sys p') =
         filter (\<lambda>r. \<not> (row_mark_for_deletion r \<and> row_session_uuid r \<noteq> None)) (sessions_of (pr_sys p))"
proof -
  let ?s = "pr_sys p" and ?a = "end_session_answer True v" and ?dev = "dd_unique_id dd"
  define ks where "ks = map (\<lambda>r. the (row_info L r)) (filter (reclaimable L) (filter row_mark_for_deletion (vpn_sessions d)))"
  have "start_reclaim L d = (Ok (map (Pair ?dev) ks), d)"
    using d(2,4) by (simp add: start_reclaim_def prog_simps ks_def)
  then have "in_db (start_reclaim L) ?s = (Ok (map (Pair ?dev) ks), ?s)" by (simp add: zoom_def d(1))
  from reclaimer_starts [OF up(1) idle this]
  have "sys_step L ReclaimerStarts ?s (?s\<lparr>sy_reclaiming := map (Pair ?dev) ks\<rparr>)" by simp
  then have step: "process_step L (Outside ReclaimerStarts) p (p\<lparr>pr_sys := ?s\<lparr>sy_reclaiming := map (Pair ?dev) ks\<rparr>\<rparr>)"
    by (intro from_outside) simp
  have calm: "answers_calm ?a"
    using reaches_answer [OF v] settled_calm by (simp add: answers_calm_def)
  obtain p' where run: "process_run L anything (p\<lparr>pr_sys := ?s\<lparr>sy_reclaiming := map (Pair ?dev) ks\<rparr>\<rparr>)
      (map (\<lambda>i. ReclaimAsks v (reclaim_request ?dev i)) ks) p'"
    and p': "sy_reclaiming (pr_sys p') = []" "sy_up (pr_sys p')"
    and rows: "sessions_of (pr_sys p') =
      filter (\<lambda>r. \<not> (\<exists>i \<in> set ks. has_id (uuid_to_string L (si_request_id i)) r)) (vpn_sessions d)"
    using asks_each [OF v, of "p\<lparr>pr_sys := ?s\<lparr>sy_reclaiming := map (Pair ?dev) ks\<rparr>\<rparr>" ?dev ks L] up d(1,2) by auto
  have "reclaim L ?a d = reclaim_each L ?a ?dev ks d"
    using d(2,4) by (simp add: reclaim_def prog_simps ks_def)
  then have "vpn_sessions_update (filter (\<lambda>r. \<not> (\<exists>i \<in> set ks. settled (?a (reclaim_request ?dev i))
        \<and> has_id (uuid_to_string L (si_request_id i)) r))) d
      = vpn_sessions_update (filter (\<lambda>r. \<not> reclaimed L ?a ?dev r)) d"
    using reclaim_each_run [OF d(2) calm, of L ?dev ks] reclaim_round_run [OF d(2,3) calm d(4)] by simp
  from arg_cong [OF this, of vpn_sessions] reaches_answer [OF v]
  have "sessions_of (pr_sys p') = filter (\<lambda>r. \<not> reclaimed L ?a ?dev r) (vpn_sessions d)" by (simp add: rows)
  also have "\<dots> = filter (\<lambda>r. \<not> (row_mark_for_deletion r \<and> row_session_uuid r \<noteq> None)) (vpn_sessions d)"
    using d(3) by (intro filter_cong) (auto simp: rows_ok_def reclaimed_iff [OF _ v])
  finally show ?thesis using run_step [OF TrueI step run] p' d(1) by blast
qed

section \<open>Properties\<close>

text \<open>C5: what is over can be cleared away. From every state of the process in which a device is stored,
  the session service runs, no statement of the database fails, the session rows are readable and
  no round is under way, the reclaimer alone, if each of its requests is answered by the server,
  comes to a state without any marked session that the server had accepted: whatever the answers
  are, the round ends, and it removes these and nothing else. (Without a device no round asks for
  anything, see Sign\_Out. A marked session whose request was cut off before the server's id was
  known stays: no round asks for it.)\<close>

theorem marked_sessions_can_go:
  assumes "reaches v" and "sy_up (pr_sys p)" and "pr_svc_up p" and "sy_reclaiming (pr_sys p) = []"
    and "d = dm_db (sy_daemon (pr_sys p))" and "reliable d" and "rows_ok L d" and "get_device L d = (Ok (Some dd), d)"
  shows "\<exists>is p'. process_run L anything p (Outside ReclaimerStarts
       # map (\<lambda>i. ReclaimAsks v (reclaim_request (dd_unique_id dd) i)) is) p'
     \<and> sy_reclaiming (pr_sys p') = [] \<and> sy_up (pr_sys p')
     \<and> sessions_of (pr_sys p') =
         filter (\<lambda>r. \<not> (row_mark_for_deletion r \<and> row_session_uuid r \<noteq> None)) (sessions_of (pr_sys p))"
  using assms by (rule round_clears)

theorem marked_sessions_can_go_witness:
  "\<exists>as p'. process_run sample_lib anything sample_served (Outside ReclaimerStarts # as) p'
     \<and> sessions_of (pr_sys sample_served) = [mark_row sample_live] \<and> sessions_of (pr_sys p') = []"
proof -
  have gone: "on_end_session_inner gone_server e = Err (VpnServerError \<lparr>st_code = NotFound, st_message = []\<rparr>)" for e
    by (simp add: on_end_session_inner_def end_once_def gone_server_def)
  have v: "reaches gone_server" by (simp add: reaches_def settled_def gone)
  have p: "sy_up (pr_sys sample_served)" "pr_svc_up sample_served" "sy_reclaiming (pr_sys sample_served) = []"
    "marked_db = dm_db (sy_daemon (pr_sys sample_served))"
    by (simp_all add: sample_served_def boot_def)
  have d: "reliable marked_db" "rows_ok sample_lib marked_db"
    "get_device sample_lib marked_db = (Ok (Some sample_details), marked_db)"
    by (simp_all add: marked_db_def rows_ok_def row_ok_def mark_row_def get_device_run)
  have rows: "sessions_of (pr_sys sample_served) = [mark_row sample_live]"
    by (simp add: sample_served_def boot_def marked_db_def)
  from marked_sessions_can_go [OF v p d] rows show ?thesis by (simp add: mark_row_def) blast
qed

end
