(* ===== verification/End_To_End.thy ===== *)
theory End_To_End
  imports Daemon Controller Session_Service Server_Api
begin

text \<open>
  The parts put together along one request: a client's \<open>ConnectVpn\<close> through the conversions of the
  controller, the daemon, the session service and the client of the server, and its answer back.
\<close>

section \<open>A connect, from the client to the server and back\<close>

lemma api_accepts:
  assumes "uuid_ok L" and "wire_ok L W"
    and "ws_new_vpn_session W h (new_session_to_proto L ns) = Ok a"
    and "uuid_parse_str L (pi_vpn_session_uuid a) = Some u"
  shows "api_new_session L W h ns = Ok \<lparr>acc_request_id = ns_request_id ns, acc_vpn_session_uuid = u\<rparr>"
proof -
  have "pi_request_id a = uuid_to_string L (ns_request_id ns)"
    using assms(2,3) unfolding wire_ok_def by (metis new_session_to_proto_def proto_new_session.select_convs(1))
  then show ?thesis
    using assms by (simp add: api_new_session_def accepted_from_proto_def parse_uuid_def)
qed

lemma service_accepts:
  assumes "vs_ok svc" and "on_new_session_inner v ns = Ok a"
  shows "\<exists>svc'. handle_session_command (v, NewSessionCmd ns) svc = (Ok (), svc')
     \<and> watcher_of svc' (ns_request_id ns) = Some (length (vs_spawned svc))
     \<and> vs_spawned svc' = vs_spawned svc @ [(length (vs_spawned svc),
          \<lparr>req_request_id = ns_request_id ns, req_device_unique_id = ns_device_unique_id ns,
           req_vpn_session_uuid = acc_vpn_session_uuid a\<rparr>)]"
  using assms
  by (simp add: on_new_session_def prog_simps watcher_of_start)
    (simp add: start_watcher_def insert_watcher_def reply_def Let_def)

text \<open>C4: a connect that the server accepts, from end to end. The client's request carries the
  location it chose; the session service sends the server a request under the id the daemon drew,
  and starts a watcher that asks for the session the server named; the daemon files a live row for
  exactly that session; and the client reads back that its request was accepted, with its location.
  What is assumed of the server is said of its messages.\<close>

theorem connect_end_to_end:
  assumes "dm_good L s" and "status_of s = VpnDisconnected" and "fresh_for L w s" and "vs_ok svc"
    and "get_device_unique_id L (dm_db s) = (Ok dev, dm_db s)"
    and "v = session_server_of L W h (Ok ()) cs" and "dmw_new_session w = on_new_session_inner v"
    and "wire_ok L W" and "ns = session_request w dev l"
    and "ws_new_vpn_session W h (new_session_to_proto L ns) = Ok a"
    and "uuid_parse_str L (pi_vpn_session_uuid a) = Some u"
  shows "\<exists>c s' svc' r row p i.
     command_of_request (ConnectVpn (location_to_proto l)) = Some c
   \<and> handle_event L (w, EvCommand c) s = (Ok (), s')
   \<and> handle_session_command (v, NewSessionCmd ns) svc = (Ok (), svc')
   \<and> vpn_sessions (dm_db s') = vpn_sessions (dm_db s) @ [row] \<and> \<not> row_mark_for_deletion row
   \<and> row_info L row = Some \<lparr>si_request_id = dmw_uuid w, si_vpn_session_id = u\<rparr>
   \<and> watcher_of svc' (dmw_uuid w) = Some i
   \<and> (i, \<lparr>req_request_id = dmw_uuid w, req_device_unique_id = dev, req_vpn_session_uuid = u\<rparr>) \<in> set (vs_spawned svc')
   \<and> dm_replies s' = dm_replies s @ [StatusReply r] \<and> connect_vpn L (Answered r) = Ok p
   \<and> vpn_status_from_proto L p = (Ok (VpnAccepted l) :: (vpn_status, unit) res)"
proof -
  have U: "uuid_ok L" using dm_goodD [OF assms(1)] by (simp add: lib_uuid)
  let ?a = "\<lparr>acc_request_id = dmw_uuid w, acc_vpn_session_uuid = u\<rparr>"
  have "api_new_session L W h ns = Ok ?a"
    using api_accepts [OF U assms(8,10,11)] assms(9) by (simp add: session_request_def)
  then have inner: "on_new_session_inner v ns = Ok ?a"
    using assms(6) by (simp add: on_new_session_inner_def session_server_of_def)
  obtain svc' where svc: "handle_session_command (v, NewSessionCmd ns) svc = (Ok (), svc')"
    and w1: "watcher_of svc' (dmw_uuid w) = Some (length (vs_spawned svc))"
    and w2: "(length (vs_spawned svc), \<lparr>req_request_id = dmw_uuid w, req_device_unique_id = dev,
       req_vpn_session_uuid = u\<rparr>) \<in> set (vs_spawned svc')"
    using service_accepts [OF assms(4) inner] assms(9) by (auto simp: session_request_def)
  have "row_info L (accepted_row L w l ?a) = Some \<lparr>si_request_id = dmw_uuid w, si_vpn_session_id = u\<rparr>"
    using U by (simp add: row_info_def accepted_row_def)
  moreover have "handle_event L (w, EvCommand (CmdConnect l)) s =
     (Ok (), s\<lparr>dm_tasks := dm_tasks s @ [TaskAddRecent l], dm_state := accepted_at l (dm_state s),
        dm_db := (dm_db s)\<lparr>vpn_sessions := vpn_sessions (dm_db s) @ [accepted_row L w l ?a]\<rparr>,
        dm_replies := dm_replies s @ [StatusReply (Ok (VpnAccepted l))]\<rparr>)"
    using dm_goodD [OF assms(1)] assms inner by (simp add: connect_accepted_run)
  moreover have "connect_vpn L (Answered (Ok (VpnAccepted l))) = Ok (vpn_status_to_proto L (VpnAccepted l))"
    by (simp add: connect_vpn_def call_daemon_def send_command_to_daemon_def wait_for_result_def)
  moreover have "vpn_status_from_proto L (vpn_status_to_proto L (VpnAccepted l))
      = (Ok (VpnAccepted l) :: (vpn_status, unit) res)"
    by (simp add: vpn_status_from_proto_def with_location_def)
  moreover have "\<not> row_mark_for_deletion (accepted_row L w l ?a)"
    by (simp add: accepted_row_def session_row_of_def)
  ultimately show ?thesis using svc w1 w2 by fastforce
qed

definition careful_wire :: wire_server where
  \<comment> \<open>a server that keeps to the protocol and accepts every request it can read, under the id 9\<close>
  "careful_wire = sample_wire\<lparr>
     ws_new_vpn_session := (\<lambda>h p. if uuid_parse_str sample_lib (pns_request_id p) = None
       then Err \<lparr>st_code = InvalidArgument, st_message = []\<rparr>
       else Ok \<lparr>pi_request_id = pns_request_id p, pi_vpn_session_uuid = uuid_to_string sample_lib 9\<rparr>),
     ws_get_status := (\<lambda>h q. Err \<lparr>st_code = NotFound, st_message = []\<rparr>)\<rparr>"

lemma careful_wire_ok: "wire_ok sample_lib careful_wire"
  by (simp add: wire_ok_def careful_wire_def sample_wire_def ids_ok_def ids_parse_def token_safe_def)
    (simp add: sample_lib_def)

definition wired_server :: session_server where
  "wired_server = session_server_of sample_lib careful_wire None (Ok ()) []"

definition wired_world :: daemon_world where
  "wired_world = sample_world\<lparr>dmw_new_session := on_new_session_inner wired_server\<rparr>"

theorem connect_end_to_end_witness:
  "\<exists>s' svc'. handle_event sample_lib (wired_world, EvCommand (CmdConnect sample_location)) sample_daemon = (Ok (), s')
     \<and> handle_session_command (wired_server, NewSessionCmd (session_request wired_world 1 sample_location))
         session_service_new = (Ok (), svc')
     \<and> watcher_of svc' 5 \<noteq> None"
proof -
  let ?ns = "session_request wired_world 1 sample_location"
  have ids: "dmw_uuid wired_world = 5" by (simp add: wired_world_def)
  have answer: "ws_new_vpn_session careful_wire None (new_session_to_proto sample_lib ?ns)
      = Ok \<lparr>pi_request_id = uuid_to_string sample_lib 5, pi_vpn_session_uuid = uuid_to_string sample_lib 9\<rparr>"
    by (simp add: careful_wire_def new_session_to_proto_def session_request_def ids)
  from connect_end_to_end [OF sample_daemon_good _ _ vs_ok_new _ wired_server_def _ careful_wire_ok refl answer, of 9] ids
  show ?thesis by (auto simp: fresh_for_def wired_world_def)
qed

end
