(* ===== verification/System_Service.thy ===== *)
theory System_Service
  imports Lifecycle
begin

text \<open>
  modvpn-daemon/src/system\_service.rs: the daemon as a Windows service. The main thread reports the
  states of the service, a handler called by the service manager passes controls on through a
  channel, and a monitor thread turns the ones that stop the service into the daemon's shutdown.
  The two threads share the counter of checkpoints. The answers of Windows and of the daemon are
  arguments; the order in which the threads run is the order of a list of steps.
\<close>

section \<open>States, controls and reports\<close>

datatype service_state =
    SvcStopped | SvcStartPending | SvcStopPending | SvcRunning | SvcContinuePending
  | SvcPausePending | SvcPaused

datatype accepted_control = AcceptPowerEvent | AcceptSessionChange | AcceptStop | AcceptPreshutdown

datatype service_control =
    ControlInterrogate | ControlStop | ControlPreshutdown | ControlPowerEvent
  | ControlSessionChange | ControlOther

datatype control_result = ControlNoError | ControlNotImplemented

datatype service_exit = Win32Exit "32 word" | ServiceSpecific "32 word"

definition exit_default :: service_exit where
  "exit_default = Win32Exit 0"

record service_status =
  svs_state :: service_state
  svs_controls :: "accepted_control list"
  svs_exit :: service_exit
  svs_checkpoint :: "32 word"
  svs_wait_hint :: nat  \<comment> \<open>seconds\<close>

fun accepted_controls_by_state :: "service_state \<Rightarrow> accepted_control list" where
  "accepted_controls_by_state SvcStartPending = []"
| "accepted_controls_by_state SvcPausePending = []"
| "accepted_controls_by_state SvcContinuePending = []"
| "accepted_controls_by_state SvcRunning =
     [AcceptPowerEvent, AcceptSessionChange, AcceptStop, AcceptPreshutdown]"
| "accepted_controls_by_state SvcPaused =
     [AcceptPowerEvent, AcceptSessionChange, AcceptStop, AcceptPreshutdown]"
| "accepted_controls_by_state SvcStopPending = []"
| "accepted_controls_by_state SvcStopped = []"

fun is_pending :: "service_state \<Rightarrow> bool" where
  "is_pending SvcStartPending = True"
| "is_pending SvcStopPending = True"
| "is_pending SvcContinuePending = True"
| "is_pending SvcPausePending = True"
| "is_pending SvcStopped = False"
| "is_pending SvcRunning = False"
| "is_pending SvcPaused = False"

record service =
  sv_counter :: "64 word"  \<comment> \<open>\<open>checkpoint\_counter\<close>, an \<open>AtomicUsize\<close>\<close>
  sv_reported :: "service_status list"
  sv_controls :: "service_control list"  \<comment> \<open>the channel to the monitor\<close>
  sv_receiving :: bool  \<comment> \<open>the other end of that channel is not dropped\<close>
  sv_queued :: nat  \<comment> \<open>values in the channel to the daemon's signal handler\<close>
  sv_listening :: bool  \<comment> \<open>the signal handler has not dropped its end of that channel\<close>
  sv_told :: bool  \<comment> \<open>the signal handler has notified the daemon\<close>

definition persistent_service_status_new :: service where
  "persistent_service_status_new = \<lparr>sv_counter = 1, sv_reported = [], sv_controls = [], sv_receiving = True,
     sv_queued = 0, sv_listening = True, sv_told = False\<rparr>"

text \<open>What Windows says to a report.\<close>

type_synonym scm = "service_status \<Rightarrow> (unit, string) res"

definition report_status ::
    "scm \<Rightarrow> service_state \<Rightarrow> nat \<Rightarrow> service_exit \<Rightarrow> (service, unit, string) prog" where
  "report_status M nxt hint code = (\<lambda>s.
     let checkpoint = (if is_pending nxt then sv_counter s else 0);
         st = \<lparr>svs_state = nxt, svs_controls = accepted_controls_by_state nxt, svs_exit = code,
               svs_checkpoint = ucast checkpoint, svs_wait_hint = hint\<rparr>
     in (M st, s\<lparr>sv_counter := (if is_pending nxt then sv_counter s + 1 else sv_counter s),
           sv_reported := sv_reported s @ [st]\<rparr>))"

definition set_pending_start :: "scm \<Rightarrow> nat \<Rightarrow> (service, unit, string) prog" where
  "set_pending_start M hint = report_status M SvcStartPending hint exit_default"

definition set_running :: "scm \<Rightarrow> (service, unit, string) prog" where
  "set_running M = report_status M SvcRunning 0 exit_default"

definition set_pending_stop :: "scm \<Rightarrow> nat \<Rightarrow> (service, unit, string) prog" where
  "set_pending_stop M hint = report_status M SvcStopPending hint exit_default"

definition set_stopped :: "scm \<Rightarrow> service_exit \<Rightarrow> (service, unit, string) prog" where
  "set_stopped M code = report_status M SvcStopped 0 code"

definition unwrapped :: "('s, 'a, 'e) prog \<Rightarrow> ('s, 'a, 'f) prog" where
  \<comment> \<open>\<open>.unwrap()\<close> of the outcome\<close>
  "unwrapped p = expect ''called `Result::unwrap()` on an `Err` value'' p"

section \<open>The handler and the monitor\<close>

fun service_event_handler :: "service_control \<Rightarrow> (service, control_result, 'e) prog" where
  "service_event_handler ControlInterrogate = ret ControlNoError"
| "service_event_handler ControlOther = ret ControlNotImplemented"
| "service_event_handler c = (\<lambda>s.
     if sv_receiving s then (Ok ControlNoError, s\<lparr>sv_controls := sv_controls s @ [c]\<rparr>)
     else (Panic ''called `Result::unwrap()` on an `Err` value'', s))"

definition service_shutdown :: "scm \<Rightarrow> bool \<Rightarrow> (service, unit, 'e) prog" where
  \<comment> \<open>\<open>ServiceShutdownHandle::shutdown\<close>; the argument, and a value that cannot be sent, are only logged\<close>
  "service_shutdown M is_system_shutdown =
     and_then (unwrapped (set_pending_stop M 10)) (\<lambda>_.
       writes (\<lambda>s. if sv_listening s then s\<lparr>sv_queued := Suc (sv_queued s)\<rparr> else s))"

definition monitor_control :: "scm \<Rightarrow> service_control \<Rightarrow> (service, unit, 'e) prog" where
  \<comment> \<open>the body of the monitor's loop\<close>
  "monitor_control M c =
     (if c = ControlStop \<or> c = ControlPreshutdown then service_shutdown M (c = ControlPreshutdown)
      else ret ())"

definition monitor_step :: "scm \<Rightarrow> (service, unit, 'e) prog" where
  \<comment> \<open>one turn of the loop; a panic ends the thread and drops its end of the channel\<close>
  "monitor_step M s =
     (case sv_controls s of
        [] \<Rightarrow> (Ok (), s)
      | c # cs \<Rightarrow>
          if sv_receiving s
          then let (r, s') = monitor_control M c (s\<lparr>sv_controls := cs\<rparr>) in
            (r, s'\<lparr>sv_receiving := \<not> is_panic r\<rparr>)
          else (Ok (), s))"

definition signal_handler_step :: "service \<Rightarrow> service" where
  \<comment> \<open>the branch \<open>terminate\<close> of \<open>register\_signal\_handler\_windows\<close> (shutdown.rs): one value is read, the
    daemon is notified, and the receiver is dropped with whatever else is in the channel\<close>
  "signal_handler_step s =
     (if sv_listening s \<and> sv_queued s > 0
      then s\<lparr>sv_queued := 0, sv_listening := False, sv_told := True\<rparr> else s)"

section \<open>The service\<close>

text \<open>
  While the daemon starts and runs the manager may send controls, and the monitor and the signal
  handler may run; these are the steps between the reports of the main thread. A panic in one of them does
  not reach it.
\<close>

datatype service_step = ManagerSends service_control | MonitorRuns | SignalHandlerRuns

fun run_service_step :: "scm \<Rightarrow> service_step \<Rightarrow> service \<Rightarrow> service" where
  "run_service_step M (ManagerSends c) s = snd (service_event_handler c s :: (control_result, unit) res \<times> service)"
| "run_service_step M MonitorRuns s = snd (monitor_step M s :: (unit, unit) res \<times> service)"
| "run_service_step M SignalHandlerRuns s = signal_handler_step s"

definition service_steps :: "scm \<Rightarrow> service_step list \<Rightarrow> (service, unit, 'e) prog" where
  "service_steps M xs = writes (fold (run_service_step M) xs)"

record service_world =
  svw_register :: "(unit, string) res"
  svw_runtime :: "(unit, string) res"
  svw_daemon :: "(unit, string) res"  \<comment> \<open>the outcome of \<open>create\_daemon\<close>\<close>
  svw_before :: "service_control list"  \<comment> \<open>controls sent while the daemon starts\<close>
  svw_during :: "service_step list"  \<comment> \<open>between the start of the monitor and \<open>set\_running\<close>\<close>
  svw_after :: "service_step list"  \<comment> \<open>until the daemon has stopped\<close>

definition handle_service_main :: "scm \<Rightarrow> service_world \<Rightarrow> (service, unit, string) prog" where
  "handle_service_main M w =
     (case svw_register w of
        Err e \<Rightarrow> ret ()
      | Panic m \<Rightarrow> give (Panic m)
      | Ok _ \<Rightarrow>
        and_then (unwrapped (set_pending_start M 1)) (\<lambda>_.
        case svw_runtime w of
          Err e \<Rightarrow> unwrapped (set_stopped M (ServiceSpecific 1))
        | Panic m \<Rightarrow> give (Panic m)
        | Ok _ \<Rightarrow>
          and_then (service_steps M (map ManagerSends (svw_before w))) (\<lambda>_.
          case svw_daemon w of
            Panic m \<Rightarrow> give (Panic m)
          | Err e \<Rightarrow> unwrapped (set_stopped M (ServiceSpecific 1))
          | Ok _ \<Rightarrow>
            and_then (service_steps M (svw_during w)) (\<lambda>_.
            and_then (unwrapped (set_running M)) (\<lambda>_.
            and_then (service_steps M (svw_after w)) (\<lambda>_.
              unwrapped (set_stopped M exit_default)))))))"

section \<open>Checkpoints\<close>

definition pending_checkpoints :: "service \<Rightarrow> 32 word list" where
  "pending_checkpoints s = map svs_checkpoint (filter (\<lambda>r. is_pending (svs_state r)) (sv_reported s))"

definition numbered :: "nat \<Rightarrow> 32 word list" where
  "numbered n = map of_nat [1..<Suc n]"

definition checkpoints_ok :: "service \<Rightarrow> bool" where
  \<comment> \<open>the counter is one more than the number of pending reports, modulo its width\<close>
  "checkpoints_ok s \<longleftrightarrow>
     pending_checkpoints s = numbered (length (pending_checkpoints s))
     \<and> sv_counter s = of_nat (Suc (length (pending_checkpoints s)))
     \<and> (\<forall>r \<in> set (sv_reported s). \<not> is_pending (svs_state r) \<longrightarrow> svs_checkpoint r = 0)"

lemma numbered_Suc: "numbered (Suc n) = numbered n @ [of_nat (Suc n)]"
  by (simp add: numbered_def)

lemma checkpoints_ok_new: "checkpoints_ok persistent_service_status_new"
  by (simp add: checkpoints_ok_def pending_checkpoints_def persistent_service_status_new_def numbered_def)

lemma ucast_counter: "ucast (of_nat n :: 64 word) = (of_nat n :: 32 word)"
  by (simp add: unsigned_of_nat word_unat_eq_iff unat_of_nat take_bit_nat_def mod_mod_cancel)

lemma pending_report: "pending_checkpoints (snd (report_status M nxt hint code s)) =
    pending_checkpoints s @ (if is_pending nxt then [ucast (sv_counter s)] else [])"
  by (simp add: pending_checkpoints_def report_status_def Let_def)

lemma keeps_report [keeps_intros]: "keeps checkpoints_ok (report_status M nxt hint code)"
proof (rule keepsI)
  fix s r s'
  assume s: "checkpoints_ok s" and run: "report_status M nxt hint code s = (r, s')"
  have "pending_checkpoints s' = pending_checkpoints s @ (if is_pending nxt then [ucast (sv_counter s)] else [])"
    using pending_report [of M nxt hint code s] run by simp
  moreover have "sv_counter s' = (if is_pending nxt then sv_counter s + 1 else sv_counter s)"
    using run by (auto simp: report_status_def Let_def)
  moreover have "\<forall>x \<in> set (sv_reported s'). \<not> is_pending (svs_state x) \<longrightarrow> svs_checkpoint x = 0"
    using s run by (auto simp: checkpoints_ok_def report_status_def Let_def)
  moreover have "ucast (sv_counter s) = (of_nat (Suc (length (pending_checkpoints s))) :: 32 word)"
    using s ucast_counter [of "Suc (length (pending_checkpoints s))"] by (simp add: checkpoints_ok_def)
  ultimately show "checkpoints_ok s'"
    using s by (simp add: checkpoints_ok_def numbered_Suc split del: if_split)
      (simp add: numbered_Suc)
qed

lemma keeps_reports [keeps_intros]:
  "keeps checkpoints_ok (set_pending_start M h)" "keeps checkpoints_ok (set_running M)"
  "keeps checkpoints_ok (set_pending_stop M h)" "keeps checkpoints_ok (set_stopped M code)"
  unfolding set_pending_start_def set_running_def set_pending_stop_def set_stopped_def
  by (intro keeps_intros)+

lemma keeps_unwrapped [keeps_intros]: "keeps I p \<Longrightarrow> keeps I (unwrapped p)"
  unfolding unwrapped_def by (rule keeps_expect)

lemma checkpoints_fields [simp]:
  "checkpoints_ok (s\<lparr>sv_controls := c\<rparr>) = checkpoints_ok s"
  "checkpoints_ok (s\<lparr>sv_receiving := b\<rparr>) = checkpoints_ok s"
  "checkpoints_ok (s\<lparr>sv_queued := n\<rparr>) = checkpoints_ok s"
  "checkpoints_ok (s\<lparr>sv_listening := b\<rparr>) = checkpoints_ok s"
  "checkpoints_ok (s\<lparr>sv_told := b\<rparr>) = checkpoints_ok s"
  by (simp_all add: checkpoints_ok_def pending_checkpoints_def)

lemma keeps_monitor: "keeps checkpoints_ok (monitor_control M c)"
  unfolding monitor_control_def service_shutdown_def by (auto intro!: keeps_intros)

lemma step_checkpoints: "checkpoints_ok s \<Longrightarrow> checkpoints_ok (run_service_step M x s)"
proof (cases x)
  case (ManagerSends c)
  then show "checkpoints_ok s \<Longrightarrow> ?thesis" by (cases c) auto
next
  case MonitorRuns
  assume "checkpoints_ok s"
  then show ?thesis
    using MonitorRuns keepsD [OF keeps_monitor, of "s\<lparr>sv_controls := tl (sv_controls s)\<rparr>"]
    by (auto simp: monitor_step_def split: list.split prod.split)
next
  case SignalHandlerRuns
  then show "checkpoints_ok s \<Longrightarrow> ?thesis" by (simp add: signal_handler_step_def)
qed

lemma keeps_steps [keeps_intros]: "keeps checkpoints_ok (service_steps M xs)"
  unfolding service_steps_def
proof (rule keeps_writes)
  fix s
  assume "checkpoints_ok s"
  then show "checkpoints_ok (fold (run_service_step M) xs s)"
    by (induction xs arbitrary: s) (simp_all add: step_checkpoints)
qed

lemma keeps_service_main: "keeps checkpoints_ok (handle_service_main M w)"
  unfolding handle_service_main_def by (auto intro!: keeps_intros split: res.split)

section \<open>The order of the reports\<close>







definition stopping :: "service_control \<Rightarrow> bool" where
  "stopping c \<longleftrightarrow> c = ControlStop \<or> c = ControlPreshutdown"

definition stops_in :: "service_control list \<Rightarrow> nat" where
  "stops_in cs = length (filter stopping cs)"



lemma stops_in_simps [simp]:
  "stops_in [] = 0" "stops_in (cs @ ds) = stops_in cs + stops_in ds"
  "stops_in (c # cs) = (if stopping c then Suc (stops_in cs) else stops_in cs)"
  by (simp_all add: stops_in_def)






definition sample_service_world :: service_world where
  \<comment> \<open>the manager asks for the state while the daemon starts, and stops it later\<close>
  "sample_service_world = \<lparr>svw_register = Ok (), svw_runtime = Ok (), svw_daemon = Ok (),
     svw_before = [ControlInterrogate], svw_during = [MonitorRuns],
     svw_after = [ManagerSends ControlPowerEvent, ManagerSends ControlStop, MonitorRuns, MonitorRuns,
       SignalHandlerRuns]\<rparr>"

section \<open>Properties\<close>

text \<open>C34: however the manager's calls, the monitor and the main thread interleave, the reports of a
  pending state carry the checkpoints 1, 2, 3 and so on, modulo 2^32, and the others carry 0. So below
  2^32 reports the manager sees progress with every one of them.\<close>

theorem checkpoints_progress:
  assumes "s = snd (handle_service_main M w persistent_service_status_new)"
  shows "pending_checkpoints s = numbered (length (pending_checkpoints s))
     \<and> (length (pending_checkpoints s) < 2 ^ 32 \<longrightarrow> sorted_wrt (<) (pending_checkpoints s))
     \<and> (\<forall>r \<in> set (sv_reported s). \<not> is_pending (svs_state r) \<longrightarrow> svs_checkpoint r = 0)"
proof -
  have ok: "checkpoints_ok s"
    using keeps_service_main [of M w] checkpoints_ok_new unfolding keeps_def assms by blast
  have "sorted_wrt (<) (numbered n)" if "n < 2 ^ 32" for n
    using that
  proof (induction n)
    case (Suc n)
    have "x < of_nat (Suc n)" if "x \<in> set (numbered n)" for x
    proof -
      obtain i where "x = of_nat i" and "i < Suc n" using \<open>x \<in> set (numbered n)\<close> by (auto simp: numbered_def)
      then show ?thesis using Suc.prems by (auto simp: word_less_nat_alt unat_of_nat simp del: of_nat_Suc)
    qed
    with Suc show ?case by (simp add: numbered_Suc sorted_wrt_append del: of_nat_Suc)
  qed (simp add: numbered_def)
  with ok show ?thesis unfolding checkpoints_ok_def by metis
qed

theorem checkpoints_progress_witness:
  "pending_checkpoints (snd (handle_service_main (\<lambda>_. Ok ()) sample_service_world persistent_service_status_new))
     = [1, 2]"
proof -
  let ?s = "snd (handle_service_main (\<lambda>_. Ok ()) sample_service_world persistent_service_status_new)"
  have "length (pending_checkpoints ?s) = 2"
    by (simp add: pending_checkpoints_def handle_service_main_def sample_service_world_def prog_simps
        service_steps_def unwrapped_def set_pending_start_def set_running_def set_stopped_def
        set_pending_stop_def report_status_def Let_def persistent_service_status_new_def
        monitor_step_def monitor_control_def service_shutdown_def signal_handler_step_def)
  with checkpoints_progress [OF refl, of "\<lambda>_. Ok ()" sample_service_world] show ?thesis
    by (simp add: numbered_def numeral_2_eq_2)
qed



end
