(* ===== verification/Schema.thy ===== *)
theory Schema
  imports Db
begin

text \<open>
  modvpn-migration: the tables the migrations create. The migrator is sea-orm's and a parameter here;
  what is relied on is documented: it applies, in order, the migrations whose names are not yet
  recorded, records each, and stops at the first error. The outcome of every statement is an
  argument.
\<close>

section \<open>Tables\<close>

datatype column_type = UuidColumn | StringColumn | DateTimeColumn | BooleanColumn | IntegerColumn

datatype cell = NullCell | TextCell string | BoolCell bool | IntCell nat

record column =
  col_name :: string
  col_type :: column_type
  col_not_null :: bool
  col_primary_key :: bool
  col_auto_increment :: bool
  col_default :: "cell option"

record table_def =
  tbl_name :: string
  tbl_columns :: "column list"

definition column :: "string \<Rightarrow> column_type \<Rightarrow> column" where
  "column n t = \<lparr>col_name = n, col_type = t, col_not_null = False, col_primary_key = False,
     col_auto_increment = False, col_default = None\<rparr>"

definition not_null :: "column \<Rightarrow> column" where
  "not_null c = c\<lparr>col_not_null := True\<rparr>"

definition primary_key :: "column \<Rightarrow> column" where
  "primary_key c = c\<lparr>col_primary_key := True\<rparr>"

definition auto_increment :: "column \<Rightarrow> column" where
  "auto_increment c = c\<lparr>col_auto_increment := True\<rparr>"

definition default_to :: "cell \<Rightarrow> column \<Rightarrow> column" where
  "default_to v c = c\<lparr>col_default := Some v\<rparr>"

definition vpn_session_table :: table_def where
  "vpn_session_table = \<lparr>tbl_name = ''vpn_session'', tbl_columns = [
     primary_key (not_null (column ''request_id'' UuidColumn)),
     not_null (column ''location_code'' StringColumn),
     not_null (column ''location_city'' StringColumn),
     not_null (column ''location_city_code'' StringColumn),
     not_null (column ''location_country'' StringColumn),
     not_null (column ''location_country_code'' StringColumn),
     column ''location_state'' StringColumn,
     column ''location_state_code'' StringColumn,
     column ''server_status'' StringColumn,
     column ''session_uuid'' StringColumn,
     column ''server_ipv4_endpoint'' StringColumn,
     column ''server_private_ipv4'' StringColumn,
     column ''server_public_key'' StringColumn,
     not_null (column ''requested_at'' DateTimeColumn),
     default_to (BoolCell False) (not_null (column ''mark_for_deletion'' BooleanColumn))]\<rparr>"

definition device_table_def :: table_def where
  "device_table_def = \<lparr>tbl_name = ''device'', tbl_columns = [
     primary_key (not_null (column ''unique_id'' UuidColumn)),
     not_null (column ''name'' StringColumn),
     not_null (column ''version'' StringColumn),
     not_null (column ''arch'' StringColumn),
     not_null (column ''device_type'' StringColumn),
     not_null (column ''private_key'' StringColumn),
     column ''ipv4_address'' StringColumn,
     not_null (column ''created_at'' DateTimeColumn)]\<rparr>"

definition token_table_def :: table_def where
  "token_table_def = \<lparr>tbl_name = ''token'', tbl_columns = [
     not_null (primary_key (auto_increment (column ''id'' IntegerColumn))),
     not_null (column ''token'' StringColumn)]\<rparr>"

definition recent_locations_table :: table_def where
  "recent_locations_table = \<lparr>tbl_name = ''recent_locations'', tbl_columns = [
     primary_key (not_null (auto_increment (column ''id'' IntegerColumn))),
     not_null (column ''code'' StringColumn),
     not_null (column ''city'' StringColumn),
     not_null (column ''city_code'' StringColumn),
     not_null (column ''country'' StringColumn),
     not_null (column ''country_code'' StringColumn),
     column ''state'' StringColumn,
     column ''state_code'' StringColumn]\<rparr>"

section \<open>Migrations\<close>

record schema =
  sch_tables :: "table_def list"
  sch_applied :: "string list"  \<comment> \<open>the names recorded by the migrator\<close>
  sch_faults :: "db_err option list"  \<comment> \<open>the outcomes of the statements to come\<close>

definition schema_statement :: "(schema \<Rightarrow> (unit, db_err) res \<times> schema) \<Rightarrow> (schema, unit, db_err) prog" where
  "schema_statement p s = (case sch_faults s of
      [] \<Rightarrow> p s
    | None # fs \<Rightarrow> p (s\<lparr>sch_faults := fs\<rparr>)
    | Some e # fs \<Rightarrow> (Err e, s\<lparr>sch_faults := fs\<rparr>))"

definition create_table :: "bool \<Rightarrow> table_def \<Rightarrow> (schema, unit, db_err) prog" where
  "create_table if_not_exists t = schema_statement (\<lambda>s.
     if tbl_name t \<in> tbl_name ` set (sch_tables s)
     then (if if_not_exists then Ok () else Err (DbFailure (''table already exists: '' @ tbl_name t)), s)
     else (Ok (), s\<lparr>sch_tables := sch_tables s @ [t]\<rparr>))"

definition drop_table :: "string \<Rightarrow> (schema, unit, db_err) prog" where
  "drop_table n = schema_statement (\<lambda>s.
     if n \<in> tbl_name ` set (sch_tables s)
     then (Ok (), s\<lparr>sch_tables := filter (\<lambda>t. tbl_name t \<noteq> n) (sch_tables s)\<rparr>)
     else (Err (DbFailure (''no such table: '' @ n)), s))"

record migration =
  mig_name :: string
  mig_table :: table_def

definition migration_up :: "migration \<Rightarrow> (schema, unit, db_err) prog" where
  "migration_up m = create_table True (mig_table m)"

definition migration_down :: "migration \<Rightarrow> (schema, unit, db_err) prog" where
  "migration_down m = drop_table (tbl_name (mig_table m))"

definition create_vpn_session :: migration where
  "create_vpn_session =
     \<lparr>mig_name = ''m20230603_133547_create_vpn_session'', mig_table = vpn_session_table\<rparr>"

definition create_device :: migration where
  "create_device = \<lparr>mig_name = ''m20230603_133704_create_device'', mig_table = device_table_def\<rparr>"

definition create_token :: migration where
  "create_token = \<lparr>mig_name = ''m20230603_133805_create_token'', mig_table = token_table_def\<rparr>"

definition create_recent_locations :: migration where
  "create_recent_locations =
     \<lparr>mig_name = ''m20230603_133832_create_recent_locations'', mig_table = recent_locations_table\<rparr>"

lemmas migration_defs [simp] =
  create_vpn_session_def create_device_def create_token_def create_recent_locations_def

definition migrations :: "migration list" where
  "migrations = [create_vpn_session, create_device, create_token, create_recent_locations]"

definition record_applied :: "string \<Rightarrow> (schema, unit, db_err) prog" where
  "record_applied n = schema_statement (\<lambda>s. (Ok (), s\<lparr>sch_applied := sch_applied s @ [n]\<rparr>))"

fun apply_all :: "migration list \<Rightarrow> (schema, unit, db_err) prog" where
  "apply_all [] = ret ()"
| "apply_all (m # ms) =
     and_then (\<lambda>s. if mig_name m \<in> set (sch_applied s) then (Ok (), s)
       else and_then (migration_up m) (\<lambda>_. record_applied (mig_name m)) s) (\<lambda>_. apply_all ms)"

type_synonym migrator = "migration list \<Rightarrow> (schema, unit, db_err) prog"

definition migrator_ok :: "migrator \<Rightarrow> bool" where
  \<comment> \<open>the documented behaviour of \<open>MigratorTrait::up\<close>\<close>
  "migrator_ok up \<longleftrightarrow> (\<forall>ms s. up ms s = apply_all ms s)"

definition schema_new :: schema where
  "schema_new = \<lparr>sch_tables = [], sch_applied = [], sch_faults = []\<rparr>"

section \<open>The migrator can be run again\<close>

text \<open>
  What a run leaves behind, wherever it stops: the tables and the names of the first migrations,
  and perhaps the table of the next, whose name could not be recorded.
\<close>

definition applied_to :: "migration list \<Rightarrow> migration list \<Rightarrow> bool \<Rightarrow> schema \<Rightarrow> bool" where
  "applied_to as bs half s \<longleftrightarrow>
     sch_tables s = map mig_table as @ (if half \<and> bs \<noteq> [] then [mig_table (hd bs)] else [])
     \<and> sch_applied s = map mig_name as"

definition resumable :: "schema \<Rightarrow> bool" where
  "resumable s \<longleftrightarrow> (\<exists>as bs half. migrations = as @ bs \<and> applied_to as bs half s)"

definition separate :: "migration list \<Rightarrow> bool" where
  "separate ms \<longleftrightarrow> distinct (map mig_name ms) \<and> distinct (map (tbl_name \<circ> mig_table) ms)"

lemma migrations_separate: "separate migrations"
  by (simp add: separate_def migrations_def vpn_session_table_def device_table_def_def
      token_table_def_def recent_locations_table_def)

lemma apply_skips:
  "\<forall>m \<in> set as. mig_name m \<in> set (sch_applied s) \<Longrightarrow> apply_all (as @ bs) s = apply_all bs s"
  by (induction as) (simp_all add: and_then_def)

lemma schema_statement_cases:
  obtains (runs) fs where "schema_statement p s = p (s\<lparr>sch_faults := fs\<rparr>)" and "sch_faults s = [] \<Longrightarrow> fs = []"
  | (fails) e fs where "schema_statement p s = (Err e, s\<lparr>sch_faults := fs\<rparr>)" and "sch_faults s \<noteq> []"
proof (cases "sch_faults s")
  case Nil
  then have "schema_statement p s = p (s\<lparr>sch_faults := []\<rparr>)"
    by (simp add: schema_statement_def) (metis Nil schema.surjective schema.update_convs(3))
  then show thesis using runs by blast
next
  case (Cons x fs)
  then show thesis using runs [of fs] fails [of _ fs] by (cases x) (auto simp: schema_statement_def)
qed

lemma applied_faults [simp]: "applied_to as bs half (s\<lparr>sch_faults := fs\<rparr>) = applied_to as bs half s"
  by (simp add: applied_to_def)

lemma create_next:
  assumes "separate (as @ m # bs)" and "applied_to as (m # bs) half s"
    and "create_table True (mig_table m) s = (r, s')"
  shows "(r = Ok () \<and> applied_to as (m # bs) True s' \<or> (\<exists>e. r = Err e) \<and> applied_to as (m # bs) half s')
     \<and> (sch_faults s = [] \<longrightarrow> r = Ok () \<and> sch_faults s' = [])"
proof -
  have new: "tbl_name (mig_table m) \<notin> tbl_name ` mig_table ` set as"
    using assms(1) by (auto simp: separate_def)
  from assms show ?thesis
    unfolding create_table_def
    by (cases rule: schema_statement_cases [of "\<lambda>s. if tbl_name (mig_table m) \<in> tbl_name ` set (sch_tables s)
        then (Ok (), s) else (Ok (), s\<lparr>sch_tables := sch_tables s @ [mig_table m]\<rparr>)" s])
      (use new in \<open>auto simp: applied_to_def split: if_splits\<close>)
qed

lemma record_next:
  assumes "applied_to as (m # bs) True s" and "record_applied (mig_name m) s = (r, s')"
  shows "(r = Ok () \<and> applied_to (as @ [m]) bs False s' \<or> (\<exists>e. r = Err e) \<and> applied_to as (m # bs) True s')
     \<and> (sch_faults s = [] \<longrightarrow> r = Ok () \<and> sch_faults s' = [])"
  using assms unfolding record_applied_def
  by (cases rule: schema_statement_cases [of "\<lambda>s. (Ok (), s\<lparr>sch_applied := sch_applied s @ [mig_name m]\<rparr>)" s])
    (auto simp: applied_to_def)

lemma apply_from:
  assumes "separate (as @ bs)" and "applied_to as bs half s" and "apply_all bs s = (r, s')"
  shows "(\<exists>as' bs' half'. as @ bs = as' @ bs' \<and> applied_to as' bs' half' s')
     \<and> (sch_faults s = [] \<longrightarrow> r = Ok () \<and> applied_to (as @ bs) [] False s' \<and> sch_faults s' = [])"
  using assms
proof (induction bs arbitrary: as half s r s')
  case Nil
  then show ?case by (auto simp: applied_to_def)
next
  case (Cons m bs)
  have todo: "mig_name m \<notin> set (sch_applied s)"
    using Cons.prems(1,2) by (auto simp: separate_def applied_to_def)
  obtain q t where create: "create_table True (mig_table m) s = (q, t)" by fastforce
  note created = create_next [OF Cons.prems(1,2) create]
  show ?case
  proof (cases "q = Ok ()")
    case False
    with created obtain e where "q = Err e" and "applied_to as (m # bs) half t" and "sch_faults s \<noteq> []" by auto
    then show ?thesis using Cons.prems(3) create todo by (auto simp: and_then_def migration_up_def)
  next
    case True
    with created have half: "applied_to as (m # bs) True t" by auto
    obtain q' u where rec: "record_applied (mig_name m) t = (q', u)" by fastforce
    note recorded = record_next [OF half rec]
    show ?thesis
    proof (cases "q' = Ok ()")
      case False
      with recorded obtain e where "q' = Err e" and "applied_to as (m # bs) True u" and "sch_faults t \<noteq> []" by auto
      then show ?thesis using Cons.prems(3) create created True rec todo
        by (auto simp: and_then_def migration_up_def)
    next
      case ok: True
      with recorded have "applied_to (as @ [m]) bs False u" by auto
      moreover have "apply_all bs u = (r, s')"
        using Cons.prems(3) create True rec ok todo by (simp add: and_then_def migration_up_def)
      moreover have "separate ((as @ [m]) @ bs)" using Cons.prems(1) by simp
      ultimately show ?thesis using Cons.IH [of "as @ [m]" False u r s'] created recorded by simp
    qed
  qed
qed

lemma migrator_resumes:
  assumes "resumable s" and "apply_all migrations s = (r, s')"
  shows "resumable s' \<and> (sch_faults s = [] \<longrightarrow> r = Ok () \<and> applied_to migrations [] False s')"
proof -
  obtain as bs half where ms: "migrations = as @ bs" and at: "applied_to as bs half s"
    using assms(1) by (auto simp: resumable_def)
  have "apply_all bs s = (r, s')"
    using assms(2) apply_skips [of as s bs] at by (simp add: ms applied_to_def)
  moreover have "separate (as @ bs)" using migrations_separate ms by simp
  ultimately show ?thesis
    using apply_from [OF _ at] unfolding resumable_def ms by blast
qed

section \<open>Properties\<close>

text \<open>C36: the migrations can be resumed. Wherever a run of the migrator is stopped by a failing
  statement, also between the creation of a table and its record, a later run in which no statement
  fails ends with exactly the tables of the four migrations, each recorded once.\<close>

theorem migrations_resume:
  assumes "migrator_ok up" and "up migrations (schema_new\<lparr>sch_faults := fs\<rparr>) = (r, s)"
    and "up migrations (s\<lparr>sch_faults := []\<rparr>) = (r', s')"
  shows "r' = Ok () \<and> sch_tables s' = map mig_table migrations \<and> sch_applied s' = map mig_name migrations"
proof -
  note runs = assms(2,3) [unfolded assms(1) [unfolded migrator_ok_def, rule_format]]
  have "resumable (schema_new\<lparr>sch_faults := fs\<rparr>)"
    unfolding resumable_def
    by (rule exI [of _ "[]"], rule exI [of _ migrations], rule exI [of _ False])
      (simp add: applied_to_def schema_new_def)
  then have "resumable s" using migrator_resumes runs(1) by blast
  then have "resumable (s\<lparr>sch_faults := []\<rparr>)" by (simp add: resumable_def)
  from migrator_resumes [OF this runs(2)] show ?thesis by (simp add: applied_to_def)
qed

theorem migrations_resume_witness:
  "\<exists>r s s'. apply_all migrations (schema_new\<lparr>sch_faults := [None, None, None, Some (DbFailure ''locked'')]\<rparr>) = (r, s)
     \<and> apply_all migrations (s\<lparr>sch_faults := []\<rparr>) = (Ok (), s') \<and> length (sch_tables s') = 4"
proof -
  obtain r s where a: "apply_all migrations (schema_new\<lparr>sch_faults := [None, None, None, Some (DbFailure ''locked'')]\<rparr>) = (r, s)"
    by fastforce
  obtain r' s' where b: "apply_all migrations (s\<lparr>sch_faults := []\<rparr>) = (r', s')" by fastforce
  have "migrator_ok apply_all" by (simp add: migrator_ok_def)
  from migrations_resume [OF this a b] a b show ?thesis by (auto simp: migrations_def)
qed

end
