(* ===== verification/Config.thy ===== *)
theory Config
  imports Net
begin

text \<open>
  modvpn-config/src/lib.rs: the paths, the configuration and the cells that hold them from the first
  call on, and the values derived from it, for Linux and macOS and, where the directories come from the
  environment, for Windows. Merging files and the environment into one configuration is figment's; it
  is a parameter that is given the providers in their order.
\<close>

section \<open>Paths\<close>

text \<open>\<open>Path::join\<close> and \<open>Path::file\_name\<close> of the standard library, on Unix.\<close>

definition path_join :: "string \<Rightarrow> string \<Rightarrow> string" where
  "path_join p q =
     (if q \<noteq> [] \<and> hd q = CHR ''/'' then q
      else if p = [] \<or> last p = CHR ''/'' then p @ q
      else p @ ''/'' @ q)"

fun split_path :: "string \<Rightarrow> string list" where
  "split_path [] = [[]]"
| "split_path (c # cs) = (case split_path cs of
      x # xs \<Rightarrow> if c = CHR ''/'' then [] # x # xs else (c # x) # xs
    | [] \<Rightarrow> [])"

definition file_name :: "string \<Rightarrow> string option" where
  "file_name p = (case rev (filter (\<lambda>x. x \<noteq> [] \<and> x \<noteq> ''.'') (split_path p)) of
      [] \<Rightarrow> None
    | x # xs \<Rightarrow> if x = ''..'' then None else Some x)"

lemma split_path_not_Nil [simp]: "split_path p \<noteq> []"
  by (induction p) (auto split: list.split)

lemma split_path_name: "CHR ''/'' \<notin> set q \<Longrightarrow> split_path q = [q]"
  by (induction q) auto

lemma split_path_append:
  "split_path (p @ CHR ''/'' # q) = split_path p @ split_path q"
proof (induction p)
  case Nil
  then show ?case by (cases "split_path q") auto
next
  case (Cons c p)
  obtain x xs where "split_path p = x # xs" by (cases "split_path p") auto
  with Cons show ?case by auto
qed

lemma file_name_join:
  \<comment> \<open>the last component of a joined path is the one that was joined\<close>
  assumes "CHR ''/'' \<notin> set q" and "q \<noteq> []" and "q \<noteq> ''.''" and "q \<noteq> ''..''"
  shows "file_name (path_join p q) = Some q"
proof -
  have h: "hd q \<noteq> CHR ''/''" using assms(1,2) by (cases q) auto
  have "file_name (r @ CHR ''/'' # q) = Some q" for r
    using assms by (simp add: file_name_def split_path_append split_path_name)
  moreover have "file_name q = Some q"
    using assms by (simp add: file_name_def split_path_name)
  moreover have "p = butlast p @ [CHR ''/'']" if "p \<noteq> []" "last p = CHR ''/''"
    using append_butlast_last_id [OF that(1)] that(2) by simp
  then have "p = [] \<or> last p \<noteq> CHR ''/'' \<or> (\<exists>r. p = r @ [CHR ''/''])" by blast
  ultimately show ?thesis
    using h by (auto simp: path_join_def)
qed

section \<open>The configuration\<close>

datatype platform = OnLinux | OnMacOs

datatype ip_addr = IpV4 ipv4 | IpV6 "128 word"

record config =
  cfg_config_dir :: string
  cfg_log_dir :: string
  cfg_grpc_api_host_port :: string
  cfg_socket_path :: string
  cfg_daemon_log_filename :: string
  cfg_allowed_endpoint_ipv4 :: ip_addr
  cfg_license_file_path :: "string option"

datatype provider = SerializedDefaults config | TomlFile string | EnvPrefixed string

text \<open>What figment extracts from the merged providers, of which the later win.\<close>

type_synonym figment = "provider list \<Rightarrow> (config, string) res"

text \<open>The cells: each is set once.\<close>

record config_cells =
  cell_config :: "config option"
  cell_config_dir :: "string option"
  cell_log_dir :: "string option"
  cell_socket_path :: "string option"

definition no_cells :: config_cells where
  "no_cells = \<lparr>cell_config = None, cell_config_dir = None, cell_log_dir = None, cell_socket_path = None\<rparr>"

definition get_or_init ::
    "('s \<Rightarrow> 'a option) \<Rightarrow> ('a \<Rightarrow> 's \<Rightarrow> 's) \<Rightarrow> ('s, 'a, 'e) prog \<Rightarrow> ('s, 'a, 'e) prog" where
  "get_or_init cell put init s = (case cell s of
      Some x \<Rightarrow> (Ok x, s)
    | None \<Rightarrow> and_then init (\<lambda>x. and_then (writes (put x)) (\<lambda>_. ret x)) s)"

definition CONFIG_FILENAME :: string where
  "CONFIG_FILENAME = ''modvpn.conf.toml''"

definition default_config :: "(config_cells, config, 'e) prog" where
  "default_config =
     and_then (\<lambda>s. (unwrap (cell_config_dir s), s)) (\<lambda>config_dir.
     and_then (\<lambda>s. (unwrap (cell_log_dir s), s)) (\<lambda>log_dir.
     and_then (\<lambda>s. (unwrap (cell_socket_path s), s)) (\<lambda>socket_path.
       ret \<lparr>cfg_config_dir = config_dir, cfg_log_dir = log_dir,
         cfg_grpc_api_host_port = ''grpcs://api.modvpn.app:44444'', cfg_socket_path = socket_path,
         cfg_daemon_log_filename = ''modvpn-daemon.log'',
         cfg_allowed_endpoint_ipv4 = IpV4 (ipv4_of_octets 168 220 80 137),
         cfg_license_file_path = None\<rparr>)))"

text \<open>The places the cells are filled with, and how the file is found in the first of them.\<close>

record config_places =
  cp_config_dir :: string
  cp_log_dir :: string
  cp_socket_path :: string
  cp_file :: "string \<Rightarrow> string"

definition extract_config :: "figment \<Rightarrow> string \<Rightarrow> (config_cells, config, 'e) prog" where
  "extract_config F config_file =
     and_then default_config (\<lambda>d.
       expect ''called `Result::unwrap()` on an `Err` value'' (give (F
         [SerializedDefaults d, TomlFile config_file,
          TomlFile CONFIG_FILENAME, EnvPrefixed ''modvpn_''])))"

definition get_config_at :: "figment \<Rightarrow> config_places \<Rightarrow> (config_cells, config, 'e) prog" where
  "get_config_at F p =
     and_then (get_or_init cell_config_dir (\<lambda>x s. s\<lparr>cell_config_dir := Some x\<rparr>) (ret (cp_config_dir p)))
       (\<lambda>config_dir.
     and_then (get_or_init cell_log_dir (\<lambda>x s. s\<lparr>cell_log_dir := Some x\<rparr>) (ret (cp_log_dir p)))
       (\<lambda>_.
     and_then (get_or_init cell_socket_path (\<lambda>x s. s\<lparr>cell_socket_path := Some x\<rparr>)
         (ret (cp_socket_path p))) (\<lambda>_.
       get_or_init cell_config (\<lambda>x s. s\<lparr>cell_config := Some x\<rparr>) (extract_config F (cp_file p config_dir)))))"

definition unix_places :: config_places where
  "unix_places = \<lparr>cp_config_dir = ''/etc/modvpn'', cp_log_dir = ''/var/log/modvpn'',
     cp_socket_path = ''/var/run/modvpn.sock'', cp_file = (\<lambda>d. path_join d CONFIG_FILENAME)\<rparr>"

definition get_config :: "figment \<Rightarrow> (config_cells, config, 'e) prog" where
  "get_config F = get_config_at F unix_places"

definition db_dir :: "config \<Rightarrow> string" where
  "db_dir c = path_join (cfg_config_dir c) ''db''"

definition db_url :: "config \<Rightarrow> string" where
  "db_url c = ''sqlite://'' @ db_dir c @ ''/modvpn.db?mode=rwc''"

definition daemon_log_file_full_path :: "config \<Rightarrow> string" where
  "daemon_log_file_full_path c = path_join (cfg_log_dir c) (cfg_daemon_log_filename c)"

definition license_file_path :: "platform \<Rightarrow> config \<Rightarrow> string" where
  "license_file_path pf c = (case cfg_license_file_path c of
      Some p \<Rightarrow> p
    | None \<Rightarrow> (case pf of
        OnLinux \<Rightarrow> ''/opt/modvpn/modvpn-oss-licenses.html''
      | OnMacOs \<Rightarrow> ''/Applications/modvpn.app/Contents/Resources/modvpn-oss-licenses.html''))"

definition icon_path :: "platform \<Rightarrow> string" where
  "icon_path pf = (case pf of
      OnLinux \<Rightarrow> ''/usr/share/icons/hicolor/32x32/apps/modvpn.png''
    | OnMacOs \<Rightarrow> ''/Applications/modvpn.app/Contents/Resources/icon.icns'')"

section \<open>The first call decides\<close>

definition shipped_config :: config where
  \<comment> \<open>the defaults of a process that has set no cell yet\<close>
  "shipped_config = \<lparr>cfg_config_dir = ''/etc/modvpn'', cfg_log_dir = ''/var/log/modvpn'',
     cfg_grpc_api_host_port = ''grpcs://api.modvpn.app:44444'', cfg_socket_path = ''/var/run/modvpn.sock'',
     cfg_daemon_log_filename = ''modvpn-daemon.log'',
     cfg_allowed_endpoint_ipv4 = IpV4 (ipv4_of_octets 168 220 80 137), cfg_license_file_path = None\<rparr>"

definition shipped_providers :: "provider list" where
  "shipped_providers = [SerializedDefaults shipped_config, TomlFile ''/etc/modvpn/modvpn.conf.toml'',
     TomlFile ''modvpn.conf.toml'', EnvPrefixed ''modvpn_'']"

lemma get_or_init_simps [simp]:
  "cell s = Some x \<Longrightarrow> get_or_init cell put init s = (Ok x, s)"
  "cell s = None \<Longrightarrow> get_or_init cell put init s = and_then init (\<lambda>x. and_then (writes (put x)) (\<lambda>_. ret x)) s"
  by (simp_all add: get_or_init_def)

lemma first_config:
  "fst (get_config F no_cells) = (case F shipped_providers of
      Err e \<Rightarrow> Panic ''called `Result::unwrap()` on an `Err` value'' | r \<Rightarrow> r)"
  by (cases "F shipped_providers")
    (simp_all add: get_config_def get_config_at_def unix_places_def extract_config_def prog_simps no_cells_def default_config_def shipped_providers_def
      shipped_config_def path_join_def CONFIG_FILENAME_def)

lemma get_or_init_cases:
  "get_or_init cell put init s = (Ok x, s') \<longleftrightarrow>
     (cell s = Some x \<and> s' = s) \<or> (cell s = None \<and> (\<exists>t. init s = (Ok x, t) \<and> s' = put x t))"
  by (cases "cell s") (auto simp: and_then_Ok_iff)

lemma default_config_same: "default_config s = (r, s') \<Longrightarrow> s' = s"
  by (cases "cell_config_dir s"; cases "cell_log_dir s"; cases "cell_socket_path s")
    (auto simp: default_config_def prog_simps)

lemma extract_same: "extract_config F d s = (r, s') \<Longrightarrow> s' = s"
  by (auto simp: extract_config_def and_then_def expect_def give_def split: prod.splits res.splits
      dest!: default_config_same)

definition settled_cells :: "config \<Rightarrow> config_cells \<Rightarrow> bool" where
  "settled_cells c s \<longleftrightarrow> cell_config s = Some c \<and> cell_config_dir s \<noteq> None \<and> cell_log_dir s \<noteq> None
     \<and> cell_socket_path s \<noteq> None"

lemma config_settles:
  assumes "get_config_at F p s = (Ok c :: (config, 'e) res, s')"
  shows "settled_cells c s'"
proof -
  from assms obtain d s1 l s2 k s3 where
    1: "get_or_init cell_config_dir (\<lambda>x s. s\<lparr>cell_config_dir := Some x\<rparr>) (ret (cp_config_dir p)) s = (Ok d :: (string, 'e) res, s1)"
    and 2: "get_or_init cell_log_dir (\<lambda>x s. s\<lparr>cell_log_dir := Some x\<rparr>) (ret (cp_log_dir p)) s1 = (Ok l :: (string, 'e) res, s2)"
    and 3: "get_or_init cell_socket_path (\<lambda>x s. s\<lparr>cell_socket_path := Some x\<rparr>) (ret (cp_socket_path p)) s2 = (Ok k :: (string, 'e) res, s3)"
    and 4: "get_or_init cell_config (\<lambda>x s. s\<lparr>cell_config := Some x\<rparr>) (extract_config F (cp_file p d)) s3 = (Ok c :: (config, 'e) res, s')"
    unfolding get_config_at_def and_then_Ok_iff by (elim exE conjE) (rule that)
  have "cell_config_dir s1 \<noteq> None" using 1 unfolding get_or_init_cases by (auto simp: ret_def)
  then have "cell_config_dir s2 \<noteq> None" "cell_log_dir s2 \<noteq> None" using 2 unfolding get_or_init_cases by (auto simp: ret_def)
  then have paths: "cell_config_dir s3 \<noteq> None" "cell_log_dir s3 \<noteq> None" "cell_socket_path s3 \<noteq> None"
    using 3 unfolding get_or_init_cases by (auto simp: ret_def)
  have "s' = s3\<lparr>cell_config := Some c\<rparr> \<or> s' = s3 \<and> cell_config s3 = Some c"
    using 4 extract_same unfolding get_or_init_cases by blast
  with paths show ?thesis by (auto simp: settled_cells_def)
qed

lemma settled_config: "settled_cells c s \<Longrightarrow> get_config_at F p s = (Ok c, s)"
  by (auto simp: settled_cells_def get_config_at_def prog_simps)

text \<open>The first configuration is that of the whole process, whatever is in the files later.\<close>

lemma later_config: "get_config F s = (Ok c, s') \<Longrightarrow> get_config G s' = (Ok c, s')"
  unfolding get_config_def by (rule settled_config) (rule config_settles)

lemma shipped_database: "db_url shipped_config = ''sqlite:///etc/modvpn/db/modvpn.db?mode=rwc''"
  by (simp add: db_url_def db_dir_def shipped_config_def path_join_def)

lemma log_file_name:
  \<comment> \<open>under any log directory the log has the name that was configured\<close>
  "CHR ''/'' \<notin> set (cfg_daemon_log_filename c) \<Longrightarrow> cfg_daemon_log_filename c \<notin> {[], ''.'', ''..''} \<Longrightarrow>
     file_name (daemon_log_file_full_path c) = Some (cfg_daemon_log_filename c)"
  by (simp add: daemon_log_file_full_path_def file_name_join)

section \<open>Windows\<close>

type_synonym environment = "string \<Rightarrow> string option"

definition env_either :: "environment \<Rightarrow> string \<Rightarrow> string \<Rightarrow> string \<Rightarrow> (string, 'e) res" where
  \<comment> \<open>\<open>var(a).unwrap_or(var(b).expect(m))\<close>: the fallback is evaluated in any case\<close>
  "env_either env a b m = (case env b of
      None \<Rightarrow> Panic m
    | Some y \<Rightarrow> Ok (case env a of Some x \<Rightarrow> x | None \<Rightarrow> y))"

definition path_join_windows :: "string \<Rightarrow> string \<Rightarrow> string" where
  \<comment> \<open>\<open>Path::join\<close> of a relative path without a prefix, on Windows\<close>
  "path_join_windows p q =
     (if p = [] \<or> last p = CHR ''/'' \<or> last p = CHR 0x5C \<or> length p = 2 \<and> p ! 1 = CHR '':'' then p @ q
      else p @ [CHR 0x5C] @ q)"

definition windows_places :: "string \<Rightarrow> config_places" where
  "windows_places program_data = \<lparr>cp_config_dir = path_join_windows program_data ''modvpn'',
     cp_log_dir = path_join_windows (path_join_windows program_data ''modvpn'') ''log'',
     cp_socket_path = ''//./pipe/modvpn'', cp_file = (\<lambda>d. path_join_windows d CONFIG_FILENAME)\<rparr>"

definition get_config_windows :: "environment \<Rightarrow> figment \<Rightarrow> (config_cells, config, 'e) prog" where
  "get_config_windows env F =
     and_then (give (env_either env ''ProgramData'' ''PROGRAMDATA'' ''missing ProgramData and PROGRAMDATA env var''))
       (\<lambda>program_data. get_config_at F (windows_places program_data))"

definition license_file_path_windows :: "environment \<Rightarrow> config \<Rightarrow> (string, 'e) res" where
  "license_file_path_windows env c = (case cfg_license_file_path c of
      Some p \<Rightarrow> Ok p
    | None \<Rightarrow> map_ok (\<lambda>d. path_join_windows (path_join_windows d ''modvpn'') ''modvpn-oss-licenses.html'')
        (env_either env ''PROGRAMFILES'' ''ProgramFiles'' ''missing PROGRAMFILES and ProgramFiles env var''))"

definition icon_path_windows :: string where
  "icon_path_windows = []"

text \<open>With either spelling alone: the second is enough, the first is not.\<close>

lemma env_fallback_needed:
  "env b = Some y \<Longrightarrow> env a = None \<Longrightarrow> env_either env a b m = Ok y"
  "env b = None \<Longrightarrow> env a = Some x \<Longrightarrow> env_either env a b m = Panic m"
  by (simp_all add: env_either_def)

lemma later_config_windows:
  assumes "get_config_windows env F s = (Ok c :: (config, 'e) res, s')"
  shows "get_config_windows env G s' = (Ok c :: (config, 'e) res, s')"
proof -
  obtain d where d: "env_either env ''ProgramData'' ''PROGRAMDATA'' ''missing ProgramData and PROGRAMDATA env var'' = (Ok d :: (string, 'e) res)"
    and "get_config_at F (windows_places d) s = (Ok c :: (config, 'e) res, s')"
    using assms by (auto simp: get_config_windows_def and_then_Ok_iff give_def)
  from settled_config [OF config_settles [OF this(2)], of G "windows_places d"] d show ?thesis
    by (simp add: get_config_windows_def prog_simps)
qed

end
