(* ===== verification/Platform.thy ===== *)
theory Platform
  imports Config Lifecycle Tunnel_Params
begin

text \<open>
  What the daemon's process does around its tasks: logging (modvpn-daemon/src/logging.rs), the limits
  and groups of macOS (macos.rs), the old socket (cleanup.rs), what the tunnel's state machine is
  started with (lib.rs), the channel of the daemon (daemon.rs), and the exit code of main.rs. The
  answers of the operating system are arguments; what it was told to do is kept in the state.
\<close>

section \<open>Logging (logging.rs)\<close>

definition DEBUG_CRATES :: "string list" where
  "DEBUG_CRATES = [''talpid_core'']"

definition INFO_CRATES :: "string list" where
  "INFO_CRATES = [''h2'', ''rustls'', ''mio'', ''netlink_sys'', ''want'', ''nftnl'', ''mnl'',
     ''netlink_proto'', ''hyper'', ''tower'', ''tokio_util'', ''tonic'']"

definition ERROR_CRATES :: "string list" where
  "ERROR_CRATES = []"

definition WARN_CRATES :: "string list" where
  "WARN_CRATES = []"

fun comma_join :: "string list \<Rightarrow> string" where
  "comma_join [] = []"
| "comma_join [x] = x"
| "comma_join (x # y # ys) = x @ '','' @ comma_join (y # ys)"

definition log_level :: "string list \<Rightarrow> string \<Rightarrow> string" where
  "log_level crates level = comma_join (map (\<lambda>c. c @ ''='' @ level) crates)"

definition default_rust_log :: string where
  "default_rust_log = ''info,'' @ comma_join [log_level INFO_CRATES ''info'', log_level DEBUG_CRATES ''debug'',
     log_level WARN_CRATES ''warn'', log_level ERROR_CRATES ''error'']"

record log_world =
  lw_create_dir :: "(unit, string) res"
  lw_set_permissions :: "(unit, string) res"
  lw_rotate_log :: "(unit, string) res"
  lw_try_init :: "(unit, string) res"

record log_state =
  lg_rust_log :: "string option"  \<comment> \<open>the environment variable\<close>
  lg_dirs :: "string list"
  lg_permissions :: "(string \<times> nat) list"
  lg_rotated :: "string list"
  lg_subscribed :: bool
  lg_panic_hook :: bool

definition create_dir :: "log_world \<Rightarrow> string \<Rightarrow> nat option \<Rightarrow> (log_state, unit, string) prog" where
  "create_dir w path perm =
     and_then (give (lw_create_dir w)) (\<lambda>_.
     and_then (writes (\<lambda>s. s\<lparr>lg_dirs := lg_dirs s @ [path]\<rparr>)) (\<lambda>_. case perm of
       Some m \<Rightarrow> and_then (give (lw_set_permissions w)) (\<lambda>_.
         writes (\<lambda>s. s\<lparr>lg_permissions := lg_permissions s @ [(path, m)]\<rparr>))
     | None \<Rightarrow> ret ()))"

definition mode_755 :: nat where
  "mode_755 = 7 * 8 ^ 2 + 5 * 8 + 5"

definition logging_init :: "bool \<Rightarrow> log_world \<Rightarrow> config \<Rightarrow> (log_state, string, string) prog" where
  \<comment> \<open>its result stands for the text that is logged at the end\<close>
  "logging_init unix w c =
     and_then (writes (\<lambda>s. if lg_rust_log s = None then s\<lparr>lg_rust_log := Some default_rust_log\<rparr> else s)) (\<lambda>_.
     and_then (create_dir w (cfg_log_dir c) (if unix then Some mode_755 else None)) (\<lambda>_.
     and_then (give (lw_rotate_log w)) (\<lambda>_.
     and_then (writes (\<lambda>s. s\<lparr>lg_rotated := lg_rotated s @ [daemon_log_file_full_path c]\<rparr>)) (\<lambda>_.
     and_then (give (lw_try_init w)) (\<lambda>_.
     and_then (writes (\<lambda>s. s\<lparr>lg_subscribed := True, lg_panic_hook := True\<rparr>)) (\<lambda>_.
       (\<lambda>s. (unwrap (lg_rust_log s), s))))))))"

text \<open>The variable is set when it is read again at the end, and a value of the user is not touched.\<close>

definition calm_log :: "log_world \<Rightarrow> bool" where
  "calm_log w \<longleftrightarrow> \<not> is_panic (lw_create_dir w) \<and> \<not> is_panic (lw_set_permissions w)
     \<and> \<not> is_panic (lw_rotate_log w) \<and> \<not> is_panic (lw_try_init w)"

lemma logging_calm: "calm_log w \<Longrightarrow> \<not> is_panic (fst (logging_init unix w c s))"
  by (cases "lw_create_dir w"; cases "lw_set_permissions w"; cases "lw_rotate_log w"; cases "lw_try_init w"; cases unix)
    (auto simp: calm_log_def logging_init_def create_dir_def prog_simps)

lemma logging_keeps_choice:
  "lg_rust_log s = Some x \<Longrightarrow> lg_rust_log (snd (logging_init unix w c s)) = Some x"
  by (cases "lw_create_dir w"; cases "lw_set_permissions w"; cases "lw_rotate_log w"; cases "lw_try_init w"; cases unix)
    (auto simp: logging_init_def create_dir_def prog_simps)

text \<open>The groups without crates leave two empty directives at the end.\<close>

lemma default_log_ends: "\<exists>x. default_rust_log = x @ ''talpid_core=debug,,''"
  by (simp add: default_rust_log_def log_level_def DEBUG_CRATES_def WARN_CRATES_def ERROR_CRATES_def INFO_CRATES_def)

section \<open>Limits and groups (macos.rs)\<close>

record rlimit =
  rlim_cur :: "64 word"
  rlim_max :: "64 word"

definition INCREASED_FILEHANDLE_LIMIT :: "64 word" where
  "INCREASED_FILEHANDLE_LIMIT = 1024"

definition bump_filehandle_limit :: "int \<Rightarrow> int \<Rightarrow> rlimit \<Rightarrow> rlimit" where
  \<comment> \<open>the statuses of getrlimit and setrlimit, and the limits of the process\<close>
  "bump_filehandle_limit got put l =
     (if got \<noteq> 0 then l
      else if rlim_cur l \<ge> INCREASED_FILEHANDLE_LIMIT then l
      else if put \<noteq> 0 then l
      else l\<lparr>rlim_cur := INCREASED_FILEHANDLE_LIMIT\<rparr>)"

lemma bump_never_lowers: "rlim_cur l \<le> rlim_cur (bump_filehandle_limit got put l)"
  by (auto simp: bump_filehandle_limit_def not_le intro: less_imp_le)

datatype io_error = IoNotFound | IoOther int

definition EXCLUSION_GROUP :: string where
  "EXCLUSION_GROUP = ''modvpn-exclusion''"

record mac_world =
  mw_getgrnam :: "string \<Rightarrow> 32 word option"
  mw_setgid :: "32 word \<Rightarrow> int"  \<comment> \<open>zero, or the error number\<close>

definition get_group_id :: "mac_world \<Rightarrow> string \<Rightarrow> (32 word, io_error) res" where
  "get_group_id w name = ok_or IoNotFound (mw_getgrnam w name)"

definition get_exclusion_gid :: "mac_world \<Rightarrow> (32 word, io_error) res" where
  "get_exclusion_gid w = get_group_id w EXCLUSION_GROUP"

definition set_gid :: "mac_world \<Rightarrow> 32 word \<Rightarrow> (32 word option, unit, io_error) prog" where
  \<comment> \<open>the state is the group the process has set\<close>
  "set_gid w gid =
     (if mw_setgid w gid = 0 then writes (\<lambda>_. Some gid) else give (Err (IoOther (mw_setgid w gid))))"

definition set_exclusion_gid :: "mac_world \<Rightarrow> (32 word option, 32 word, io_error) prog" where
  "set_exclusion_gid w =
     and_then (give (get_exclusion_gid w)) (\<lambda>gid.
     and_then (set_gid w gid) (\<lambda>_. ret gid))"

lemma exclusion_gid_set: "set_exclusion_gid w s = (Ok gid, s') \<Longrightarrow> s' = Some gid \<and> mw_getgrnam w EXCLUSION_GROUP = Some gid"
  by (cases "mw_getgrnam w EXCLUSION_GROUP")
    (auto simp: set_exclusion_gid_def get_exclusion_gid_def get_group_id_def set_gid_def prog_simps split: if_splits)

lemma exclusion_gid_unset: "set_exclusion_gid w s = (Err e, s') \<Longrightarrow> s' = s"
  by (cases "mw_getgrnam w EXCLUSION_GROUP")
    (auto simp: set_exclusion_gid_def get_exclusion_gid_def get_group_id_def set_gid_def prog_simps split: if_splits)

section \<open>The old socket (cleanup.rs)\<close>

definition remove_old_socket_file :: "config \<Rightarrow> (unit, io_error) res \<Rightarrow> string list \<Rightarrow> string list" where
  \<comment> \<open>what it logs as an error; a file that is not there is none\<close>
  "remove_old_socket_file c r log = (case r of
      Err e \<Rightarrow> if e \<noteq> IoNotFound then log @ [''Failed to remove old socket file '' @ cfg_socket_path c] else log
    | _ \<Rightarrow> log)"

section \<open>What the tunnel is started with (lib.rs)\<close>

datatype transport_protocol = Udp | Tcp

record allowed_endpoint =
  ae_clients :: "string list"  \<comment> \<open>on Windows only\<close>
  ae_address :: ip_addr
  ae_port :: "16 word"
  ae_protocol :: transport_protocol

record initial_tunnel_state =
  its_allow_lan :: bool
  its_block_when_disconnected :: bool
  its_dns_servers :: "ipv4 list option"
  its_allowed_endpoint :: allowed_endpoint
  its_reset_firewall :: bool

definition daemon_allowed_endpoint :: "bool \<Rightarrow> string \<Rightarrow> config \<Rightarrow> allowed_endpoint" where
  "daemon_allowed_endpoint windows exe c =
     \<lparr>ae_clients = (if windows then [exe] else []), ae_address = cfg_allowed_endpoint_ipv4 c,
       ae_port = 44444, ae_protocol = Tcp\<rparr>"

definition daemon_tunnel_state :: "bool \<Rightarrow> string \<Rightarrow> config \<Rightarrow> initial_tunnel_state" where
  "daemon_tunnel_state windows exe c =
     \<lparr>its_allow_lan = True, its_block_when_disconnected = False,
       its_dns_servers = Some [ipv4_of_octets 1 1 1 1],
       its_allowed_endpoint = daemon_allowed_endpoint windows exe c, its_reset_firewall = True\<rparr>"

section \<open>The channel of the daemon (daemon.rs)\<close>

definition event_send :: "bool \<Rightarrow> daemon_event \<Rightarrow> (daemon_event list, unit, daemon_error) prog" where
  \<comment> \<open>the receiver is there until the daemon's task has ended\<close>
  "event_send there e = (if there then writes (\<lambda>m. m @ [e]) else give (Err DaemonUnavailable))"

definition command_send :: "bool \<Rightarrow> daemon_command \<Rightarrow> (daemon_event list, unit, daemon_error) prog" where
  "command_send there c = event_send there (EvCommand c)"

definition register_shutdown :: "bool \<Rightarrow> shutdown \<Rightarrow> (daemon_event list, unit, daemon_error) prog" where
  \<comment> \<open>the task: it waits for the notice, and passes it on as an event; a failure is only logged\<close>
  "register_shutdown there s = (case shutdown_recv s of
      Some s' \<Rightarrow> attempt (event_send there EvShutdown) (\<lambda>_. ret ())
    | None \<Rightarrow> ret ())"

lemma notice_becomes_event:
  "s \<in> set (signal_received m) \<Longrightarrow> register_shutdown True s q = (Ok (), q @ [EvShutdown])"
  using signal_reaches_all [of m] by (auto simp: register_shutdown_def event_send_def prog_simps)

section \<open>The entry point (main.rs)\<close>

datatype exit_code = ExitSuccess | ExitFailure

definition main_exit :: "(unit, string) res \<Rightarrow> (unit, string) res \<Rightarrow> (unit, string) res \<Rightarrow> (exit_code, string) res" where
  \<comment> \<open>logging, the runtime, and what \<open>run\_modvpn\<close> returns\<close>
  "main_exit logging runtime run = (case logging of
      Err e \<Rightarrow> Ok ExitFailure
    | Panic m \<Rightarrow> Panic m
    | Ok _ \<Rightarrow> (case runtime of
        Err e \<Rightarrow> Ok ExitFailure
      | Panic m \<Rightarrow> Panic m
      | Ok _ \<Rightarrow> (case run of
          Ok _ \<Rightarrow> Ok ExitSuccess
        | Err e \<Rightarrow> Ok ExitFailure
        | Panic m \<Rightarrow> Panic m)))"

text \<open>A daemon that was created exits with success, however its task ends.\<close>

lemma exit_success_iff:
  "main_exit logging runtime (run_modvpn_inner L w es s) = Ok ExitSuccess \<longleftrightarrow>
     is_ok logging \<and> is_ok runtime \<and> is_ok (fst (create_daemon L w s))"
  by (cases logging; cases runtime; cases "create_daemon L w s"; cases "fst (create_daemon L w s)")
    (auto simp: main_exit_def run_modvpn_inner_def split: res.split)

end
