(* ===== verification/Ui_Shell.thy ===== *)
theory Ui_Shell
  imports Ui Config
begin

text \<open>
  The desktop client around its commands: the events of the window and of macOS's menu, and the
  handlers the window may invoke (modvpn-ui/src-tauri/src/main.rs), the files it opens
  (commands/file\_ops.rs) and the notifications of the desktop (commands/desktop\_notification.rs).
\<close>

section \<open>Window and menu (main.rs)\<close>

datatype window_event = CloseRequested | OtherWindowEvent

fun on_window_event :: "window_event \<Rightarrow> (ui_app, bool, ui_error) prog" where
  \<comment> \<open>closing only hides the window; the result says whether the close is prevented\<close>
  "on_window_event CloseRequested = and_then (writes toggle_window_visibility) (\<lambda>_. ret True)"
| "on_window_event OtherWindowEvent = ret False"

definition on_menu_event :: "lib \<Rightarrow> ui_world \<Rightarrow> string \<Rightarrow> (ui_app, bool, ui_error) prog" where
  \<comment> \<open>the result says whether the application exits\<close>
  "on_menu_event L w i =
     (if i = ''macos_quit'' then attempt (ui_disconnect L w) (\<lambda>_. ret True) else ret False)"

datatype app_menu_item =
    NativeCopy | NativePaste | NativeSelectAll | NativeCut | NativeSeparator | NativeCloseWindow
  | CustomItem string string string  \<comment> \<open>id, title, accelerator\<close>

definition macos_menu :: "(string \<times> app_menu_item list) list" where
  "macos_menu = [(''modvpn'', [NativeCopy, NativePaste, NativeSelectAll, NativeCut, NativeSeparator,
     NativeCloseWindow, CustomItem ''macos_quit'' ''Quit'' ''Cmd+Q''])]"

definition invoke_handlers :: "string list" where
  "invoke_handlers = [''is_daemon_online'', ''is_signed_in'', ''sign_in'', ''sign_out'', ''locations'',
     ''recent_locations'', ''connect'', ''disconnect'', ''get_vpn_status'', ''notifications'',
     ''ack_notification'', ''current_app_version'', ''update_available'', ''send_desktop_notification'',
     ''open_license'', ''open_log_file'']"

datatype log_filter = FilterInfo | FilterDebug

record app_setup =
  app_menu :: "(string \<times> app_menu_item list) list option"
  app_state :: ui_app
  app_handlers :: "string list"
  app_log_levels :: "(string \<times> log_filter) list"
  app_log_level :: log_filter

definition app_build :: "platform \<Rightarrow> app_setup" where
  \<comment> \<open>what the builder is given; the default tray is part of the first state\<close>
  "app_build pf = \<lparr>app_menu = (if pf = OnMacOs then Some macos_menu else None), app_state = ui_app_new,
     app_handlers = invoke_handlers, app_log_levels = [(''h2'', FilterInfo), (''tower'', FilterInfo)],
     app_log_level = FilterDebug\<rparr>"

definition ui_main :: "figment \<Rightarrow> platform \<Rightarrow> (app_setup \<Rightarrow> (unit, string) res) \<Rightarrow> (config_cells, unit, 'e) prog" where
  \<comment> \<open>the configuration is settled first; \<open>run\<close> of tauri is an argument\<close>
  "ui_main F pf run =
     and_then (get_config F) (\<lambda>_. expect ''error while running tauri application'' (give (run (app_build pf))))"

lemma ui_main_settles:
  assumes "ui_main F pf run s = (Ok () :: (unit, 'e) res, s')"
  shows "\<exists>c. settled_cells c s'"
proof -
  obtain c s1 where "get_config_at F unix_places s = (Ok c :: (config, 'e) res, s1)" and same: "s1 = s'"
    using assms by (cases "run (app_build pf)")
      (auto simp: ui_main_def get_config_def and_then_Ok_iff expect_def give_def)
  from config_settles [OF this(1)] same show ?thesis by blast
qed

text \<open>Every item of the menu that is the program's own has its handler: it exits.\<close>

lemma menu_handled:
  assumes "(m, items) \<in> set macos_menu" and "CustomItem i t k \<in> set items"
    and "\<not> is_panic (fst (ui_disconnect L w a))"
  shows "fst (on_menu_event L w i a) = Ok True"
  using assms by (cases "ui_disconnect L w a"; cases "fst (ui_disconnect L w a)")
    (auto simp: macos_menu_def on_menu_event_def attempt_def ret_def)

section \<open>Files (file\_ops.rs)\<close>

record shell_world =
  sw_desktop :: "string option"
  sw_copy :: bool  \<comment> \<open>copying succeeds\<close>

record shell =
  sh_copied :: "(string \<times> string) list"
  sh_opened :: "string list"

definition open_path :: "string \<Rightarrow> (shell, unit, ui_error) prog" where
  \<comment> \<open>\<open>shell::open\<close>; its result is dropped\<close>
  "open_path p = writes (\<lambda>s. s\<lparr>sh_opened := sh_opened s @ [p]\<rparr>)"

definition copy_to_desktop_and_open :: "shell_world \<Rightarrow> string \<Rightarrow> (shell, unit, ui_error) prog" where
  "copy_to_desktop_and_open w src = (case sw_desktop w of
      Some dir \<Rightarrow>
        and_then (give (unwrap (file_name src))) (\<lambda>filename.
          let new_path = path_join dir filename in
          if sw_copy w
          then and_then (writes (\<lambda>s. s\<lparr>sh_copied := sh_copied s @ [(src, new_path)]\<rparr>)) (\<lambda>_. open_path new_path)
          else open_path src)
    | None \<Rightarrow> open_path src)"

definition open_license :: "platform \<Rightarrow> config \<Rightarrow> shell_world \<Rightarrow> (shell, unit, ui_error) prog" where
  "open_license pf c w = copy_to_desktop_and_open w (license_file_path pf c)"

definition open_log_file :: "config \<Rightarrow> shell_world \<Rightarrow> (shell, unit, ui_error) prog" where
  "open_log_file c w = copy_to_desktop_and_open w (daemon_log_file_full_path c)"

definition send_desktop_notification ::
    "platform \<Rightarrow> (string \<Rightarrow> string \<Rightarrow> string \<Rightarrow> (unit, string) res) \<Rightarrow> string \<Rightarrow> string \<Rightarrow> (unit, string) res" where
  \<comment> \<open>\<open>show\<close> is the platform's, of title, body and icon\<close>
  "send_desktop_notification pf show title body =
     map_err (\<lambda>e. ''failed to send desktop notification'') (show title body (icon_path pf))"

text \<open>
  Whatever is configured, a file that has a name is opened: the copy on the desktop under the same
  name, or the file itself.
\<close>

lemma opens_file:
  assumes "file_name src = Some n"
  shows "\<exists>p s'. copy_to_desktop_and_open w src s = (Ok (), s') \<and> sh_opened s' = sh_opened s @ [p]
     \<and> (p = src \<or> (\<exists>dir. sw_desktop w = Some dir \<and> p = path_join dir n \<and> sh_copied s' = sh_copied s @ [(src, p)]))"
  using assms by (cases "sw_desktop w") (auto simp: copy_to_desktop_and_open_def open_path_def prog_simps Let_def)

lemma opens_log:
  assumes "CHR ''/'' \<notin> set (cfg_daemon_log_filename c)" and "cfg_daemon_log_filename c \<notin> {[], ''.'', ''..''}"
  shows "\<exists>s'. open_log_file c w s = (Ok (), s')"
  using opens_file [OF log_file_name [OF assms], of w s] unfolding open_log_file_def by blast

section \<open>The tray says what a click on it does\<close>

definition title_ok :: "ui_app \<Rightarrow> bool" where
  \<comment> \<open>\<open>Hide\<close> while the window is visible, \<open>Show\<close> while it is not\<close>
  "title_ok a \<longleftrightarrow> (\<forall>t e. MenuItem ''hide_or_show'' t e \<in> set (ua_menu a) \<longrightarrow>
     t = (if ui_window_visible (ua_state a) then ''Hide'' else ''Show''))"

lemma title_ok_new: "title_ok ui_app_new"
  by (simp add: title_ok_def ui_app_new_def ui_default_def create_default_system_tray_menu_def hide_or_show_item_def)

lemma retitled: "MenuItem i t e \<in> set (map (retitle i u) ms) \<Longrightarrow> t = u"
proof (induction ms)
  case (Cons m ms)
  then show ?case by (cases m) (auto split: if_splits)
qed simp

lemma title_ok_toggle [simp]: "title_ok (toggle_window_visibility a)"
  by (auto simp: title_ok_def toggle_window_visibility_def Let_def simp del: set_map dest: retitled)

lemma title_ok_refresh [simp]: "title_ok (run_tray_refresh a)"
  by (auto simp: title_ok_def run_tray_refresh_def create_system_tray_menu_def create_system_tray_menu_internal_def
      create_default_system_tray_menu_def hide_or_show_item_def split: option.splits if_splits)

lemma title_ok_other [simp]:
  "title_ok (start_event_forwarder a) = title_ok a" "title_ok (stop_event_forwarder a) = title_ok a"
  "title_ok (update_app_state v a) = title_ok a" "title_ok (emit e a) = title_ok a"
  "title_ok (a\<lparr>ua_requests := qs\<rparr>) = title_ok a"
  "title_ok (a\<lparr>ua_state := (ua_state a)\<lparr>ui_locations := ls\<rparr>\<rparr>) = title_ok a"
  by (simp_all add: title_ok_def start_event_forwarder_def stop_event_forwarder_def update_app_state_def
      update_system_tray_def emit_def split: option.split)

lemma title_request [keeps_intros]: "keeps title_ok (ui_request w q r)"
  by (simp add: keeps_def ui_request_def)

lemma title_command: "keeps title_ok (run_ui_command L m)"
  by (cases "(L, m)" rule: run_ui_command.cases)
    (auto simp: ui_sign_in_def ui_sign_out_def ui_is_signed_in_def ui_locations_cmd_def
      ui_recent_locations_def ui_notifications_def ui_ack_notification_def ui_connect_def
      ui_disconnect_def ui_get_vpn_status_def ui_update_available_def ui_is_daemon_online_def
      handle_system_tray_event_def ignore_def Let_def intro!: keeps_intros)

lemma title_forward: "keeps title_ok (forward_event L e)"
  by (cases e) (auto intro!: keeps_intros split: res.split)

lemma title_window: "keeps title_ok (on_window_event e)"
  by (cases e) (auto intro!: keeps_intros)

lemma title_menu: "keeps title_ok (on_menu_event L w i)"
  unfolding on_menu_event_def ui_disconnect_def by (auto intro!: keeps_intros)

datatype ui_step =
    Invoked ui_world ui_command
  | Forwarded proto_daemon_event
  | TrayRefreshed
  | WindowEvent window_event
  | MenuClicked ui_world string

fun ui_step_run :: "lib \<Rightarrow> ui_step \<Rightarrow> ui_app \<Rightarrow> ui_app" where
  \<comment> \<open>what any of them leaves of the state; a panic is confined to its task\<close>
  "ui_step_run L (Invoked w c) a = snd (run_ui_command L (w, c) a)"
| "ui_step_run L (Forwarded e) a = snd (forward_event L e a)"
| "ui_step_run L TrayRefreshed a = run_tray_refresh a"
| "ui_step_run L (WindowEvent e) a = snd (on_window_event e a)"
| "ui_step_run L (MenuClicked w i) a = snd (on_menu_event L w i a)"

lemma title_step: "title_ok a \<Longrightarrow> title_ok (ui_step_run L x a)"
  using title_command title_forward title_window title_menu
  by (cases x) (auto simp: keeps_def)

lemma title_always: "title_ok (fold (ui_step_run L) xs ui_app_new)"
proof -
  have "title_ok a \<Longrightarrow> title_ok (fold (ui_step_run L) xs a)" for a
    by (induction xs arbitrary: a) (auto intro: title_step)
  then show ?thesis using title_ok_new .
qed

end
