(* ===== verification/Closing.thy ===== *)
theory Closing
  imports Lifecycle Daemon_Replies Controller
begin

text \<open>
  How the daemon closes: the notice of shutdown.rs, \<open>run\<close> and \<open>handle_shutdown\<close>
  of modvpn-daemon/src/daemon.rs, and the graceful end of the controller's server
  (modvpn-daemon/src/controller.rs, modvpn-controller/src/lib.rs), with the calls of the clients that
  are under way. The daemon's own steps are those of \<open>Daemon\<close>. Here every command in the mailbox
  carries the number of the call that waits for its answer, so that it can be told which calls the
  closing daemon leaves behind. The steps are a partial function of a label; the label resolves what
  the scheduler and the clients choose.
\<close>

section \<open>State\<close>

datatype stage =
    Serving  \<comment> \<open>the loop of \<open>run\<close>\<close>
  | EndingSession  \<comment> \<open>\<open>handle\_shutdown\<close> is entered\<close>
  | AtStep shutdown_step  \<comment> \<open>what it does next\<close>
  | Finished  \<comment> \<open>the daemon's task has ended, and its receiver is dropped\<close>

record closing =
  cl_daemon :: daemon
  cl_stage :: stage
  cl_mailbox :: "(nat option \<times> daemon_event) list"
  cl_daemon_notice :: shutdown
  cl_controller_notice :: shutdown
  cl_checking :: "(nat \<times> rpc_request) list"  \<comment> \<open>the middleware waits for the device service\<close>
  cl_waiting :: "nat list"  \<comment> \<open>calls inside \<open>wait\_for\_result\<close>\<close>
  cl_streams :: "nat list"  \<comment> \<open>event streams that are served\<close>
  cl_tasks :: "nat list"  \<comment> \<open>calls whose sender a spawned task holds\<close>
  cl_subscribers :: "nat list"  \<comment> \<open>\<open>events\_subscribers\<close>\<close>
  cl_controller_done :: bool  \<comment> \<open>\<open>controller\_server\_handle\<close> is ready\<close>

definition closing_start :: "daemon \<Rightarrow> closing" where
  "closing_start dm = \<lparr>cl_daemon = dm, cl_stage = Serving, cl_mailbox = [],
     cl_daemon_notice = shutdown_new, cl_controller_notice = shutdown_new, cl_checking = [],
     cl_waiting = [], cl_streams = [], cl_tasks = [], cl_subscribers = [], cl_controller_done = False\<rparr>"

definition call_numbers :: "closing \<Rightarrow> nat list" where
  \<comment> \<open>in use: under way, or still carried by a sender\<close>
  "call_numbers s = map fst (cl_checking s) @ cl_waiting s @ cl_streams s @ cl_tasks s @ cl_subscribers s
     @ List.map_filter fst (cl_mailbox s)"

definition accepting :: "closing \<Rightarrow> bool" where
  \<comment> \<open>the server takes new calls until its notice resolves\<close>
  "accepting s \<longleftrightarrow> \<not> sd_shutdown (cl_controller_notice s)"

section \<open>Steps\<close>

datatype closing_label =
    SignalGiven
  | NoticeForwarded
  | ControllerHears
  | CallArrives nat rpc_request
  | CallAdmitted nat
  | CallRefused nat
  | OtherArrives daemon_event
  | DaemonTakes daemon_world
  | SessionEnded
  | StepDone
  | TaskAnswers nat
  | SenderDropped nat
  | StreamEnds nat
  | ClientLeaves nat
  | ControllerFinishes

definition drop_call :: "nat \<Rightarrow> closing \<Rightarrow> closing" where
  "drop_call n s = s\<lparr>cl_checking := filter (\<lambda>c. fst c \<noteq> n) (cl_checking s),
     cl_waiting := removeAll n (cl_waiting s), cl_streams := removeAll n (cl_streams s)\<rparr>"

definition daemon_gone :: "daemon \<Rightarrow> closing \<Rightarrow> closing" where
  \<comment> \<open>\<open>self\<close> is dropped, and with it what is left in the channel\<close>
  "daemon_gone dm s = s\<lparr>cl_daemon := dm, cl_stage := Finished, cl_mailbox := []\<rparr>"

definition daemon_ran :: "daemon \<Rightarrow> closing \<Rightarrow> closing" where
  \<comment> \<open>a broadcast keeps the subscribers that still listen\<close>
  "daemon_ran dm s = s\<lparr>cl_daemon := dm, cl_subscribers :=
     (if length (dm_broadcasts dm) = length (dm_broadcasts (cl_daemon s)) then cl_subscribers s
      else filter (\<lambda>n. n \<in> set (cl_streams s)) (cl_subscribers s))\<rparr>"

definition settle_call :: "nat option \<Rightarrow> daemon \<Rightarrow> daemon \<Rightarrow> closing \<Rightarrow> closing" where
  \<comment> \<open>where the sender of the handled command went\<close>
  "settle_call k old dm s = (case k of
      None \<Rightarrow> s
    | Some n \<Rightarrow>
        if length (dm_replies dm) \<noteq> length (dm_replies old) then s\<lparr>cl_waiting := removeAll n (cl_waiting s)\<rparr>
        else if List.map_filter kind_of_task (drop (length (dm_tasks old)) (dm_tasks dm)) \<noteq> []
        then s\<lparr>cl_tasks := cl_tasks s @ [n]\<rparr>
        else s)"

fun after_step :: "shutdown_step \<Rightarrow> stage" where
  "after_step JoinTunnel = AtStep StopSessionService"
| "after_step StopSessionService = AtStep ClearSubscribers"
| "after_step ClearSubscribers = AtStep JoinController"
| "after_step JoinController = AtStep StopDeviceService"
| "after_step StopDeviceService = Finished"

definition admit_call :: "nat \<Rightarrow> rpc_request \<Rightarrow> closing \<Rightarrow> closing" where
  \<comment> \<open>the handler of the service: a command goes to the daemon's channel, a stream's sender to the
     subscribers; with the receiver dropped the call ends with an internal error, and \<open>get\_account\_info\<close> panics\<close>
  "admit_call n q s = (case command_of_request q of
      Some c \<Rightarrow>
        if cl_stage s = Finished then s
        else s\<lparr>cl_mailbox := cl_mailbox s @ [(Some n, EvCommand c)], cl_waiting := cl_waiting s @ [n]\<rparr>
    | None \<Rightarrow>
        if q = WatchEvents
        then s\<lparr>cl_streams := cl_streams s @ [n], cl_subscribers := cl_subscribers s @ [n]\<rparr>
        else s)"

definition take_event :: "lib \<Rightarrow> daemon_world \<Rightarrow> nat option \<Rightarrow> daemon_event \<Rightarrow> closing \<Rightarrow> closing" where
  "take_event L w k e s =
     (if e = EvShutdown then s\<lparr>cl_stage := EndingSession\<rparr>
      else (case handle_event L (w, e) (cl_daemon s) of
          (Panic m, dm) \<Rightarrow> daemon_gone dm s
        | (_, dm) \<Rightarrow> settle_call k (cl_daemon s) dm (daemon_ran dm s)))"

definition queued :: "(nat option \<times> daemon_event) list \<Rightarrow> nat \<Rightarrow> bool" where
  "queued es n \<longleftrightarrow> Some n \<in> fst ` set es"

lemma queued_simps [simp]:
  "queued [] n = False" "queued ((k, e) # es) n = (k = Some n \<or> queued es n)"
  "queued (es @ es') n = (queued es n \<or> queued es' n)"
  by (auto simp: queued_def)

definition pass_step :: "shutdown_step \<Rightarrow> closing \<Rightarrow> closing" where
  "pass_step x s = (case do_shutdown_step x (cl_daemon s) of (r :: (unit, unit) res, dm) \<Rightarrow>
     if x = StopDeviceService then daemon_gone dm s
     else s\<lparr>cl_daemon := dm, cl_stage := after_step x,
       cl_subscribers := (if x = ClearSubscribers then [] else cl_subscribers s)\<rparr>)"

fun closing_step :: "lib \<Rightarrow> closing_label \<Rightarrow> closing \<Rightarrow> closing option" where
  \<comment> \<open>\<open>serve\_with\_incoming\_shutdown\<close> returns when the calls it has taken have ended; the
     tunnel, the session service and the device service acknowledge their end\<close>
  "closing_step L SignalGiven s =
     (if sd_notice (cl_daemon_notice s) then None
      else (case signal_received [cl_daemon_notice s, cl_controller_notice s] of
          [d, c] \<Rightarrow> Some (s\<lparr>cl_daemon_notice := d, cl_controller_notice := c\<rparr>)
        | _ \<Rightarrow> None))"
| "closing_step L NoticeForwarded s =
     (if sd_shutdown (cl_daemon_notice s) then None
      else (case shutdown_recv (cl_daemon_notice s) of
          None \<Rightarrow> None
        | Some d \<Rightarrow> Some (s\<lparr>cl_daemon_notice := d, cl_mailbox :=
            (if cl_stage s = Finished then [] else cl_mailbox s @ [(None, EvShutdown)])\<rparr>)))"
| "closing_step L ControllerHears s =
     (if sd_shutdown (cl_controller_notice s) then None
      else (case shutdown_recv (cl_controller_notice s) of
          None \<Rightarrow> None
        | Some c \<Rightarrow> Some (s\<lparr>cl_controller_notice := c\<rparr>)))"
| "closing_step L (CallArrives n c) s =
     (if accepting s \<and> n \<notin> set (call_numbers s)
      then Some (s\<lparr>cl_checking := cl_checking s @ [(n, c)]\<rparr>) else None)"
| "closing_step L (CallAdmitted n) s = (case map_of (cl_checking s) n of
      None \<Rightarrow> None
    | Some c \<Rightarrow> Some (admit_call n c (s\<lparr>cl_checking := filter (\<lambda>c. fst c \<noteq> n) (cl_checking s)\<rparr>)))"
| "closing_step L (CallRefused n) s = (case map_of (cl_checking s) n of
      None \<Rightarrow> None
    | Some q \<Rightarrow>
        if rpc_path q \<in> set ALLOWED_UNAUTHORIZED_PATHS then None
        else Some (s\<lparr>cl_checking := filter (\<lambda>c. fst c \<noteq> n) (cl_checking s)\<rparr>))"
| "closing_step L (OtherArrives e) s =
     (if due e = {#} \<and> e \<noteq> EvShutdown \<and> cl_stage s \<noteq> Finished
      then Some (s\<lparr>cl_mailbox := cl_mailbox s @ [(None, e)]\<rparr>) else None)"
| "closing_step L (DaemonTakes w) s = (case cl_mailbox s of
      (k, e) # rest \<Rightarrow>
        if cl_stage s = Serving then Some (take_event L w k e (s\<lparr>cl_mailbox := rest\<rparr>)) else None
    | [] \<Rightarrow> None)"
| "closing_step L SessionEnded s =
     (if cl_stage s = EndingSession
      then Some (case on_disconnect_inner L ''daemon shutdown'' (cl_daemon s) of
          (Panic m, dm) \<Rightarrow> daemon_gone dm s
        | (_, dm) \<Rightarrow> (daemon_ran dm s)\<lparr>cl_stage := AtStep JoinTunnel\<rparr>)
      else None)"
| "closing_step L StepDone s = (case cl_stage s of
      AtStep x \<Rightarrow>
        if x = JoinController \<and> \<not> cl_controller_done s then None
        else Some (pass_step x s)
    | _ \<Rightarrow> None)"
| "closing_step L (TaskAnswers n) s =
     (if n \<in> set (cl_tasks s)
      then Some (s\<lparr>cl_tasks := removeAll n (cl_tasks s), cl_waiting := removeAll n (cl_waiting s)\<rparr>) else None)"
| "closing_step L (SenderDropped n) s =
     (if n \<in> set (cl_waiting s) \<and> n \<notin> set (cl_tasks s) \<and> \<not> queued (cl_mailbox s) n
      then Some (s\<lparr>cl_waiting := removeAll n (cl_waiting s)\<rparr>) else None)"
| "closing_step L (StreamEnds n) s =
     (if n \<in> set (cl_streams s) \<and> n \<notin> set (cl_subscribers s)
      then Some (s\<lparr>cl_streams := removeAll n (cl_streams s)\<rparr>) else None)"
| "closing_step L (ClientLeaves n) s =
     (if n \<in> fst ` set (cl_checking s) \<union> set (cl_waiting s) \<union> set (cl_streams s)
      then Some (drop_call n s) else None)"
| "closing_step L ControllerFinishes s =
     (if \<not> accepting s \<and> \<not> cl_controller_done s \<and> cl_checking s = [] \<and> cl_waiting s = [] \<and> cl_streams s = []
      then Some (s\<lparr>cl_controller_done := True\<rparr>) else None)"

abbreviation closing_run :: "lib \<Rightarrow> closing_label list \<Rightarrow> closing \<Rightarrow> closing option" where
  "closing_run L \<equiv> run_steps (closing_step L)"

fun own_label :: "closing_label \<Rightarrow> bool" where
  \<comment> \<open>what the daemon's process does by itself, and the tasks it waits for\<close>
  "own_label SignalGiven = False"
| "own_label (CallArrives n c) = False"
| "own_label (OtherArrives e) = False"
| "own_label (ClientLeaves n) = False"
| "own_label l = True"

section \<open>Every step of its own brings the process closer to its end\<close>

fun stage_weight :: "stage \<Rightarrow> nat" where
  "stage_weight Serving = 7"
| "stage_weight EndingSession = 6"
| "stage_weight (AtStep JoinTunnel) = 5"
| "stage_weight (AtStep StopSessionService) = 4"
| "stage_weight (AtStep ClearSubscribers) = 3"
| "stage_weight (AtStep JoinController) = 2"
| "stage_weight (AtStep StopDeviceService) = 1"
| "stage_weight Finished = 0"

definition unless_over :: "bool \<Rightarrow> nat \<Rightarrow> nat" where
  "unless_over b k = (if b then 0 else k)"

lemma unless_over_simps [simp]: "unless_over True k = 0" "unless_over False k = k"
  by (simp_all add: unless_over_def)

definition closing_weight :: "closing \<Rightarrow> nat" where
  "closing_weight s = stage_weight (cl_stage s) + 2 * length (cl_mailbox s) + 4 * length (cl_checking s)
     + length (cl_waiting s) + length (cl_streams s) + length (cl_tasks s)
     + unless_over (sd_shutdown (cl_daemon_notice s)) 3 + unless_over (sd_shutdown (cl_controller_notice s)) 1
     + unless_over (cl_controller_done s) 1"

lemma after_step_weight: "stage_weight (after_step x) < stage_weight (AtStep x)"
  by (cases x) simp_all

lemma filter_shorter: "n \<in> fst ` set xs \<Longrightarrow> length (filter (\<lambda>c. fst c \<noteq> n) xs) < length xs"
  by (auto intro: length_filter_less)

lemma removeAll_length: "length xs = length (removeAll n xs) + count_list xs n"
  by (induction xs) auto

lemma settle_weight: "closing_weight (settle_call k old dm s) \<le> Suc (closing_weight s)"
proof (cases k)
  case (Some n)
  then show ?thesis
    using removeAll_length [of "cl_waiting s" n] by (auto simp: settle_call_def closing_weight_def)
qed (simp add: settle_call_def)

lemma ran_simps [simp]:
  "cl_daemon (daemon_ran dm s) = dm"
  "cl_stage (daemon_ran dm s) = cl_stage s"
  "cl_mailbox (daemon_ran dm s) = cl_mailbox s"
  "cl_daemon_notice (daemon_ran dm s) = cl_daemon_notice s"
  "cl_controller_notice (daemon_ran dm s) = cl_controller_notice s"
  "cl_checking (daemon_ran dm s) = cl_checking s"
  "cl_waiting (daemon_ran dm s) = cl_waiting s"
  "cl_streams (daemon_ran dm s) = cl_streams s"
  "cl_tasks (daemon_ran dm s) = cl_tasks s"
  "cl_controller_done (daemon_ran dm s) = cl_controller_done s"
  by (simp_all add: daemon_ran_def)

lemma gone_simps [simp]:
  "cl_daemon (daemon_gone dm s) = dm"
  "cl_stage (daemon_gone dm s) = Finished"
  "cl_mailbox (daemon_gone dm s) = []"
  "cl_daemon_notice (daemon_gone dm s) = cl_daemon_notice s"
  "cl_controller_notice (daemon_gone dm s) = cl_controller_notice s"
  "cl_checking (daemon_gone dm s) = cl_checking s"
  "cl_waiting (daemon_gone dm s) = cl_waiting s"
  "cl_streams (daemon_gone dm s) = cl_streams s"
  "cl_tasks (daemon_gone dm s) = cl_tasks s"
  "cl_controller_done (daemon_gone dm s) = cl_controller_done s"
  by (simp_all add: daemon_gone_def)

lemma settle_simps [simp]:
  "cl_daemon (settle_call k old dm s) = cl_daemon s"
  "cl_stage (settle_call k old dm s) = cl_stage s"
  "cl_mailbox (settle_call k old dm s) = cl_mailbox s"
  "cl_daemon_notice (settle_call k old dm s) = cl_daemon_notice s"
  "cl_controller_notice (settle_call k old dm s) = cl_controller_notice s"
  "cl_checking (settle_call k old dm s) = cl_checking s"
  "cl_streams (settle_call k old dm s) = cl_streams s"
  "cl_controller_done (settle_call k old dm s) = cl_controller_done s"
  by (simp_all add: settle_call_def split: option.split)

lemma ran_weight [simp]: "closing_weight (daemon_ran dm s) = closing_weight s"
  by (simp add: daemon_ran_def closing_weight_def)

lemma gone_weight: "closing_weight (daemon_gone dm s) + stage_weight (cl_stage s) \<le> closing_weight s"
  by (simp add: daemon_gone_def closing_weight_def)

lemma stage_weight_change:
  "stage_weight y < stage_weight (cl_stage s) \<Longrightarrow> closing_weight (s\<lparr>cl_stage := y\<rparr>) < closing_weight s"
  by (simp add: closing_weight_def)

lemma take_weight:
  assumes "cl_mailbox s = (k, e) # rest" and "cl_stage s = Serving"
  shows "closing_weight (take_event L w k e (s\<lparr>cl_mailbox := rest\<rparr>)) < closing_weight s"
proof -
  let ?s = "s\<lparr>cl_mailbox := rest\<rparr>"
  have lower: "closing_weight ?s + 2 = closing_weight s"
    using assms by (simp add: closing_weight_def)
  have gone: "closing_weight (daemon_gone dm ?s) < closing_weight s" for dm
    using gone_weight [of dm ?s] lower by simp
  have settled: "closing_weight (settle_call k old dm (daemon_ran dm ?s)) < closing_weight s" for old dm
    using settle_weight [of k old dm "daemon_ran dm ?s"] lower by simp
  show ?thesis
    using gone settled stage_weight_change [of EndingSession ?s] lower assms
    by (auto simp: take_event_def split: prod.split res.split)
qed

lemma admit_weight: "closing_weight (admit_call n q s) \<le> closing_weight s + 3"
  by (cases "command_of_request q") (simp_all add: admit_call_def closing_weight_def)

lemma own_step_lowers:
  assumes step: "closing_step L l s = Some s'" and own: "own_label l"
  shows "closing_weight s' < closing_weight s"
proof (cases l)
  case (CallAdmitted n)
  then obtain c where at: "map_of (cl_checking s) n = Some c" and s': "s' =
      admit_call n c (s\<lparr>cl_checking := filter (\<lambda>c. fst c \<noteq> n) (cl_checking s)\<rparr>)"
    using step by (auto split: option.splits)
  have "n \<in> fst ` set (cl_checking s)" using map_of_SomeD [OF at] by force
  from filter_shorter [OF this]
  have "closing_weight (s\<lparr>cl_checking := filter (\<lambda>c. fst c \<noteq> n) (cl_checking s)\<rparr>) + 4 \<le> closing_weight s"
    by (simp add: closing_weight_def)
  with admit_weight [of n c "s\<lparr>cl_checking := filter (\<lambda>c. fst c \<noteq> n) (cl_checking s)\<rparr>"] s'
  show ?thesis by simp
next
  case (CallRefused n)
  then obtain q where at: "map_of (cl_checking s) n = Some q"
    and s': "s' = s\<lparr>cl_checking := filter (\<lambda>c. fst c \<noteq> n) (cl_checking s)\<rparr>"
    using step by (auto split: option.splits if_splits)
  have "n \<in> fst ` set (cl_checking s)" using map_of_SomeD [OF at] by force
  from filter_shorter [OF this] s' show ?thesis by (simp add: closing_weight_def)
next
  case (DaemonTakes w)
  with step take_weight show ?thesis by (auto split: list.splits if_splits)
next
  case SessionEnded
  obtain r dm where run: "on_disconnect_inner L ''daemon shutdown'' (cl_daemon s) = (r, dm)" by fastforce
  have stage: "cl_stage s = EndingSession" using step SessionEnded by (simp split: if_splits)
  then have "closing_weight (daemon_gone dm s) < closing_weight s"
    and "closing_weight ((daemon_ran dm s)\<lparr>cl_stage := AtStep JoinTunnel\<rparr>) < closing_weight s"
    using gone_weight [of dm s] stage_weight_change [of "AtStep JoinTunnel" "daemon_ran dm s"]
    by simp_all
  with SessionEnded step run stage show ?thesis by (cases r) auto
next
  case StepDone
  then obtain x where "cl_stage s = AtStep x" using step by (auto split: stage.splits)
  with StepDone step after_step_weight [of x] show ?thesis
    by (auto simp: pass_step_def prog_simps closing_weight_def split: if_splits)
next
  case (TaskAnswers n)
  with step removeAll_length [of "cl_waiting s" n] length_removeAll_less [of n "cl_tasks s"] show ?thesis
    by (auto simp: closing_weight_def split: if_splits)
next
  case (SenderDropped n)
  with step length_removeAll_less [of n "cl_waiting s"] show ?thesis
    by (auto simp: closing_weight_def split: if_splits)
next
  case (StreamEnds n)
  with step length_removeAll_less [of n "cl_streams s"] show ?thesis
    by (auto simp: closing_weight_def split: if_splits)
next
  case NoticeForwarded
  with step show ?thesis
    by (auto simp: closing_weight_def shutdown_recv_def split: if_splits)
next
  case ControllerHears
  with step show ?thesis
    by (auto simp: closing_weight_def shutdown_recv_def split: if_splits)
next
  case ControllerFinishes
  with step show ?thesis by (auto simp: closing_weight_def split: if_splits)
qed (use own in simp_all)

section \<open>What holds from the start\<close>

definition numbered_events :: "(nat option \<times> daemon_event) list \<Rightarrow> bool" where
  \<comment> \<open>exactly the commands carry the sender of a call\<close>
  "numbered_events es \<longleftrightarrow> (\<forall>(k, e) \<in> set es. (k = None) = (due e = {#}))"

definition senders_held :: "closing \<Rightarrow> nat list" where
  "senders_held s = cl_tasks s @ List.map_filter fst (cl_mailbox s)"

definition held_once :: "nat list \<Rightarrow> nat list \<Rightarrow> bool" where
  \<comment> \<open>one number, one sender\<close>
  "held_once checking held \<longleftrightarrow> distinct (checking @ held)"

definition closing_ok :: "closing \<Rightarrow> bool" where
  "closing_ok s \<longleftrightarrow>
     numbered_events (cl_mailbox s)
     \<and> held_once (map fst (cl_checking s)) (senders_held s)
     \<and> (cl_stage s \<noteq> Finished \<longrightarrow> set (cl_waiting s) \<subseteq> set (senders_held s))
     \<and> (cl_stage s = Serving \<and> sd_shutdown (cl_daemon_notice s) \<longrightarrow> EvShutdown \<in> snd ` set (cl_mailbox s))
     \<and> sd_notice (cl_controller_notice s) = sd_notice (cl_daemon_notice s)
     \<and> (cl_stage s = Finished \<longrightarrow> cl_mailbox s = [])
     \<and> (cl_controller_done s \<longrightarrow> sd_shutdown (cl_controller_notice s) \<and> cl_checking s = [] \<and> cl_waiting s = [] \<and> cl_streams s = [])"

lemma start_ok: "closing_ok (closing_start dm)"
  by (simp add: closing_ok_def closing_start_def held_once_def numbered_events_def senders_held_def shutdown_new_def
      List.map_filter_simps)

lemma map_filter_append: "List.map_filter f (xs @ ys) = List.map_filter f xs @ List.map_filter f ys"
  by (simp add: List.map_filter_def)

lemma set_map_filter_fst: "set (List.map_filter fst es) = {n. queued es n}"
  by (force simp: List.map_filter_def queued_def)

text \<open>A handled command is answered, or its sender has gone into a task.\<close>

definition grown :: "daemon \<Rightarrow> daemon \<Rightarrow> bool" where
  "grown s0 s \<longleftrightarrow> (\<exists>rs. dm_replies s = dm_replies s0 @ rs) \<and> (\<exists>ts. dm_tasks s = dm_tasks s0 @ ts)"

lemma grown_effects [keeps_intros]:
  "keeps (grown s0) (spawn t)"
  "keeps (grown s0) (dm_reply r)"
  "keeps (grown s0) (to_state f)"
  "keeps (grown s0) (broadcast_dm b)"
  "keeps (grown s0) (send_tunnel_command c)"
  "keeps (grown s0) (in_dm_db p)"
  "keeps (grown s0) (on_db q)"
  by (auto simp: keeps_def grown_def prog_simps on_db_def send_tunnel_command_def split: prod.split)

lemma grown_helpers [keeps_intros]:
  "keeps (grown s0) (add_notification_dm n)"
  "keeps (grown s0) (set_vpn_status_dm v)"
  "keeps (grown s0) (update_tunnel_on_new_status v)"
  "keeps (grown s0) tunnel_command_on_disconnect"
  "keeps (grown s0) (end_session_dm L reason)"
  "keeps (grown s0) (client_connected_dm info)"
  unfolding add_notification_dm_def set_vpn_status_dm_def update_tunnel_on_new_status_def
    tunnel_command_on_disconnect_def end_session_dm_def client_connected_dm_def
  by (auto intro!: keeps_intros split: vpn_status.split)

lemma grown_inner [keeps_intros]:
  "keeps (grown s0) (on_connect_inner L w l)"
  "keeps (grown s0) (on_disconnect_inner L reason)"
proof -
  have "keeps (grown s0) (\<lambda>s. let (n, st) = g (dm_state s) in (Ok n, s\<lparr>dm_state := st\<rparr>))" for g
    by (auto simp: keeps_def grown_def split: prod.split)
  then show "keeps (grown s0) (on_connect_inner L w l)" "keeps (grown s0) (on_disconnect_inner L reason)"
    unfolding on_connect_inner_def connect_accepted_def connect_rejected_def on_disconnect_inner_def
    by (auto intro!: keeps_intros)
qed

lemma grown_command: "keeps (grown s0) (handle_command L w c)"
  by (cases c) (auto simp: on_is_authenticated_def on_account_sign_in_def on_account_sign_out_def
      unless_in_session_def on_list_locations_dm_def on_recent_locations_def on_connect_def respond_dm_def
      on_disconnect_def on_get_vpn_status_def on_get_notifications_def on_ack_notification_def
      on_latest_app_version_def intro!: keeps_intros)

lemma command_settled:
  assumes run: "handle_event L (w, EvCommand c) dm = (r, dm')" and calm: "\<not> is_panic r"
  shows "length (dm_replies dm') \<noteq> length (dm_replies dm)
     \<or> List.map_filter kind_of_task (drop (length (dm_tasks dm)) (dm_tasks dm')) \<noteq> []"
proof -
  have "grown dm dm'" using keepsD [OF grown_command _ run [simplified], of dm] by (simp add: grown_def)
  then obtain rs ts where rs: "dm_replies dm' = dm_replies dm @ rs" and ts: "dm_tasks dm' = dm_tasks dm @ ts"
    by (auto simp: grown_def)
  have "given dm' = add_mset (kind_of_command c) (given dm)"
    using command_given [of L w c dm] run calm by simp
  then have "mset (map kind_of_reply rs) + mset (List.map_filter kind_of_task ts) = {#kind_of_command c#}"
    by (simp add: given_def rs ts map_filter_append)
  then show ?thesis by (auto simp: rs ts)
qed

lemma due_empty: "due e = {#} \<longleftrightarrow> (\<forall>c. e \<noteq> EvCommand c)"
  by (cases e) auto

lemma held_snoc [simp]:
  "List.map_filter fst (es @ [(Some n, e)]) = List.map_filter fst es @ [n]"
  "List.map_filter fst (es @ [(None, e)]) = List.map_filter fst es"
  by (simp_all add: map_filter_append List.map_filter_simps)

lemma held_cons [simp]:
  "List.map_filter fst ((Some n, e) # es) = n # List.map_filter fst es"
  "List.map_filter fst ((None, e) # es) = List.map_filter fst es"
  by (simp_all add: List.map_filter_simps)

lemma gone_ok: "closing_ok s \<Longrightarrow> closing_ok (daemon_gone dm s)"
  by (auto simp: closing_ok_def held_once_def senders_held_def numbered_events_def List.map_filter_simps)

lemma ran_ok: "closing_ok s \<Longrightarrow> closing_ok (daemon_ran dm s)"
  by (simp add: closing_ok_def senders_held_def)

lemma take_ok:
  assumes ok: "closing_ok s" and box: "cl_mailbox s = (k, e) # rest" and at: "cl_stage s = Serving"
  shows "closing_ok (take_event L w k e (s\<lparr>cl_mailbox := rest\<rparr>))"
proof (cases k)
  case None
  have ok': "closing_ok (daemon_ran dm (s\<lparr>cl_mailbox := rest\<rparr>))" if "e \<noteq> EvShutdown" for dm
    using ok box at None that by (intro ran_ok) (auto simp: closing_ok_def held_once_def senders_held_def numbered_events_def)
  have "closing_ok (daemon_gone dm (s\<lparr>cl_mailbox := rest\<rparr>))" for dm
    using ok box at None by (auto simp: closing_ok_def held_once_def senders_held_def numbered_events_def List.map_filter_simps)
  moreover have "closing_ok (s\<lparr>cl_mailbox := rest, cl_stage := EndingSession\<rparr>)"
    using ok box at None by (auto simp: closing_ok_def held_once_def senders_held_def numbered_events_def)
  ultimately show ?thesis
    using ok' None by (simp add: take_event_def settle_call_def split: prod.split res.split)
next
  case (Some n)
  have "due e \<noteq> {#}" using ok box Some by (auto simp: closing_ok_def held_once_def numbered_events_def)
  then obtain c where e: "e = EvCommand c" by (auto simp: due_empty)
  obtain r dm where run: "handle_event L (w, EvCommand c) (cl_daemon s) = (r, dm)" by fastforce
  have gone: "closing_ok (daemon_gone dm (s\<lparr>cl_mailbox := rest\<rparr>))"
    using ok box at Some by (auto simp: closing_ok_def held_once_def senders_held_def numbered_events_def List.map_filter_simps)
  have "closing_ok (settle_call k (cl_daemon s) dm (daemon_ran dm (s\<lparr>cl_mailbox := rest\<rparr>)))"
    if "\<not> is_panic r"
    using command_settled [OF run that] ok box at Some e
    by (auto simp: settle_call_def closing_ok_def held_once_def senders_held_def numbered_events_def)
  with gone run e show ?thesis by (cases r) (simp_all add: take_event_def)
qed

lemma pass_ok: "closing_ok s \<Longrightarrow> cl_stage s = AtStep x \<Longrightarrow> closing_ok (pass_step x s)"
  using gone_ok [of s]
  by (cases x) (simp_all add: pass_step_def prog_simps, simp_all add: closing_ok_def senders_held_def)

lemma without_call_ok:
  assumes "closing_ok s"
  shows "closing_ok (s\<lparr>cl_checking := filter (\<lambda>c. fst c \<noteq> n) (cl_checking s)\<rparr>)"
proof -
  have "fst ` set (filter (\<lambda>c. fst c \<noteq> n) (cl_checking s)) \<subseteq> fst ` set (cl_checking s)" by auto
  with assms show ?thesis by (auto simp: closing_ok_def held_once_def senders_held_def distinct_map_filter)
qed

lemma admit_ok:
  assumes ok: "closing_ok s" and fresh: "n \<notin> fst ` set (cl_checking s)" "n \<notin> set (senders_held s)"
    and unfinished: "\<not> cl_controller_done s"
  shows "closing_ok (admit_call n q s)"
proof (cases "command_of_request q")
  case (Some d)
  have "closing_ok (s\<lparr>cl_mailbox := cl_mailbox s @ [(Some n, EvCommand d)], cl_waiting := cl_waiting s @ [n]\<rparr>)"
    if "cl_stage s \<noteq> Finished"
    using ok fresh that unfinished unfolding closing_ok_def held_once_def senders_held_def numbered_events_def
    by (simp, blast)
  with ok Some show ?thesis by (simp add: admit_call_def)
next
  case None
  with ok unfinished show ?thesis by (simp add: admit_call_def closing_ok_def senders_held_def)
qed

lemma step_ok:
  assumes ok: "closing_ok s" and step: "closing_step L l s = Some s'"
  shows "closing_ok s'"
proof (cases l)
  case (DaemonTakes w)
  with step ok take_ok show ?thesis by (auto split: list.splits if_splits)
next
  case SessionEnded
  obtain r dm where run: "on_disconnect_inner L ''daemon shutdown'' (cl_daemon s) = (r, dm)" by fastforce
  have stage: "cl_stage s = EndingSession" using step SessionEnded by (simp split: if_splits)
  have "closing_ok (daemon_gone dm s)" "closing_ok ((daemon_ran dm s)\<lparr>cl_stage := AtStep JoinTunnel\<rparr>)"
    using gone_ok [OF ok] ok stage by (auto simp: closing_ok_def senders_held_def)
  with SessionEnded step run stage show ?thesis by (cases r) auto
next
  case StepDone
  then obtain x where "cl_stage s = AtStep x" using step by (auto split: stage.splits)
  with StepDone step ok show ?thesis
    using pass_ok [OF ok, of x] by (auto split: if_splits)
next
  case (CallAdmitted n)
  then obtain c where at: "map_of (cl_checking s) n = Some c" and s': "s' =
      admit_call n c (s\<lparr>cl_checking := filter (\<lambda>c. fst c \<noteq> n) (cl_checking s)\<rparr>)"
    using step by (auto split: option.splits)
  have n: "n \<in> fst ` set (cl_checking s)" using map_of_SomeD [OF at] by force
  then have "n \<notin> set (senders_held s)" and "\<not> cl_controller_done s" using ok by (auto simp: closing_ok_def held_once_def)
  then show ?thesis unfolding s' by (intro admit_ok [OF without_call_ok [OF ok]]) (auto simp: senders_held_def)
next
  case (CallArrives n c)
  then have fresh: "n \<notin> fst ` set (cl_checking s)" "n \<notin> set (senders_held s)" "accepting s"
    and s': "s' = s\<lparr>cl_checking := cl_checking s @ [(n, c)]\<rparr>"
    using step by (auto simp: call_numbers_def senders_held_def split: if_splits)
  then have "\<not> cl_controller_done s" using ok by (auto simp: closing_ok_def held_once_def accepting_def)
  with ok fresh show ?thesis unfolding s' closing_ok_def held_once_def senders_held_def by simp
next
  case (TaskAnswers n)
  then have s': "s' = s\<lparr>cl_tasks := removeAll n (cl_tasks s), cl_waiting := removeAll n (cl_waiting s)\<rparr>"
    using step by (simp split: if_splits)
  have "held_once (map fst (cl_checking s)) (removeAll n (cl_tasks s) @ List.map_filter fst (cl_mailbox s))"
    using ok by (auto simp: closing_ok_def held_once_def senders_held_def distinct_removeAll)
  moreover have "set (removeAll n (cl_waiting s)) \<subseteq> set (removeAll n (cl_tasks s) @ List.map_filter fst (cl_mailbox s))"
    if "cl_stage s \<noteq> Finished"
    using ok that by (auto simp: closing_ok_def senders_held_def)
  ultimately show ?thesis using ok unfolding s' closing_ok_def senders_held_def by simp
next
  case NoticeForwarded
  with step ok show ?thesis
    by (auto simp: closing_ok_def senders_held_def shutdown_recv_def numbered_events_def split: if_splits)
next
  case ControllerHears
  with step ok show ?thesis
    by (auto simp: closing_ok_def senders_held_def shutdown_recv_def split: if_splits)
next
  case (OtherArrives e)
  then have e: "due e = {#}" "cl_stage s \<noteq> Finished" and s': "s' = s\<lparr>cl_mailbox := cl_mailbox s @ [(None, e)]\<rparr>"
    using step by (simp_all split: if_splits)
  show ?thesis using ok e unfolding s' closing_ok_def senders_held_def numbered_events_def by auto
next
  case SignalGiven
  with step ok show ?thesis
    by (auto simp: closing_ok_def senders_held_def signal_received_def split: if_splits)
next
  case (CallRefused n)
  with step without_call_ok [OF ok] show ?thesis by (auto split: if_splits option.splits)
next
  case (ClientLeaves n)
  have "closing_ok (drop_call n s)"
    using without_call_ok [OF ok, of n] by (auto simp: drop_call_def closing_ok_def senders_held_def)
  with ClientLeaves step show ?thesis by (auto split: if_splits)
next
  case (SenderDropped n)
  then have s': "s' = s\<lparr>cl_waiting := removeAll n (cl_waiting s)\<rparr>" using step by (simp split: if_splits)
  show ?thesis using ok unfolding s' closing_ok_def senders_held_def by (simp, blast)
next
  case (StreamEnds n)
  then have s': "s' = s\<lparr>cl_streams := removeAll n (cl_streams s)\<rparr>" using step by (simp split: if_splits)
  show ?thesis using ok unfolding s' closing_ok_def senders_held_def by simp
next
  case ControllerFinishes
  with step ok show ?thesis
    by (auto simp: accepting_def closing_ok_def senders_held_def split: if_splits)
qed

interpretation closing: weighted_system "closing_step L" own_label closing_weight closing_ok for L
  by unfold_locales (auto intro: step_ok own_step_lowers)

lemmas from_start_ok = closing.good_run [OF _ start_ok]

lemma notice_simps [simp]:
  "cl_daemon_notice (take_event L w k e s) = cl_daemon_notice s"
  "cl_daemon_notice (pass_step x s) = cl_daemon_notice s"
  "cl_daemon_notice (admit_call n c s) = cl_daemon_notice s"
  "cl_daemon_notice (drop_call n s) = cl_daemon_notice s"
  by (simp_all add: take_event_def pass_step_def admit_call_def drop_call_def prog_simps
      split: prod.split res.split option.split)

lemma step_keeps_notice:
  "closing_step L l s = Some s' \<Longrightarrow> sd_notice (cl_daemon_notice s) \<Longrightarrow> sd_notice (cl_daemon_notice s')"
  by (cases l) (auto simp: shutdown_recv_def signal_received_def
      split: if_splits option.splits list.splits prod.splits res.splits stage.splits)

lemma run_keeps_notice:
  "closing_run L ls s = Some s' \<Longrightarrow> sd_notice (cl_daemon_notice s) \<Longrightarrow> sd_notice (cl_daemon_notice s')"
  by (rule run_steps_keep) (auto intro: step_keeps_notice)

section \<open>A call that is left behind\<close>

definition left_behind :: "closing \<Rightarrow> nat \<Rightarrow> bool" where
  \<comment> \<open>its command is in the channel that nobody reads, or its stream's sender among the subscribers
     that nobody clears\<close>
  "left_behind s n \<longleftrightarrow>
     n \<in> set (cl_waiting s) \<and> queued (cl_mailbox s) n
     \<or> n \<in> set (cl_streams s) \<and> n \<in> set (cl_subscribers s) \<and> cl_stage s = AtStep JoinController"

definition before_join :: "stage \<Rightarrow> bool" where
  "before_join st \<longleftrightarrow> st \<in> AtStep ` {JoinTunnel, StopSessionService, ClearSubscribers, JoinController}"

lemma joining_progress:
  assumes ok: "closing_ok s" and notice: "sd_notice (cl_daemon_notice s)"
    and at: "cl_stage s = AtStep JoinController" and free: "\<And>n. \<not> left_behind s n"
  shows "\<exists>l. own_label l \<and> closing_step L l s \<noteq> None"
proof -
  consider (joined) "cl_controller_done s" | (checks) c where "c \<in> set (cl_checking s)"
    | (waits) n where "n \<in> set (cl_waiting s)" | (streams) n where "n \<in> set (cl_streams s)"
    | (listens) "accepting s"
    | (over) "\<not> cl_controller_done s" "cl_checking s = []" "cl_waiting s = []" "cl_streams s = []" "\<not> accepting s"
    by (metis list.set_intros(1) neq_Nil_conv)
  then show ?thesis
  proof cases
    case joined
    with at show ?thesis by (intro exI [of _ StepDone]) simp
  next
    case checks
    then have "map_of (cl_checking s) (fst c) \<noteq> None" by (simp add: map_of_eq_None_iff)
    then show ?thesis by (intro exI [of _ "CallAdmitted (fst c)"]) auto
  next
    case waits
    then have "n \<in> set (cl_tasks s)"
      using ok at free [of n] by (auto simp: closing_ok_def left_behind_def senders_held_def set_map_filter_fst)
    then show ?thesis by (intro exI [of _ "TaskAnswers n"]) simp
  next
    case streams
    then have "n \<notin> set (cl_subscribers s)" using at free [of n] by (simp add: left_behind_def)
    with streams show ?thesis by (intro exI [of _ "StreamEnds n"]) simp
  next
    case listens
    with ok notice show ?thesis
      by (intro exI [of _ ControllerHears]) (simp add: accepting_def closing_ok_def shutdown_recv_def)
  next
    case over
    then show ?thesis by (intro exI [of _ ControllerFinishes]) simp
  qed
qed

lemma closing_progress:
  assumes ok: "closing_ok s" and notice: "sd_notice (cl_daemon_notice s)" and alive: "cl_stage s \<noteq> Finished"
    and free: "cl_stage s = AtStep JoinController \<Longrightarrow> \<not> (\<exists>n. left_behind s n)"
  shows "\<exists>l. own_label l \<and> closing_step L l s \<noteq> None"
proof (cases "cl_stage s")
  case Serving
  show ?thesis
  proof (cases "cl_mailbox s")
    case Nil
    with ok Serving have "\<not> sd_shutdown (cl_daemon_notice s)" by (auto simp: closing_ok_def)
    with notice show ?thesis by (intro exI [of _ NoticeForwarded]) (simp add: shutdown_recv_def)
  next
    case (Cons e es)
    with Serving show ?thesis by (intro exI [of _ "DaemonTakes w" for w]) (cases e; simp)
  qed
next
  case EndingSession
  then show ?thesis by (intro exI [of _ SessionEnded]) simp
next
  case (AtStep x)
  show ?thesis
  proof (cases "x = JoinController")
    case True
    with joining_progress [OF ok notice] AtStep free show ?thesis by blast
  next
    case False
    with AtStep show ?thesis by (intro exI [of _ StepDone]) simp
  qed
qed (use alive in simp)

text \<open>Such a call stays where it is unless its client goes, and the daemon with it.\<close>

definition blocked :: "closing \<Rightarrow> nat \<Rightarrow> bool" where
  "blocked s n \<longleftrightarrow> left_behind s n \<and> before_join (cl_stage s)"

lemma before_join_stages:
  "before_join (AtStep x) = (x \<noteq> StopDeviceService)" "\<not> before_join Serving" "\<not> before_join EndingSession"
  "\<not> before_join Finished"
  by (cases x) (auto simp: before_join_def)

lemma admit_blocked: "blocked s n \<Longrightarrow> blocked (admit_call m q s) n"
  by (cases "command_of_request q") (auto simp: admit_call_def blocked_def left_behind_def)

lemma blocked_step:
  assumes ok: "closing_ok s" and at: "blocked s n" and step: "closing_step L l s = Some s'"
    and stays: "l \<noteq> ClientLeaves n"
  shows "blocked s' n"
proof -
  obtain x where x: "cl_stage s = AtStep x" "x \<noteq> StopDeviceService"
    using at by (cases "cl_stage s") (auto simp: blocked_def before_join_stages)
  have undone: "\<not> cl_controller_done s"
    using ok at by (auto simp: closing_ok_def blocked_def left_behind_def)
  have once: "queued (cl_mailbox s) n \<Longrightarrow> n \<notin> set (cl_tasks s)"
    using ok by (auto simp: closing_ok_def held_once_def senders_held_def set_map_filter_fst)
  show ?thesis
  proof (cases l)
    case StepDone
    with step x at undone show ?thesis
      by (cases x) (auto simp: blocked_def left_behind_def before_join_stages pass_step_def prog_simps)
  next
    case (CallAdmitted m)
    then obtain c where "s' = admit_call m c (s\<lparr>cl_checking := filter (\<lambda>c. fst c \<noteq> m) (cl_checking s)\<rparr>)"
      using step by (auto split: option.splits)
    moreover have "blocked (s\<lparr>cl_checking := filter (\<lambda>c. fst c \<noteq> m) (cl_checking s)\<rparr>) n"
      using at by (simp add: blocked_def left_behind_def)
    ultimately show ?thesis using admit_blocked by blast
  next
    case (TaskAnswers m)
    with step x at once show ?thesis by (auto simp: blocked_def left_behind_def split: if_splits)
  next
    case (SenderDropped m)
    with step x at show ?thesis by (auto simp: blocked_def left_behind_def split: if_splits)
  next
    case (StreamEnds m)
    with step x at show ?thesis by (auto simp: blocked_def left_behind_def split: if_splits)
  next
    case (ClientLeaves m)
    with step x at stays show ?thesis by (auto simp: blocked_def left_behind_def drop_call_def split: if_splits)
  next
    case ControllerFinishes
    with step x at show ?thesis by (auto simp: blocked_def left_behind_def split: if_splits)
  qed (use step x at in \<open>auto simp: blocked_def left_behind_def split: if_splits option.splits list.splits\<close>)
qed

lemma blocked_run:
  assumes "closing_run L ls s = Some s'" and "closing_ok s" and "blocked s n" and "ClientLeaves n \<notin> set ls"
  shows "blocked s' n"
proof -
  have "closing_ok s' \<and> blocked s' n"
    by (rule run_steps_keep [OF assms(1)]) (use assms in \<open>auto intro: step_ok blocked_step\<close>)
  then show ?thesis ..
qed

section \<open>The daemon that closes is the one of the loop\<close>

fun taken :: "lib \<Rightarrow> closing_label list \<Rightarrow> closing \<Rightarrow> (daemon_world \<times> daemon_event) list" where
  \<comment> \<open>the events the loop takes in a run\<close>
  "taken L [] s = []"
| "taken L (l # ls) s =
     (case (l, cl_mailbox s) of (DaemonTakes w, (k, e) # rest) \<Rightarrow> [(w, e)] | _ \<Rightarrow> [])
     @ (case closing_step L l s of Some s' \<Rightarrow> taken L ls s' | None \<Rightarrow> [])"

definition closing_steps :: "shutdown_step list" where
  "closing_steps = [JoinTunnel, StopSessionService, ClearSubscribers, JoinController, StopDeviceService]"

fun ends_at :: "lib \<Rightarrow> stage \<Rightarrow> (daemon_world \<times> daemon_event) list \<Rightarrow> daemon \<Rightarrow> daemon" where
  \<comment> \<open>what the rest of \<open>run\<close> makes of the daemon\<close>
  "ends_at L Serving es dm = snd (daemon_run L es dm)"
| "ends_at L EndingSession es dm = snd (handle_shutdown L dm)"
| "ends_at L (AtStep x) es dm =
     dm\<lparr>dm_shutdown_steps := dm_shutdown_steps dm @ dropWhile (\<lambda>y. y \<noteq> x) closing_steps\<rparr>"
| "ends_at L Finished es dm = dm"

lemma handle_shutdown_ends: "snd (handle_shutdown L dm) = (case on_disconnect_inner L ''daemon shutdown'' dm of
      (Panic m, dm') \<Rightarrow> dm'
    | (_, dm') \<Rightarrow> ends_at L (AtStep JoinTunnel) [] dm')"
  by (simp add: handle_shutdown_def closing_steps_def prog_simps split: prod.split res.split)

lemma ends_take:
  "ends_at L (cl_stage (take_event L w k e s)) es (cl_daemon (take_event L w k e s))
     = snd (daemon_run L ((w, e) # es) (cl_daemon s))" if "cl_stage s = Serving"
  using that by (simp add: take_event_def prog_simps split: prod.split res.split)

lemma ends_pass: "ends_at L (cl_stage (pass_step x s)) es (cl_daemon (pass_step x s)) = ends_at L (AtStep x) es (cl_daemon s)"
  by (cases x) (simp_all add: pass_step_def prog_simps closing_steps_def)

lemma quiet_simps [simp]:
  "cl_stage (admit_call n c s) = cl_stage s" "cl_daemon (admit_call n c s) = cl_daemon s"
  "cl_stage (drop_call n s) = cl_stage s" "cl_daemon (drop_call n s) = cl_daemon s"
  by (simp_all add: admit_call_def drop_call_def split: option.split)

lemma ends_step:
  assumes "closing_step L l s = Some s'"
  shows "ends_at L (cl_stage s') es (cl_daemon s') =
    ends_at L (cl_stage s)
      ((case (l, cl_mailbox s) of (DaemonTakes w, (k, e) # rest) \<Rightarrow> [(w, e)] | _ \<Rightarrow> []) @ es) (cl_daemon s)"
proof (cases l)
  case (DaemonTakes w)
  with assms ends_take [of "s\<lparr>cl_mailbox := r\<rparr>" L w for r] show ?thesis by (auto split: list.splits if_splits)
next
  case SessionEnded
  obtain r dm where run: "on_disconnect_inner L ''daemon shutdown'' (cl_daemon s) = (r, dm)" by fastforce
  with SessionEnded assms show ?thesis
    by (cases r) (auto simp: handle_shutdown_ends split: if_splits)
next
  case StepDone
  with assms ends_pass show ?thesis by (auto split: stage.splits if_splits)
qed (use assms in \<open>auto simp: signal_received_def split: if_splits option.splits\<close>)

lemma run_ends:
  "closing_run L ls s = Some s' \<Longrightarrow>
     ends_at L (cl_stage s') es (cl_daemon s') = ends_at L (cl_stage s) (taken L ls s @ es) (cl_daemon s)"
proof (induction ls arbitrary: s)
  case (Cons l ls)
  then obtain s1 where step: "closing_step L l s = Some s1" and rest: "closing_run L ls s1 = Some s'"
    by (auto simp: Option.bind_eq_Some_conv)
  with Cons.IH [OF rest] ends_step [OF step, of "taken L ls s1 @ es"] show ?case by simp
qed simp

section \<open>Two runs\<close>

definition quiet_closing :: "closing_label list" where
  "quiet_closing = [CallArrives 0 GetVpnStatus, CallAdmitted 0, SignalGiven, NoticeForwarded,
     DaemonTakes sample_world, DaemonTakes sample_world, ControllerHears, SessionEnded, StepDone, StepDone,
     StepDone, ControllerFinishes, StepDone, StepDone]"

definition hasty_closing :: "closing_label list" where
  "hasty_closing = [CallArrives 0 GetVpnStatus, SignalGiven, NoticeForwarded, CallAdmitted 0,
     DaemonTakes sample_world, ControllerHears, SessionEnded]"

lemma sample_ending:
  assumes "on_disconnect_inner sample_lib ''daemon shutdown'' (sample_daemon\<lparr>dm_replies := rs\<rparr>) = (r, dm)"
  shows "\<not> is_panic r"
proof -
  have "dm_ok sample_lib (sample_daemon\<lparr>dm_replies := rs\<rparr>)"
    using sample_daemon_ok by (simp add: dm_ok_def dm_inv_def)
  from disconnect_inner_calm [OF this, of "''daemon shutdown''"] assms show ?thesis by (simp add: no_panic_def)
qed

lemmas closing_run_simps = closing_start_def shutdown_new_def accepting_def call_numbers_def
  signal_received_def shutdown_recv_def admit_call_def take_event_def pass_step_def prog_simps
  daemon_ran_def List.map_filter_simps settle_call_def on_get_vpn_status_def

lemma hasty_blocks: "\<exists>s s'. closing_run sample_lib hasty_closing (closing_start sample_daemon) = Some s
     \<and> blocked s 0 \<and> closing_run sample_lib [StepDone, StepDone, StepDone] s = Some s'
     \<and> cl_stage s' = AtStep JoinController"
proof -
  obtain r dm where run: "on_disconnect_inner sample_lib ''daemon shutdown'' (sample_daemon\<lparr>dm_replies := []\<rparr>) = (r, dm)"
    by fastforce
  moreover have "sample_daemon\<lparr>dm_replies := []\<rparr> = sample_daemon" by (simp add: sample_daemon_def daemon_new_def)
  ultimately show ?thesis using sample_ending [OF run]
    by (cases r) (simp_all add: hasty_closing_def closing_run_simps blocked_def left_behind_def before_join_stages)
qed

lemma quiet_ends: "\<exists>s. closing_run sample_lib quiet_closing (closing_start sample_daemon) = Some s
     \<and> cl_stage s = Finished"
proof -
  let ?rs = "[StatusReply (Ok (vpn_status (dm_state sample_daemon)))]"
  have first: "dm_replies sample_daemon = []" by (simp add: sample_daemon_def daemon_new_def)
  obtain r dm where run: "on_disconnect_inner sample_lib ''daemon shutdown'' (sample_daemon\<lparr>dm_replies := ?rs\<rparr>) = (r, dm)"
    by fastforce
  with first sample_ending [OF run] show ?thesis
    by (cases r) (simp_all add: quiet_closing_def closing_run_simps)
qed

text \<open>A signalled daemon without calls does what is left to do.\<close>

definition idle_closing :: "closing_label list" where
  "idle_closing = [DaemonTakes sample_world, ControllerHears, SessionEnded, StepDone, StepDone, StepDone,
     ControllerFinishes, StepDone, StepDone]"

lemma idle_ends: "\<exists>s s'. closing_run sample_lib [SignalGiven, NoticeForwarded] (closing_start sample_daemon) = Some s
     \<and> sd_notice (cl_daemon_notice s) \<and> closing_run sample_lib idle_closing s = Some s' \<and> cl_stage s' = Finished"
proof -
  obtain r dm where run: "on_disconnect_inner sample_lib ''daemon shutdown'' (sample_daemon\<lparr>dm_replies := []\<rparr>) = (r, dm)"
    by fastforce
  moreover have "sample_daemon\<lparr>dm_replies := []\<rparr> = sample_daemon" by (simp add: sample_daemon_def daemon_new_def)
  ultimately show ?thesis using sample_ending [OF run]
    by (cases r) (simp_all add: idle_closing_def closing_run_simps)
qed

section \<open>Properties\<close>

text \<open>A daemon that has closed is the one its loop makes of the events it took: the composed
  process, with its calls and its shutdown, refines \<open>run\<close>, and every step of
  \<open>handle\_shutdown\<close> has been done in its order unless the session's end panicked.\<close>

lemma closing_refines_run:
  assumes "closing_run L ls (closing_start dm) = Some s" and "cl_stage s = Finished"
  shows "cl_daemon s = snd (daemon_run L (taken L ls (closing_start dm)) dm)"
  using run_ends [OF assms(1), of "[]"] assms(2) by (simp add: closing_start_def)

definition closing_over :: "closing \<Rightarrow> bool" where
  "closing_over s \<longleftrightarrow> cl_stage s = Finished \<or> cl_stage s = AtStep JoinController \<and> (\<exists>n. left_behind s n)"

lemma idle_ended:
  assumes "closing_run L ls (closing_start dm) = Some s" and "sd_notice (cl_daemon_notice s)" and "closing.idle L s"
  shows "closing_over s"
proof (rule ccontr)
  assume "\<not> closing_over s"
  then have "cl_stage s \<noteq> Finished" "cl_stage s = AtStep JoinController \<Longrightarrow> \<not> (\<exists>n. left_behind s n)"
    by (auto simp: closing_over_def)
  with closing_progress [OF from_start_ok [OF assms(1)] assms(2), of L] assms(3) show False
    by (auto simp: closing.idle_def)
qed

text \<open>C7: once the signal is given, the process does only finitely many further steps of its own,
  at most the weight of its state, whatever calls are under way; it can do them in any order, and
  where it can do no more, the daemon's task has ended, or it waits in \<open>tokio::join!\<close> for the
  controller, whose server waits for a call that the daemon left behind. Clients, servers and the
  tunnel may have done anything before.\<close>

theorem shutdown_ends_or_stalls:
  assumes "closing_run L ls (closing_start dm) = Some s" and "sd_notice (cl_daemon_notice s)"
  shows "(\<exists>own s'. closing_run L own s = Some s' \<and> list_all own_label own \<and> closing_over s')
    \<and> (\<forall>own s'. closing_run L own s = Some s' \<and> list_all own_label own \<longrightarrow>
         length own \<le> closing_weight s \<and> ((\<exists>l. own_label l \<and> closing_step L l s' \<noteq> None) \<or> closing_over s'))"
proof -
  have notice: "sd_notice (cl_daemon_notice s')" and reached: "closing_run L (ls @ own) (closing_start dm) = Some s'"
    if "closing_run L own s = Some s'" for own s'
    using run_keeps_notice [OF that assms(2)] that assms(1) by (simp_all add: run_steps_append)
  obtain own s' where "closing_run L own s = Some s'" "list_all own_label own" "closing.idle L s'"
    using closing.runs_to_idle by blast
  with idle_ended [OF reached notice] have "\<exists>own s'. closing_run L own s = Some s' \<and> list_all own_label own \<and> closing_over s'"
    by blast
  moreover have "length own \<le> closing_weight s \<and> ((\<exists>l. own_label l \<and> closing_step L l s' \<noteq> None) \<or> closing_over s')"
    if "closing_run L own s = Some s'" "list_all own_label own" for own s'
    using closing.own_run_bounded [OF that] idle_ended [OF reached notice] that
    by (fastforce simp: closing.idle_def)
  ultimately show ?thesis by blast
qed

theorem shutdown_ends_or_stalls_witness:
  "\<exists>s s'. closing_run sample_lib [SignalGiven, NoticeForwarded] (closing_start sample_daemon) = Some s
     \<and> closing_run sample_lib idle_closing s = Some s' \<and> length idle_closing \<le> closing_weight s"
proof -
  obtain s s' where run: "closing_run sample_lib [SignalGiven, NoticeForwarded] (closing_start sample_daemon) = Some s"
    and notice: "sd_notice (cl_daemon_notice s)" and own: "closing_run sample_lib idle_closing s = Some s'"
    using idle_ends by blast
  moreover have "list_all own_label idle_closing" by (simp add: idle_closing_def)
  ultimately show ?thesis using shutdown_ends_or_stalls [OF run notice] by blast
qed

text \<open>C6: a command that was queued behind the shutdown is never handled, and its sender is never
  dropped: as long as its client does not give up, the call stays, the daemon does not get past
  \<open>tokio::join!\<close>, and the process does not end. The same holds for an event stream that is
  admitted after the subscribers were cleared.\<close>

theorem left_behind_blocks_shutdown:
  assumes "closing_run L ls (closing_start dm) = Some s" and "blocked s n"
    and "closing_run L ls' s = Some s'" and "ClientLeaves n \<notin> set ls'"
  shows "left_behind s' n \<and> before_join (cl_stage s') \<and> cl_stage s' \<noteq> Finished"
  using blocked_run [OF assms(3) from_start_ok [OF assms(1)] assms(2,4)]
  by (auto simp: blocked_def before_join_stages)

theorem left_behind_blocks_shutdown_witness:
  "\<exists>s s'. closing_run sample_lib hasty_closing (closing_start sample_daemon) = Some s
     \<and> closing_run sample_lib [StepDone, StepDone, StepDone] s = Some s'
     \<and> cl_stage s' = AtStep JoinController \<and> left_behind s' 0"
proof -
  obtain s s' where run: "closing_run sample_lib hasty_closing (closing_start sample_daemon) = Some s"
    and "blocked s 0" and after: "closing_run sample_lib [StepDone, StepDone, StepDone] s = Some s'"
    and "cl_stage s' = AtStep JoinController"
    using hasty_blocks by blast
  moreover from left_behind_blocks_shutdown [OF this(1-3)] have "left_behind s' 0" by simp
  ultimately show ?thesis by blast
qed

end
