(* ===== verification/Handles.thy ===== *)
theory Handles
  imports Platform Server_Api Controller Reclaimer
begin

text \<open>
  What connects the parts: the daemon's channel (modvpn-daemon/src/daemon.rs), the handles with which
  the services and the reclaimer are started and stopped (device/handler.rs, vpn\_session/handler.rs,
  vpn\_session/reclaimer.rs), the signal handlers (shutdown.rs), the controller's client and server on
  the local socket (modvpn-controller/src/lib.rs, controller.rs, unique.rs), and the construction of the
  server's clients (modvpn-server/src/lib.rs). What sockets and the operating system answer are
  arguments.
\<close>

section \<open>The daemon's channel (daemon.rs)\<close>

record daemon_channel =
  dc_senders :: nat
  dc_queue :: "daemon_event list"
  dc_receiver :: bool

definition daemon_command_channel_new :: daemon_channel where
  "daemon_command_channel_new = \<lparr>dc_senders = 1, dc_queue = [], dc_receiver = True\<rparr>"

definition channel_sender :: "daemon_channel \<Rightarrow> daemon_channel" where
  \<comment> \<open>\<open>sender\<close>: another sender of the same channel\<close>
  "channel_sender c = c\<lparr>dc_senders := Suc (dc_senders c)\<rparr>"

definition sender_dropped :: "daemon_channel \<Rightarrow> daemon_channel" where
  "sender_dropped c = c\<lparr>dc_senders := dc_senders c - 1\<rparr>"

definition channel_send :: "daemon_event \<Rightarrow> (daemon_channel, unit, daemon_error) prog" where
  "channel_send e c = zoom dc_queue (\<lambda>q c. c\<lparr>dc_queue := q\<rparr>) (event_send (dc_receiver c) e) c"

datatype mpsc_error = ChannelClosed

definition transition_send :: "tunnel_transition \<Rightarrow> (daemon_channel, unit, mpsc_error) prog" where
  \<comment> \<open>the sender the tunnel's state machine is given: the transition becomes an event\<close>
  "transition_send tr = with_err (\<lambda>_. ChannelClosed) (channel_send (EvTunnelStateTransition tr))"

definition channel_recv :: "daemon_channel \<Rightarrow> (daemon_event option \<times> daemon_channel) option" where
  \<comment> \<open>\<open>None\<close>: it waits; an event of \<open>None\<close>: every sender is gone\<close>
  "channel_recv c = (case dc_queue c of
      e # q \<Rightarrow> Some (Some e, c\<lparr>dc_queue := q\<rparr>)
    | [] \<Rightarrow> if dc_senders c = 0 then Some (None, c) else None)"

text \<open>Sent events are received in their order. The daemon keeps a sender of its own channel, so its
  loop is never told that all senders are gone: it ends with the shutdown only.\<close>

lemma sent_is_received:
  "dc_receiver c \<Longrightarrow> channel_send e c = (Ok (), c\<lparr>dc_queue := dc_queue c @ [e]\<rparr>)"
  by (simp add: channel_send_def event_send_def prog_simps)

lemma sends_received:
  "dc_receiver c \<Longrightarrow>
     snd (serve channel_send es c :: (unit, daemon_error) res \<times> daemon_channel) = c\<lparr>dc_queue := dc_queue c @ es\<rparr>"
  by (induction es arbitrary: c) (simp_all add: prog_simps sent_is_received)

lemma own_sender_keeps_loop: "0 < dc_senders c \<Longrightarrow> channel_recv c \<noteq> Some (None, c')"
  by (simp add: channel_recv_def split: list.split)

section \<open>Signals (shutdown.rs)\<close>

datatype os_signal = CtrlC | Terminate

definition register_signal_handler :: "bool \<Rightarrow> os_signal list \<Rightarrow> shutdown_manager \<Rightarrow> shutdown_manager" where
  \<comment> \<open>whether the handlers can be installed, and the signals that arrive: the select resolves with the
     first of either kind. A handler that cannot be installed panics the task, which drops the sender:
     the channel is closed, and every \<open>recv\<close> returns\<close>
  "register_signal_handler installed sigs m =
     (if \<not> installed \<or> sigs \<noteq> [] then signal_received m else m)"

definition register_signal_handler_windows ::
    "bool \<Rightarrow> bool \<Rightarrow> os_signal list \<Rightarrow> shutdown_manager \<Rightarrow> shutdown_manager" where
  \<comment> \<open>\<open>Terminate\<close> is the value of the service's monitor, or the end of its channel. The branch that
     waits for it blocks the thread in its first poll, so ctrl-c is not seen, and the failure to install
     its handler only where its branch is polled first (the first argument)\<close>
  "register_signal_handler_windows ctrl_c_first installed sigs m =
     (if ctrl_c_first \<and> \<not> installed \<or> Terminate \<in> set sigs then signal_received m else m)"

definition shutdown_received_future :: "shutdown_manager \<Rightarrow> shutdown_manager \<times> (shutdown_manager \<Rightarrow> bool)" where
  \<comment> \<open>a subscription of its own, and whether the future is ready\<close>
  "shutdown_received_future m = (new_shutdown m, \<lambda>m'. shutdown_recv (m' ! length m) \<noteq> None)"

lemma any_signal_is_heard:
  "sigs \<noteq> [] \<Longrightarrow> s \<in> set (register_signal_handler installed sigs m) \<Longrightarrow> shutdown_recv s \<noteq> None"
  using signal_reaches_all [of m] by (auto simp: register_signal_handler_def)

text \<open>A daemon that cannot install its handlers shuts down at once; on Windows ctrl-c is lost.\<close>

lemma uninstalled_shuts_down: "s \<in> set (register_signal_handler False [] m) \<Longrightarrow> shutdown_recv s \<noteq> None"
  using signal_reaches_all [of m] by (auto simp: register_signal_handler_def)

lemma ctrl_c_lost_on_windows: "register_signal_handler_windows first True (replicate n CtrlC) m = m"
  by (simp add: register_signal_handler_windows_def)

lemma future_resolves_with_signal:
  assumes "shutdown_received_future m = (m1, ready)"
  shows "\<not> ready m1" and "ready (signal_received m1)"
  using assms by (auto simp: shutdown_received_future_def new_shutdown_def shutdown_recv_def shutdown_new_def
      signal_received_def nth_append)

section \<open>Starting and stopping the services\<close>

definition ack_result :: "'e \<Rightarrow> unit option \<Rightarrow> (unit, 'e) res" where
  \<comment> \<open>a shutdown with the sender of an acknowledgement: sending and waiting both can fail\<close>
  "ack_result down ack = (case ack of None \<Rightarrow> Err down | Some u \<Rightarrow> Ok u)"

definition device_handler_start :: "lib \<Rightarrow> db \<Rightarrow> (device_service, device_error) res \<times> db" where
  "device_handler_start L d = device_service_new L d"

definition device_handler_shutdown ::
    "lib \<Rightarrow> device_world \<Rightarrow> (device_world \<times> device_command) list
       \<Rightarrow> device_service \<Rightarrow> (unit, device_error) res \<times> device_service" where
  \<comment> \<open>behind the messages already in the channel; an earlier shutdown drops this one\<close>
  "device_handler_shutdown L w ms s = (case device_run L (ms @ [(w, DevShutdown)]) s of (r, s') \<Rightarrow>
     (ack_result DeviceServiceUnavailable
        (if r = Ok True \<and> DevShutdown \<notin> snd ` set ms then Some () else None), s'))"

definition session_handler_start :: session_service where
  "session_handler_start = session_service_new"

definition session_handler_shutdown ::
    "session_server \<Rightarrow> (session_server \<times> vpn_session_command) list
       \<Rightarrow> session_service \<Rightarrow> (unit, vpn_session_error) res \<times> session_service" where
  "session_handler_shutdown v cs s = (case session_run (cs @ [(v, ShutdownCmd)]) s of (r, s') \<Rightarrow>
     (ack_result VpnSessionServiceDown
        (if r = Ok True \<and> ShutdownCmd \<notin> snd ` set cs then Some () else None), s'))"

definition reclaimer_start :: "lib \<Rightarrow> shutdown \<Rightarrow> reclaimer_event list \<Rightarrow> (db, nat list, db_err) prog" where
  \<comment> \<open>the task the creator spawns\<close>
  "reclaimer_start L notice es = (if is_shutdown notice then ret [] else reclaimer_run L 1 es)"

text \<open>Both services acknowledge: the messages before the shutdown are handled, and the handle returns
  success.\<close>

lemma device_shutdown_acknowledged:
  assumes "\<forall>m \<in> set ms. lib_ok L \<and> server_calm L (dw_server (fst m))" and "svc_ok L s"
    and "lib_ok L" and "server_calm L (dw_server w)" and "DevShutdown \<notin> snd ` set ms"
  shows "device_handler_shutdown L w ms s = (Ok (), snd (serve (handle_device_message L) ms s))"
proof -
  have "takeWhile (\<lambda>m. snd m \<noteq> DevShutdown) (ms @ [(w, DevShutdown)]) = ms"
    using assms(5) by (subst takeWhile_append2) (auto intro: rev_image_eqI)
  moreover have "\<forall>m \<in> set (ms @ [(w, DevShutdown)]). lib_ok L \<and> server_calm L (dw_server (fst m))"
    using assms(1,3,4) by auto
  ultimately show ?thesis
    using device_run_serve [of "ms @ [(w, DevShutdown)]" L s] assms(2,5)
    by (auto simp: device_handler_shutdown_def ack_result_def)
qed

lemma session_shutdown_acknowledged:
  assumes "\<forall>c \<in> set cs. session_server_calm (fst c)" and "session_server_calm v" and "ShutdownCmd \<notin> snd ` set cs"
  shows "fst (session_handler_shutdown v cs session_handler_start) = Ok ()
     \<and> (\<forall>i. told_to_stop (snd (session_handler_shutdown v cs session_handler_start)) i)"
  using session_run_stops_all [of "cs @ [(v, ShutdownCmd)]"] assms
  by (auto simp: session_handler_shutdown_def session_handler_start_def ack_result_def split: prod.split)

section \<open>The controller on its socket (modvpn-controller/src/lib.rs)\<close>

datatype controller_error =
    TonicTransportError string
  | SecurityAttributesError string
  | IncomingConnectionError string

fun controller_error_display :: "controller_error \<Rightarrow> string" where
  \<comment> \<open>the payload is the error's own text, the pretty debug text for the errors of the socket\<close>
  "controller_error_display (TonicTransportError e) = e"
| "controller_error_display (SecurityAttributesError e) = ''security attributes error '' @ e"
| "controller_error_display (IncomingConnectionError e) = ''incoming connection error '' @ e"

record ipc_world =
  iw_connect :: "string \<Rightarrow> (unit, string) res"
  iw_allow_everyone :: "(unit, string) res"
  iw_set_mode :: "nat \<Rightarrow> (unit, string) res"
  iw_incoming :: "string \<Rightarrow> (unit, string) res"

definition new_grpc_client :: "ipc_world \<Rightarrow> config \<Rightarrow> (unit, controller_error) res" where
  "new_grpc_client w c = map_err TonicTransportError (iw_connect w (cfg_socket_path c))"

definition already_running_at :: "ipc_world \<Rightarrow> config \<Rightarrow> bool" where
  "already_running_at w c = (case new_grpc_client w c of Ok u \<Rightarrow> True | _ \<Rightarrow> False)"

definition mode_766 :: nat where
  "mode_766 = 7 * 8 ^ 2 + 6 * 8 + 6"

record grpc_server =
  gs_path :: string
  gs_mode :: nat

definition spawn_grpc_server :: "ipc_world \<Rightarrow> config \<Rightarrow> (grpc_server list, grpc_server, controller_error) prog" where
  \<comment> \<open>the state is the servers that are spawned\<close>
  "spawn_grpc_server w c =
     (let path = cfg_socket_path c in
     and_then (give (map_err SecurityAttributesError (iw_allow_everyone w))) (\<lambda>_.
     and_then (give (map_err SecurityAttributesError (iw_set_mode w mode_766))) (\<lambda>_.
     and_then (give (map_err IncomingConnectionError (iw_incoming w path))) (\<lambda>_.
     let g = \<lparr>gs_path = path, gs_mode = mode_766\<rparr> in
     and_then (writes (\<lambda>gs. gs @ [g])) (\<lambda>_. ret g)))))"

definition grpc_serve :: "string \<Rightarrow> (bool, device_error) res option \<Rightarrow> ('a, grpc_status) res \<Rightarrow> ('a, grpc_status) res" where
  \<comment> \<open>\<open>ControllerAuthLayer::new(auth)\<close> in front of the service: the device handler answers for it\<close>
  "grpc_serve path answer inner = auth_call path (is_authenticated answer) inner"

record broadcaster =
  br_subscribers :: "subscriber list"
  br_server :: grpc_server

definition controller_server_start :: "ipc_world \<Rightarrow> config \<Rightarrow> (grpc_server list, broadcaster, controller_error) prog" where
  "controller_server_start w c =
     and_then (spawn_grpc_server w c) (\<lambda>g. ret \<lparr>br_subscribers = [], br_server = g\<rparr>)"

definition controller_task :: "((unit, controller_error) res, string) res \<Rightarrow> string list" where
  \<comment> \<open>\<open>controller\_server\_handle\<close>: what it logs as an error. The outcome is inside that of the join, whose
     error is a panic of the server's task; an error of the server itself is not looked at\<close>
  "controller_task outcome = (case outcome of
      Err e \<Rightarrow> [''Controller GRPC server error: '' @ e]
    | _ \<Rightarrow> [])"

lemma server_error_not_logged: "controller_task (Ok (Err e)) = []"
  by (simp add: controller_task_def)

lemma spawn_server_run:
  "spawn_grpc_server w c gs = (case iw_allow_everyone w of
      Err e \<Rightarrow> (Err (SecurityAttributesError e), gs) | Panic m \<Rightarrow> (Panic m, gs)
    | Ok _ \<Rightarrow> (case iw_set_mode w mode_766 of
        Err e \<Rightarrow> (Err (SecurityAttributesError e), gs) | Panic m \<Rightarrow> (Panic m, gs)
      | Ok _ \<Rightarrow> (case iw_incoming w (cfg_socket_path c) of
          Err e \<Rightarrow> (Err (IncomingConnectionError e), gs) | Panic m \<Rightarrow> (Panic m, gs)
        | Ok _ \<Rightarrow> (Ok \<lparr>gs_path = cfg_socket_path c, gs_mode = mode_766\<rparr>,
            gs @ [\<lparr>gs_path = cfg_socket_path c, gs_mode = mode_766\<rparr>]))))"
  by (simp add: spawn_grpc_server_def Let_def prog_simps split: res.split)

text \<open>Everybody may write to the socket, so that clients of any user connect: the middleware is what
  guards the daemon. Without an answer of the device service only the two open calls are served.\<close>

lemma socket_mode: "mode_766 = 502" "mode_766 div 2 mod 2 = 1"
  by (simp_all add: mode_766_def)

lemma closed_without_device_service:
  "path \<notin> set ALLOWED_UNAUTHORIZED_PATHS \<Longrightarrow>
     grpc_serve path None inner = Err (status_with Unauthenticated ''please sign in first'')"
  by (simp add: grpc_serve_def auth_call_def is_authenticated_def device_send_command_def)

section \<open>Starting beside a running daemon (unique.rs, lib.rs)\<close>

fun join_path :: "string list \<Rightarrow> string" where
  "join_path [] = []"
| "join_path [x] = x"
| "join_path (x # y # ys) = x @ ''/'' @ join_path (y # ys)"

definition parent :: "string \<Rightarrow> string option" where
  \<comment> \<open>\<open>Path::parent\<close> of a path in normal form, on Unix\<close>
  "parent p =
     (if p = [] \<or> p = ''/'' then None
      else Some (if butlast (split_path p) = [[]] then ''/'' else join_path (butlast (split_path p))))"

definition resource_dir :: "string option \<Rightarrow> (string, 'e) res" where
  \<comment> \<open>the directory of the executable, as far as the system knows it\<close>
  "resource_dir exe = (case exe of
      None \<Rightarrow> Panic ''error getting current_exe path''
    | Some p \<Rightarrow> (case parent p of
        None \<Rightarrow> Panic ''cannot obtain parent path for current_exe''
      | Some d \<Rightarrow> Ok d))"

definition startup_at :: "ipc_world \<Rightarrow> string option \<Rightarrow> config \<Rightarrow> startup_world \<Rightarrow> startup_world" where
  \<comment> \<open>the steps of the start-up that meet the socket or need the executable's directory\<close>
  "startup_at w exe c su = su\<lparr>su_running := already_running_at w c,
     su_controller := map_err controller_error_display (map_ok (\<lambda>_. ()) (fst (controller_server_start w c []))),
     su_tunnel := res_bind (resource_dir exe) (\<lambda>_. su_tunnel su)\<rparr>"

lemma resource_dir_of_daemon: "resource_dir (Some ''/usr/bin/modvpn-daemon'') = Ok ''/usr/bin''"
  by (simp add: resource_dir_def parent_def)

lemma second_daemon_refused:
  "iw_connect w (cfg_socket_path c) = Ok () \<Longrightarrow>
     create_daemon L (startup_at w exe c su) s = (Err ''modvpn Daemon is already running'', s)"
  by (simp add: create_daemon_def startup_at_def already_running_def already_running_at_def
      new_grpc_client_def prog_simps)

section \<open>The clients of the server (modvpn-server/src/lib.rs)\<close>

definition BACKOFF_SECS :: nat where
  "BACKOFF_SECS = 9"

definition backed_off :: "(nat \<times> 'a) list \<Rightarrow> 'a list" where
  \<comment> \<open>\<open>backoff\<close>: the retries that start within the elapsed time; each with the second it starts at\<close>
  "backed_off as = map snd (takeWhile (\<lambda>(t, _). t \<le> BACKOFF_SECS) as)"

definition channel_with_auth ::
    "lib \<Rightarrow> channel_attempt
       \<Rightarrow> ((string option \<Rightarrow> ('a, grpc_status) res) \<Rightarrow> (db, 'a, grpc_status) prog, string) res" where
  \<comment> \<open>the channel behind the layer that adds the authorization header\<close>
  "channel_with_auth L a = map_ok (\<lambda>_. authorized_call L) (create_channel a)"

definition server_api_new ::
    "lib \<Rightarrow> channel_attempt \<Rightarrow> (nat \<times> channel_attempt) list
       \<Rightarrow> ((string option \<Rightarrow> ('a, grpc_status) res) \<Rightarrow> (db, 'a, grpc_status) prog, string) res" where
  "server_api_new L a as = retry (channel_with_auth L a) (map (channel_with_auth L) (backed_off as))"

definition server_api_no_auth_new :: "channel_attempt \<Rightarrow> (nat \<times> channel_attempt) list \<Rightarrow> (unit, string) res" where
  "server_api_no_auth_new a as = new_service_no_auth_client a (backed_off as)"

lemma retry_map_ok: "retry (map_ok f r) (map (map_ok f) rs) = map_ok f (retry r rs)"
  by (induction r rs rule: retry.induct) simp_all

text \<open>The client is the retried connection, and every call through it carries the header.\<close>

lemma server_api_new_ok:
  "server_api_new L a as = map_ok (\<lambda>_. authorized_call L) (new_service_client a (backed_off as))"
  using retry_map_ok [of "\<lambda>_. authorized_call L" "create_channel a" "map create_channel (backed_off as)"]
  by (simp add: server_api_new_def new_service_client_def channel_with_auth_def [abs_def] comp_def)

section \<open>Errors and modes of the process (lib.rs, main.rs, system\_service.rs)\<close>

fun print_error :: "string \<Rightarrow> string list \<Rightarrow> string list" where
  \<comment> \<open>what is logged for an error and the chain of its sources\<close>
  "print_error e causes = (''error: '' @ e) # map (\<lambda>c. ''caused by: '' @ c) causes"

definition service_run :: "(string \<Rightarrow> 'e \<Rightarrow> string) \<Rightarrow> (unit, 'e) res \<Rightarrow> (unit, string) res" where
  \<comment> \<open>the dispatcher of the service manager, and \<open>display\_chain\_with\_msg\<close>\<close>
  "service_run chain dispatcher = map_err (chain ''Failed to start a service dispatcher'') dispatcher"

definition run_modvpn_windows :: "bool \<Rightarrow> (unit, string) res \<Rightarrow> (unit, string) res \<Rightarrow> (unit, string) res" where
  \<comment> \<open>with the flag \<open>--service\<close> the process hands itself to the service manager\<close>
  "run_modvpn_windows service as_service inner = (if service then as_service else inner)"

end
