(* ===== verification/Interrupted.thy ===== *)
theory Interrupted
  imports Ui_Shell Cli
begin

text \<open>
  The clients when they are interrupted: a signal while the command line connects
  (modvpn-cli/src/commands/connect.rs), and a forwarder of the desktop client whose handle is dropped
  (modvpn-ui/src-tauri/src/event\_forwarder.rs).
\<close>

section \<open>A signal while connecting (connect.rs)\<close>

definition continue_message :: string where
  "continue_message =
     ''You can continue to watch status using 'modvpn status' cli or on the app.'' @ [CHR 0x0A] @
     ''To end current session use 'modvpn disconnect' cli or the app''"

definition start_signal_watch :: "string \<Rightarrow> exit_code cli_prog" where
  \<comment> \<open>what the task does at the first signal: it prints, and ends the process\<close>
  "start_signal_watch message = and_then (print_line message) (\<lambda>_. ret ExitSuccess)"

definition cli_connect_signalled :: "lib \<Rightarrow> cli_world \<Rightarrow> nat \<Rightarrow> exit_code cli_prog" where
  \<comment> \<open>the signal comes after so many events of the stream; a command that has returned by then has
     returned\<close>
  "cli_connect_signalled L w n s = (case cli_connect L (w\<lparr>cw_stream := take n (cw_stream w)\<rparr>) s of
      (Ok u, s') \<Rightarrow>
        if cli_done s' \<or> length (cw_stream w) \<le> n \<or> cw_selection w = Ok None then (Ok ExitSuccess, s')
        else start_signal_watch continue_message s'
    | (Err e, s') \<Rightarrow> (Ok (ExitFailure (cli_error_display e)), s')
    | (Panic m, s') \<Rightarrow> (Ok (ExitFailure m), s'))"

text \<open>Interrupting the command does not end the session: no request to disconnect is sent.\<close>

definition no_disconnect :: "cli \<Rightarrow> bool" where
  "no_disconnect s \<longleftrightarrow> DisconnectVpn \<notin> set (cli_requests s)"

lemma no_disconnect_effects [keeps_intros]:
  "q \<noteq> DisconnectVpn \<Longrightarrow> keeps no_disconnect (request q r)"
  "keeps no_disconnect (print_line l)"
  by (simp_all add: keeps_def no_disconnect_def request_def print_line_def prog_simps)

lemma no_disconnect_writes [keeps_intros]:
  "(\<And>s. cli_requests (f s) = cli_requests s) \<Longrightarrow> keeps no_disconnect (writes f)"
  by (simp add: keeps_def no_disconnect_def prog_simps)

lemma no_disconnect_event: "keeps no_disconnect (connect_event L w e)"
  by (cases e) (auto simp: on_status_event_def set_bar_def Let_def new_client_def
      intro!: keeps_intros split: res.split)

lemma no_disconnect_loop: "keeps no_disconnect (connect_loop L w es)"
proof (induction es)
  case (Cons e es)
  have "keeps no_disconnect (\<lambda>s. if cli_done s then (Ok (), s) else connect_loop L w es s)"
    using Cons by (auto simp: keeps_def)
  then show ?case using no_disconnect_event by (auto intro!: keeps_intros split: option.split)
qed (auto intro!: keeps_intros)

lemma no_disconnect_connect: "keeps no_disconnect (cli_connect L w)"
  unfolding cli_connect_def list_locations_def Let_def new_client_def set_bar_def
  by (auto intro!: keeps_intros no_disconnect_loop split: option.split)

lemma interrupted_keeps_session: "keeps no_disconnect (cli_connect_signalled L w n)"
  using no_disconnect_connect [of L "w\<lparr>cw_stream := take n (cw_stream w)\<rparr>"]
  by (fastforce simp: keeps_def cli_connect_signalled_def start_signal_watch_def print_line_def
      no_disconnect_def prog_simps split: prod.splits res.splits)

section \<open>Dropping a forwarder (event\_forwarder.rs)\<close>

fun cut_attempts :: "nat \<Rightarrow> nat \<Rightarrow> watch_attempt list \<Rightarrow> watch_attempt list" where
  \<comment> \<open>what the loop gets to before the abort: so many attempts, and so many events of the next\<close>
  "cut_attempts n m [] = []"
| "cut_attempts 0 m (WatchStream es # as) = [WatchStream (take m es)]"
| "cut_attempts 0 m (a # as) = []"
| "cut_attempts (Suc n) m (a # as) = a # cut_attempts n m as"

definition event_forwarder_run :: "lib \<Rightarrow> (nat \<times> nat) option \<Rightarrow> watch_attempt list \<Rightarrow> (ui_app, nat, unit) prog" where
  \<comment> \<open>the handle is dropped at that point, or it is kept\<close>
  "event_forwarder_run L dropped as = (case dropped of
      None \<Rightarrow> event_watch_loop L as
    | Some (n, m) \<Rightarrow> event_watch_loop L (cut_attempts n m as))"

text \<open>What a dropped forwarder has emitted is the beginning of what it would have emitted.\<close>

definition emits_from :: "ui_event list \<Rightarrow> ui_app \<Rightarrow> bool" where
  "emits_from es a \<longleftrightarrow> (\<exists>xs. ua_emitted a = es @ xs)"

lemma emits_forward: "keeps (emits_from es) (forward_event L e)"
  by (cases e) (auto simp: keeps_def emits_from_def emit_def update_app_state_def update_system_tray_def
      prog_simps split: res.split prod.splits)

lemma emits_stream: "keeps (emits_from es) (event_stream L evs)"
  by (induction L evs rule: event_stream.induct) (auto intro!: keeps_intros emits_forward)

lemma emits_loop: "keeps (emits_from es) (event_watch_loop L as)"
  by (induction L as rule: event_watch_loop.induct) (auto intro!: keeps_intros emits_stream)

lemma and_then_assoc: "and_then (and_then p f) g = and_then p (\<lambda>x. and_then (f x) g)"
  by (rule ext) (simp add: and_then_def split: prod.split res.split)

lemma emitted_more:
  assumes "\<And>x es. keeps (emits_from es) (f x)"
  shows "\<exists>xs. ua_emitted (snd (and_then p f a)) = ua_emitted (snd (p a)) @ xs"
proof -
  obtain r a1 where run: "p a = (r, a1)" by fastforce
  show ?thesis
  proof (cases r)
    case (Ok x)
    obtain r2 a2 where "f x a1 = (r2, a2)" by fastforce
    with keepsD [OF assms [of "ua_emitted a1" x] _ this] run Ok show ?thesis
      by (simp add: emits_from_def and_then_def)
  qed (simp_all add: run and_then_def)
qed

lemma stream_append:
  "event_stream L (es @ fs) = and_then (event_stream L es) (\<lambda>_. event_stream L fs)"
  by (induction L es rule: event_stream.induct)
    (simp_all add: and_then_assoc, simp_all add: and_then_def give_def ret_def)

lemma cut_stream:
  "\<exists>xs. ua_emitted (snd (event_stream L es a)) = ua_emitted (snd (event_stream L (take m es) a)) @ xs"
  using emitted_more [of "\<lambda>_. event_stream L (drop m es)" "event_stream L (take m es)" a]
    stream_append [of L "take m es" "drop m es"] emits_stream
  by simp

lemma emitted_ret [simp]: "snd (and_then p (\<lambda>n. ret (g n)) a) = snd (p a)"
  by (simp add: and_then_def ret_def split: prod.split res.split)

lemma snd_ret [simp]: "snd (ret x a) = a"
  by (simp add: ret_def)

lemma loop_emits: "\<exists>xs. ua_emitted (snd (event_watch_loop L as a)) = ua_emitted a @ xs"
proof -
  obtain r a1 where run: "event_watch_loop L as a = (r, a1)" by fastforce
  from keepsD [OF emits_loop [of "ua_emitted a"] _ this] show ?thesis by (simp add: emits_from_def run)
qed

lemma cut_loop:
  "\<exists>xs. ua_emitted (snd (event_watch_loop L as a)) = ua_emitted (snd (event_watch_loop L (cut_attempts n m as) a)) @ xs"
proof (induction n m as arbitrary: a rule: cut_attempts.induct)
  case (2 m es as)
  obtain xs where "ua_emitted (snd (event_stream L es a)) = ua_emitted (snd (event_stream L (take m es) a)) @ xs"
    using cut_stream [of L es a m] by blast
  with emitted_more [of "\<lambda>_. event_watch_loop L as" "event_stream L es" a] emits_loop show ?case by fastforce
next
  case (4 n m w as)
  show ?case
  proof (cases w)
    case (WatchStream es)
    obtain r a1 where run: "event_stream L es a = (r, a1)" by fastforce
    with 4 [of a1] WatchStream show ?thesis by (cases r) (simp_all add: and_then_def)
  qed (use 4 [of a] in simp_all)
qed (use loop_emits [of L] in simp_all)

lemma dropped_forwarder_emits_prefix:
  "\<exists>xs. ua_emitted (snd (event_forwarder_run L None as a))
     = ua_emitted (snd (event_forwarder_run L (Some (n, m)) as a)) @ xs"
  using cut_loop by (simp add: event_forwarder_run_def)

end
