(* ===== verification/Answering.thy ===== *)
theory Answering
  imports Daemon_Replies Guarantees
begin

text \<open>
  The answers to the clients' commands, over runs of the whole process (System): what the daemon's
  handlers send, what the tasks of modvpn-daemon/src/daemon.rs send when they run, and what is
  still owed by a task or a command in the mailbox. A run adds to the three together exactly what the
  clients ask for.
\<close>

definition outstanding :: "system \<Rightarrow> answer_kind multiset" where
  \<comment> \<open>answers sent, owed by the tasks that are spawned, and owed for the events in the mailbox\<close>
  "outstanding s = given (sy_daemon s) + sum_list (map due (sy_mailbox s))"

fun asked :: "sys_label \<Rightarrow> answer_kind multiset" where
  "asked (ClientCalls q) = (case command_of_request q of Some c \<Rightarrow> {#kind_of_command c#} | None \<Rightarrow> {#})"
| "asked a = {#}"

definition answered :: "system \<Rightarrow> answer_kind multiset" where
  \<comment> \<open>the answers that were sent\<close>
  "answered s = mset (map kind_of_reply (dm_replies (sy_daemon s)))"

definition commands_of :: "sys_label list \<Rightarrow> daemon_command list" where
  \<comment> \<open>what the clients asked for, behind the middleware\<close>
  "commands_of as = List.map_filter (\<lambda>a. case a of ClientCalls q \<Rightarrow> command_of_request q | _ \<Rightarrow> None) as"

lemma asked_commands: "sum_list (map asked as) = mset (map kind_of_command (commands_of as))"
proof (induction as)
  case (Cons a as)
  then show ?case
    by (cases a) (auto simp: commands_of_def List.map_filter_simps split: option.split)
qed (simp add: commands_of_def List.map_filter_simps)

section \<open>The tasks send what they owe\<close>

definition sent :: "answer_kind multiset \<Rightarrow> system \<Rightarrow> system \<Rightarrow> bool" where
  \<comment> \<open>answers of these kinds were sent, nothing was spawned or posted\<close>
  "sent M s s' \<longleftrightarrow> answered s' = answered s + M \<and> dm_tasks (sy_daemon s') = dm_tasks (sy_daemon s)
     \<and> sy_mailbox s' = sy_mailbox s"

definition sends :: "answer_kind multiset \<Rightarrow> (system, 'a, 'e) prog \<Rightarrow> bool" where
  "sends M p \<longleftrightarrow> (\<forall>s. sent M s (snd (p s)))"

definition returns :: "(system, 'a, 'e) prog \<Rightarrow> bool" where
  "returns p \<longleftrightarrow> (\<forall>s. \<exists>x. fst (p s) = Ok x)"

lemma sends_nothing:
  "sends {#} (ret x)"
  "sends {#} (in_db q)"
  "sends {#} (writes (\<lambda>s. s\<lparr>sy_ending := f s\<rparr>))"
  "sends {#} (device_call L w c)"
  by (auto simp: sends_def sent_def answered_def prog_simps device_call_def Let_def split: prod.split)

lemma sends_reply: "sends {#kind_of_reply r#} (sys_reply r)"
  by (simp add: sends_def sent_def answered_def sys_reply_def)

lemma sent_twice: "sent M s s1 \<Longrightarrow> sent N s1 s2 \<Longrightarrow> sent (M + N) s s2"
  by (simp add: sent_def)

lemma sends_none:
  assumes "sends {#} p" and "\<And>x. sends {#} (q x)"
  shows "sends {#} (and_then p q)"
  unfolding sends_def
proof
  fix s
  obtain r s1 where p: "p s = (r, s1)" by fastforce
  then have one: "sent {#} s s1" using assms(1) unfolding sends_def by (metis snd_conv)
  show "sent {#} s (snd (and_then p q s))"
  proof (cases r)
    case (Ok x)
    have "sent {#} s1 (snd (q x s1))" using assms(2) unfolding sends_def by blast
    from sent_twice [OF one this] Ok p show ?thesis by (simp add: and_then_def)
  qed (use one p in \<open>simp_all add: and_then_def\<close>)
qed

lemma sends_then:
  assumes "sends {#} p" and "returns p" and "\<And>x. sends M (q x)"
  shows "sends M (and_then p q)"
  unfolding sends_def
proof
  fix s
  obtain x s1 where p: "p s = (Ok x, s1)"
    using assms(2) unfolding returns_def by (metis prod.collapse)
  then have one: "sent {#} s s1" using assms(1) unfolding sends_def by (metis snd_conv)
  have "sent M s1 (snd (q x s1))" using assms(3) unfolding sends_def by blast
  from sent_twice [OF one this] p show "sent M s (snd (and_then p q s))" by (simp add: and_then_def)
qed

lemma returns_call: "returns (device_call L w c)"
  by (simp add: returns_def device_call_def split: prod.split)

lemma returns_then_ret: "returns p \<Longrightarrow> returns (and_then p (\<lambda>x. ret (f x)))"
  unfolding returns_def
proof
  fix s
  assume "\<forall>s. \<exists>x. fst (p s) = Ok x"
  then obtain x s1 where "p s = (Ok x, s1)" by (metis prod.collapse)
  then show "\<exists>y. fst (and_then p (\<lambda>x. ret (f x)) s) = Ok y" by (simp add: and_then_def)
qed

lemma handlers_send:
  "sends {#} (handler_is_authenticated L w)" "sends {#} (handler_sign_in L w c)"
  "sends {#} (handler_sign_out L w)" "sends {#} (handler_latest_app_version L w)"
  unfolding handler_defs by (intro sends_none sends_nothing)+

lemma handlers_return:
  "returns (handler_is_authenticated L w)" "returns (handler_sign_in L w c)"
  "returns (handler_sign_out L w)" "returns (handler_latest_app_version L w)"
  unfolding handler_defs by (intro returns_then_ret returns_call)+

lemma recents_return: "\<exists>rs d'. run_recent_locations L d = (Ok (LocationListReply rs), d')"
  by (simp add: run_recent_locations_def recent_def statement_def prog_simps split: list.split option.split)

lemma recents_send: "sends {#LocationsAnswer#} (and_then (in_db (run_recent_locations L)) sys_reply :: (system, unit, 'e) prog)"
  unfolding sends_def
proof
  fix s :: system
  obtain rs d where "run_recent_locations L (dm_db (sy_daemon s)) = (Ok (LocationListReply rs) :: (daemon_reply, 'e) res, d)"
    using recents_return by blast
  then show "sent {#LocationsAnswer#} s (snd ((and_then (in_db (run_recent_locations L)) sys_reply :: (system, unit, 'e) prog) s))"
    by (simp add: and_then_def zoom_def sent_def answered_def sys_reply_def)
qed

lemma answer_sends: "kind_of_reply r = k \<Longrightarrow> sends {#k#} (sys_reply r)"
  using sends_reply by blast

lemma task_sends:
  "sends (case kind_of_task t of None \<Rightarrow> {#} | Some k \<Rightarrow> {#k#}) (run_task L w t)"
proof (cases t)
  case (TaskEndSession info reason)
  then show ?thesis by (auto intro!: sends_none sends_nothing split: option.split)
qed (auto intro!: sends_none sends_nothing recents_send answer_sends
    sends_then [OF handlers_send(1) handlers_return(1)] sends_then [OF handlers_send(2) handlers_return(2)]
    sends_then [OF handlers_send(3) handlers_return(3)] sends_then [OF handlers_send(4) handlers_return(4)])


section \<open>Steps and runs\<close>

lemma mset_map_filter_split:
  "mset (List.map_filter f (ys @ x # zs)) = mset (List.map_filter f (ys @ zs))
     + (case f x of None \<Rightarrow> {#} | Some k \<Rightarrow> {#k#})"
proof -
  have append: "List.map_filter f (as @ bs) = List.map_filter f as @ List.map_filter f bs" for as bs
    by (simp add: List.map_filter_def)
  show ?thesis by (cases "f x") (simp_all add: append List.map_filter_simps)
qed

lemma given_forget:
  assumes "i < length (dm_tasks (sy_daemon s))"
  shows "given (sy_daemon s) = given (sy_daemon (forget_task i s))
    + (case kind_of_task (dm_tasks (sy_daemon s) ! i) of None \<Rightarrow> {#} | Some k \<Rightarrow> {#k#})"
  using mset_map_filter_split [of kind_of_task "take i (dm_tasks (sy_daemon s))"
      "dm_tasks (sy_daemon s) ! i" "drop (Suc i) (dm_tasks (sy_daemon s))"] assms
  by (simp add: id_take_nth_drop [symmetric] given_def forget_task_def remove_at_def ac_simps)

lemma in_db_outstanding: "in_db p s = (r, s') \<Longrightarrow> outstanding s' = outstanding s"
  by (auto simp: outstanding_def zoom_def split: prod.splits)

lemma step_outstanding:
  assumes "sys_step L a s s'" and "sy_up s'" and "\<And>w. a \<noteq> Restarts w"
  shows "outstanding s' = outstanding s + asked a"
  using assms(1)
proof cases
  case (client_calls q c)
  then show ?thesis by (simp add: outstanding_def post_def)
next
  case (tunnel_reports tr)
  then show ?thesis by (simp add: outstanding_def post_def)
next
  case (watcher_reports st)
  then show ?thesis by (simp add: outstanding_def post_def)
next
  case (daemon_handles e es w r dm)
  then have "\<not> is_panic (fst (handle_event L (w, e) (sy_daemon s)))" using assms(2) by simp
  from event_given [OF this] daemon_handles show ?thesis by (simp add: outstanding_def ac_simps)
next
  case (task_runs i w r)
  let ?t = "dm_tasks (sy_daemon s) ! i"
  have "sent (case kind_of_task ?t of None \<Rightarrow> {#} | Some k \<Rightarrow> {#k#}) (forget_task i s) s'"
    using task_sends [of ?t L w] task_runs unfolding sends_def by (metis snd_conv)
  moreover have "sy_mailbox (forget_task i s) = sy_mailbox s" by (simp add: forget_task_def)
  ultimately show ?thesis
    using given_forget [OF task_runs(3)] task_runs(1)
    by (simp add: outstanding_def sent_def given_def answered_def ac_simps split: option.splits)
next
  case (end_answered i e an r)
  with in_db_outstanding [OF end_answered(5)] show ?thesis by (simp add: outstanding_def)
next
  case (reclaimer_starts r t)
  with in_db_outstanding [OF reclaimer_starts(5)] show ?thesis by (simp add: outstanding_def)
next
  case (reclaimer_answered dev i ps e an r t)
  with in_db_outstanding show ?thesis by (simp add: outstanding_def)
qed (use assms(2,3) in auto)

lemma down_stays:
  "sys_step L a s s' \<Longrightarrow> \<not> sy_up s \<Longrightarrow> (\<And>w. a \<noteq> Restarts w) \<Longrightarrow> False"
  by (cases rule: sys_step.cases) auto

lemma run_down: "sys_run L s as s' \<Longrightarrow> \<not> sy_up s \<Longrightarrow> \<forall>w. Restarts w \<notin> set as \<Longrightarrow> \<not> sy_up s'"
  by (induction rule: sys_run.induct) (auto dest: down_stays)

lemma run_outstanding:
  "sys_run L s as s' \<Longrightarrow> sy_up s' \<Longrightarrow> \<forall>w. Restarts w \<notin> set as \<Longrightarrow>
     outstanding s' = outstanding s + sum_list (map asked as)"
proof (induction rule: sys_run.induct)
  case (run_more s a s1 as s2)
  have "sy_up s1" using run_down [OF run_more(2)] run_more.prems by auto
  with step_outstanding [OF run_more(1)] run_more show ?case by (auto simp: ac_simps)
qed simp

section \<open>Properties\<close>

text \<open>C30: every command of a client that the middleware lets through is answered exactly once, with an answer
  of the type its sender carries, by the handler itself or by the task the sender is moved into. In any
  run of the whole process in which it stays up, however events and tasks interleave and whatever the
  device service, the database and the server do: the answers sent are at no time more than the
  commands, kind by kind; and once the mailbox is empty and the spawned tasks have run, they are
  exactly those that were asked for.\<close>

theorem every_command_answered_once:
  assumes "sys_run L s as s'" and "sy_up s'" and "\<forall>w. Restarts w \<notin> set as"
    and "dm_replies (sy_daemon s) = []" and "dm_tasks (sy_daemon s) = []" and "sy_mailbox s = []"
  shows "mset (map kind_of_reply (dm_replies (sy_daemon s')))
      \<subseteq># mset (map kind_of_command (commands_of as))
    \<and> (sy_mailbox s' = [] \<and> dm_tasks (sy_daemon s') = [] \<longrightarrow>
        mset (map kind_of_reply (dm_replies (sy_daemon s'))) = mset (map kind_of_command (commands_of as)))"
proof -
  have "outstanding s = {#}" using assms(4-6) by (simp add: outstanding_def given_def)
  then have all: "outstanding s' = mset (map kind_of_command (commands_of as))"
    using run_outstanding [OF assms(1-3)] asked_commands by simp
  have "mset (map kind_of_reply (dm_replies (sy_daemon s'))) \<subseteq># outstanding s'"
    by (simp add: outstanding_def given_def)
  moreover have "outstanding s' = mset (map kind_of_reply (dm_replies (sy_daemon s')))"
    if "sy_mailbox s' = []" "dm_tasks (sy_daemon s') = []"
    using that by (simp add: outstanding_def given_def)
  ultimately show ?thesis using all by simp
qed

theorem every_command_answered_once_witness:
  "\<exists>s'. sys_run sample_lib (boot sample_daemon (Some ''t''))
       [ClientCalls GetLocations, DaemonHandles sample_world, TaskRuns 0 sample_task_world] s'
     \<and> mset (map kind_of_reply (dm_replies (sy_daemon s'))) = {#LocationsAnswer#}"
proof -
  let ?s0 = "boot sample_daemon (Some ''t'')"
  let ?s1 = "post (EvCommand CmdListLocations) ?s0"
  let ?dm = "sample_daemon\<lparr>dm_tasks := [TaskListLocations]\<rparr>"
  let ?s2 = "?s1\<lparr>sy_mailbox := [], sy_daemon := ?dm, sy_up := True\<rparr>"
  have empty: "dm_tasks sample_daemon = []" "dm_replies sample_daemon = []"
    by (simp_all add: sample_daemon_def daemon_new_def)
  have 1: "sys_step sample_lib (ClientCalls GetLocations) ?s0 ?s1"
    by (rule client_calls) (simp_all add: boot_def auth_call_def)
  have 2: "sys_step sample_lib (DaemonHandles sample_world) ?s1 (?s1\<lparr>sy_mailbox := [], sy_daemon := ?dm,
      sy_up := \<not> is_panic (Ok () :: (unit, daemon_error) res)\<rparr>)"
    by (rule daemon_handles [where e = "EvCommand CmdListLocations"])
      (simp_all add: boot_def post_def on_list_locations_dm_def prog_simps empty)
  obtain r s3 where t: "run_task sample_lib sample_task_world TaskListLocations (forget_task 0 ?s2) = (r, s3)"
    by fastforce
  have 3: "sys_step sample_lib (TaskRuns 0 sample_task_world) ?s2 s3"
    by (rule task_runs) (use t in simp_all)
  have run: "sys_run sample_lib ?s0
      [ClientCalls GetLocations, DaemonHandles sample_world, TaskRuns 0 sample_task_world] s3"
    using 1 2 3 by (auto intro: run_more run_none)
  have over: "sy_up s3" "sy_mailbox s3 = []" "dm_tasks (sy_daemon s3) = []"
    using t by (auto simp: sys_reply_def forget_task_def remove_at_def)
  have start: "dm_replies (sy_daemon ?s0) = []" "dm_tasks (sy_daemon ?s0) = []" "sy_mailbox ?s0 = []"
    by (simp_all add: boot_def empty)
  have commands: "commands_of [ClientCalls GetLocations, DaemonHandles sample_world, TaskRuns 0 sample_task_world]
      = [CmdListLocations]"
    by (simp add: commands_of_def List.map_filter_def)
  have "mset (map kind_of_reply (dm_replies (sy_daemon s3))) = mset (map kind_of_command [CmdListLocations])"
    unfolding commands [symmetric]
    by (rule every_command_answered_once [OF run over(1) _ start, THEN conjunct2, THEN mp])
      (simp, rule conjI [OF over(2,3)])
  also have "mset (map kind_of_command [CmdListLocations]) = {#LocationsAnswer#}" by simp
  finally have "mset (map kind_of_reply (dm_replies (sy_daemon s3))) = {#LocationsAnswer#}" .
  with run show ?thesis by (intro exI [of _ s3] conjI)
qed

end
