(* ===== verification/Sign_Out.thy ===== *)
theory Sign_Out
  imports Daemon Device_Service
begin

text \<open>
  A sign-out (modvpn-daemon/src/device/handler.rs) whose re-initialisation fails
  (device/storage.rs drops its result), and what it means for the daemon: the device service
  and the daemon share the table of devices.
\<close>

section \<open>The statements of the sign-out, one of which fails\<close>

lemma remove_all_at: "\<not> fails_at 0 d \<Longrightarrow> remove_all d = (Ok (), d\<lparr>tokens := [], faults := tl (faults d)\<rparr>)"
  by (cases d) (simp add: remove_all_def sql_delete_many_def statement_at prog_simps)

lemma fails_after: "fails_at n (d\<lparr>devices := x, faults := drop k (faults d)\<rparr>) = fails_at (k + n) d"
  by (auto simp: fails_at_def)

lemma delete_devices_at:
  "\<not> fails_at 0 d \<Longrightarrow> sql_delete_many device_table any_row d
     = (Ok (length (devices d)), d\<lparr>devices := [], faults := drop 1 (faults d)\<rparr>)"
  by (cases d) (simp add: sql_delete_many_def statement_at drop_Suc)

lemma no_device_at:
  "sql_one L device_table any_row (d\<lparr>devices := [], faults := drop k (faults d)\<rparr>)
     = (if fails_at k d then Err (the (hd (drop k (faults d)))) else Ok None,
        d\<lparr>devices := [], faults := drop (Suc k) (faults d)\<rparr>)"
  using fails_after [of 0 k d "[]"] by (simp add: sql_one_def statement_at drop_Suc drop_tl)

lemma insert_device_fails:
  "fails_at k d \<Longrightarrow> sql_insert device_table dev_unique_id r (d\<lparr>devices := [], faults := drop k (faults d)\<rparr>)
     = (Err (the (hd (drop k (faults d)))), d\<lparr>devices := [], faults := drop (Suc k) (faults d)\<rparr>)"
  using fails_after [of 0 k d "[]"] by (simp add: sql_insert_def statement_at drop_Suc drop_tl)

lemma reinitialize_fails:
  assumes "create_new h w = Ok dd" and "\<not> fails_at 0 d" and "fails_at 1 d \<or> fails_at 2 d"
  shows "reinitialize L h w d =
    (Ok (), d\<lparr>devices := [], faults := drop (if fails_at 1 d then 2 else 3) (faults d)\<rparr>)"
proof (cases "fails_at 1 d")
  case True
  then show ?thesis
    using delete_devices_at [OF assms(2)] no_device_at [of L 1 d]
    by (simp add: reinitialize_def device_init_def prog_simps numeral_2_eq_2 del: any_row_True)
next
  case False
  then have "fails_at 2 d" using assms(3) by simp
  from insert_device_fails [OF this] show ?thesis
    using False assms(1) delete_devices_at [OF assms(2)] no_device_at [of L 1 d]
    by (simp add: reinitialize_def device_init_def prog_simps numeral_2_eq_2 numeral_3_eq_3 del: any_row_True)
qed

lemma no_device_panics:
  assumes "devices (dm_db dm) = []" and "reliable (dm_db dm)" and "vpn_session_in_progress (dm_state dm) = None"
    and "fresh_for L w dm"
  shows "is_panic (fst (handle_event L (w, EvCommand (CmdConnect l)) dm))"
  using assms
  by (simp add: on_connect_def respond_dm_def on_connect_inner_def prog_simps fresh_for_def on_db_def
      get_device_unique_id_def)

lemma sign_out_failing:
  assumes "srv_connect (dw_server w) = Ok ()"
    and "authorized_call L (srv_sign_out (dw_server w)) (svc_db s) = (Ok (), d)"
    and "create_new (dw_host w) (dw_draw w) = Ok dd"
    and "\<not> fails_at 0 d" and "fails_at 1 d \<or> fails_at 2 d"
    and "\<not> fails_at (if fails_at 1 d then 2 else 3) d"
  shows "handle_device_message L (w, DevSignOut) s = (Ok (), s\<lparr>svc_token := None,
     svc_db := d\<lparr>devices := [], tokens := [], faults := drop (if fails_at 1 d then 3 else 4) (faults d)\<rparr>,
     svc_replies := svc_replies s @ [ReplySignOut (Ok ())]\<rparr>)"
proof -
  let ?k = "if fails_at 1 d then 2 else 3 :: nat"
  let ?d1 = "d\<lparr>devices := [], faults := drop ?k (faults d)\<rparr>"
  have "\<not> fails_at 0 ?d1" using assms(6) fails_after [of 0 ?k d "[]"] by simp
  from remove_all_at [OF this]
  have "remove_all ?d1 = (Ok (), ?d1\<lparr>tokens := [], faults := tl (faults ?d1)\<rparr>)" .
  moreover have "tl (faults ?d1) = drop (if fails_at 1 d then 3 else 4) (faults d)"
    by (simp add: tl_drop [symmetric] drop_tl drop_Suc numeral_2_eq_2 numeral_3_eq_3 eval_nat_numeral)
  ultimately show ?thesis
    using assms(1,2) reinitialize_fails [OF assms(3-5), of L]
    by (simp add: handle_sign_out_inner_def respond_def prog_simps)
qed

section \<open>Properties\<close>

text \<open>C23: a sign-out may lose the device. The server confirms it, the old device is deleted, and the
  statement that looks for a device or the one that saves the new one fails: the sign-out still replies success, the
  token is gone, and no device is left. A connect that is handled after that, with the database
  working again (one that had passed the middleware before), panics in
  the daemon's task when it asks for the device's id.\<close>

theorem sign_out_may_lose_device:
  assumes "srv_connect (dw_server w) = Ok ()"
    and "authorized_call L (srv_sign_out (dw_server w)) (svc_db s) = (Ok (), d)"
    and "create_new (dw_host w) (dw_draw w) = Ok dd"
    and "\<not> fails_at 0 d" and "fails_at 1 d \<or> fails_at 2 d"
    and "\<not> fails_at (if fails_at 1 d then 2 else 3) d"
    and "handle_device_message L (w, DevSignOut) s = (r, s')"
    and "dm_db dm = (svc_db s')\<lparr>faults := []\<rparr>" and "vpn_session_in_progress (dm_state dm) = None"
    and "fresh_for L w' dm"
  shows "r = Ok () \<and> svc_replies s' = svc_replies s @ [ReplySignOut (Ok ())] \<and> svc_token s' = None
     \<and> devices (svc_db s') = []
     \<and> is_panic (fst (handle_event L (w', EvCommand (CmdConnect l)) dm))"
proof -
  note run = sign_out_failing [OF assms(1-6), unfolded assms(7)]
  have "is_panic (fst (handle_event L (w', EvCommand (CmdConnect l)) dm))"
    by (rule no_device_panics) (use assms(8-10) run in \<open>simp_all add: reliable_def\<close>)
  with run show ?thesis by simp
qed

definition sample_failing :: device_service where
  \<comment> \<open>signed in; the fourth statement of the sign-out fails, which saves the new device\<close>
  "sample_failing = sample_service\<lparr>svc_token := Some ''t'',
     svc_db := sample_db\<lparr>faults := [None, None, None, Some RecordNotUpdated]\<rparr>\<rparr>"

theorem sign_out_may_lose_device_witness:
  "is_panic (fst (handle_event sample_lib (sample_world, EvCommand (CmdConnect sample_location))
     (sample_daemon\<lparr>dm_db := (svc_db (snd (handle_device_message sample_lib (sample_device_world, DevSignOut)
        sample_failing)))\<lparr>faults := []\<rparr>\<rparr>)))"
proof -
  let ?d = "sample_db\<lparr>faults := [None, None, Some RecordNotUpdated]\<rparr>"
  obtain dd where dd: "create_new (dw_host sample_device_world) (dw_draw sample_device_world) = Ok dd"
    using create_new_Ok_iff [of sample_host "dw_draw sample_device_world"]
    by (auto simp: sample_host_def sample_device_world_def)
  have conn: "srv_connect (dw_server sample_device_world) = Ok ()" by (simp add: sample_device_world_def)
  have call: "authorized_call sample_lib (srv_sign_out (dw_server sample_device_world)) (svc_db sample_failing)
      = (Ok (), ?d)"
    by (simp add: sample_failing_def sample_service_def sample_device_world_def authorized_call_def
        authorization_def bearer_token_def get_token_def sql_one_def statement_def prog_simps)
  have faults: "\<not> fails_at 0 ?d" "fails_at 1 ?d \<or> fails_at 2 ?d" "\<not> fails_at (if fails_at 1 ?d then 2 else 3) ?d"
    by (simp_all add: fails_at_def)
  obtain r s' where run: "handle_device_message sample_lib (sample_device_world, DevSignOut) sample_failing = (r, s')"
    by fastforce
  have sessions: "vpn_sessions (svc_db s') = []"
    using sign_out_failing [OF conn call dd faults] run by auto
  show ?thesis
    using sign_out_may_lose_device [OF conn call dd faults run, of
        "sample_daemon\<lparr>dm_db := (svc_db s')\<lparr>faults := []\<rparr>\<rparr>" sample_world sample_location] run sessions
    by (simp add: fresh_for_def vpn_session_in_progress_def ds_new_def)
qed

end
