(* ===== verification/Spec2Isabelle.thy ===== *)
theory Spec2Isabelle
  imports Daemon Daemon_Replies Controller Device_Service Session_Service Watcher Reclaimer
    Tunnel_Params Locations Token_Storage Server_Api Lifecycle Cli Ui Guarantees Watching Progress
    End_To_End System_Service Schema Platform Ui_Shell Closing Handles Interrupted Answering Sign_Out
begin

text \<open>
  MoDVPN: a VPN client for desktops. A daemon runs as root (or as a Windows service), keeps the state
  of the one VPN session and the tunnel, and talks to a central server; a command line program and
  a desktop window talk to the daemon over a local socket. The theories model the Rust crates
  under src/, translated function by function; a theory's introduction names its files.

  \<^bold>\<open>The parts and how they interact.\<close>
  A client (modvpn-cli, modvpn-ui) sends a gRPC request. The middleware of modvpn-controller/src/auth.rs
  asks the device service whether the device is signed in; modvpn-daemon/src/controller.rs turns the
  request into a command in the daemon's channel and the answer into a response. The daemon's task
  (daemon.rs) takes one event at a time from that channel: a client's command, a status of the session
  sent by a watcher, a transition of the tunnel, or the shutdown. It answers, broadcasts to the
  subscribed clients, commands the tunnel, and spawns tasks for what should not block it. The
  session service (vpn_session/handler.rs) talks to the server (modvpn-server) and spawns a watcher
  (watcher.rs) per accepted session; the device service (device/handler.rs) signs the device in and
  out; the reclaimer (reclaimer.rs) ends, once a minute, the sessions that are marked for deletion.
  All of them share one SQLite database (modvpn-migration, modvpn-entity).

  \<^bold>\<open>Where each part is.\<close>
  \<^item> Prelude: results of fallible code (\<open>Ok\<close>, \<open>Err\<close>, and \<open>Panic\<close> for unwrap, expect, panic! and
    todo!), programs that pass a state on a branch of each, the loop \<open>serve\<close> of a task over the list
    of messages it receives, and the locales \<open>actor\<close>, \<open>calm_actor\<close> (a loop keeps an invariant; does
    not panic) and \<open>keyed_store\<close> (laws of a map).
  \<^item> Net, Externals, Types, Entity, Wire: values and conversions. IPv4 addresses are 32-bit words with
    the parser of the standard library; the types of modvpn-types; the rows of modvpn-entity; the
    messages of modvpn-controller and modvpn-server with every \<open>unwrap\<close> of a decoder. The record
    \<open>lib\<close> holds the third-party functions (uuid, chrono, keys); \<open>lib_ok\<close> is that a value printed by
    them parses back.
  \<^item> Db: tables as lists of rows, the statements the program issues, and the list \<open>faults\<close> that decides
    in advance which statement fails. Schema: the tables the migrations create.
  \<^item> Session_Storage, Device, Token_Storage, Locations: the storages over that database
    (vpn_session/storage.rs, device/, token_storage.rs, location_storage.rs).
  \<^item> Daemon_State, Daemon, Daemon_Replies: state.rs and daemon.rs. \<open>daemon\<close> is the struct with what it
    has sent so far; \<open>handle_event\<close> is one turn of the loop, \<open>daemon_task\<close> a spawned task.
  \<^item> Watcher, Session_Service, Server_Api, Device_Service, Reclaimer, Tunnel_Params: the other tasks, the
    client of the server and the parameters of the tunnel (tunnel.rs).
  \<^item> Controller: the gRPC service and the middleware. Cli and Ui: the two clients.
  \<^item> Lifecycle and System_Service: start-up and shutdown (lib.rs, main.rs, db.rs, unique.rs, shutdown.rs)
    and the Windows service (system_service.rs). Platform: logging.rs, macos.rs, cleanup.rs and what
    surrounds the daemon's task. Closing: how the daemon closes while calls are under way, as a
    labelled transition function whose labels resolve what scheduler and clients choose. Handles: the
    daemon's channel, the handles that start and stop the services, the signal handlers, the server and the
    client of the controller's socket, the clients of the server. Interrupted: a signal at the command
    line, a forwarder of the desktop client that is dropped. Config: modvpn-config. Ui_Shell: window, menu
    and files of the client.
  \<^item> System, Guarantees: the whole process as a labelled step relation, with the server's answers in
    the labels, and what holds of its runs. Process: the same with the session service and its watchers
    in it, where only the server itself is left open; each of its steps is at most one of System's, so
    that what holds there is carried over (\<open>run_refines\<close>). Ending, Watching, Progress: what holds of its runs.
    Answering: the answers to the commands. Sign\_Out: a sign-out that fails half-way, and the connect after it. End_To_End: one request through all conversions and tasks.

  \<^bold>\<open>What the theorems show.\<close>
  \<^item> The whole process (Process, Guarantees, Watching, Progress): in every run, with any interleaving,
    any failing statement, crashes and restarts, a session in the table stays there until a watcher has
    seen it failed or ended, a task was told that it has ended, or the reclaimer got any answer of the
    server about it, an error status included; an ended session does not become live again; a live session the
    server has accepted is watched, until the watcher has seen a final status or the client has
    connected; what is marked can be cleared away, while a device is stored; the database stays readable
    and consistent, and the device service alive, as long as the server's answers to it decode.
    Two theorems exhibit runs that go wrong: sign-out races with connect (Guarantees), and a sign-out
    that loses the device (Sign\_Out).
  \<^item> The shutdown (Closing): after the signal the process ends after a bounded number of its own steps, or
    waits for ever for a call it left behind, and does so exactly as long as the client stays.
  \<^item> Each event of the daemon: its effect on every branch (accepted, refused, failed, disconnect,
    server status), that commands never panic, and exactly which transitions of the tunnel do, whatever
    fails. Over runs of the process, with the spawned tasks in it, every command is answered exactly once
    (Answering).
  \<^item> The table of sessions refines, operation by operation, a registry of the ids that are live or
    marked (\<open>registry_step\<close>; the laws of the locale \<open>session_registry\<close>), and an operation that fails at
    any statement leaves it as it was (\<open>atomic\<close>).
  \<^item> Watchers send the statuses without repetitions up to the first final one, and end exactly on the
    causes listed there; there is at most one per request; the reclaimer deletes exactly what the
    server has settled.
  \<^item> What the server announced is what the tunnel gets; recent locations refine a list without
    duplicates; sign-in and sign-out have their effect.
  \<^item> The clients: the bar and the tray follow what the daemon broadcasts; every open stream receives the
    broadcasts, which survive their encoding; exactly two calls are served without authentication.
  \<^item> The environment: start-up in order, reports and checkpoints of the Windows service, migrations
    that can be resumed after any failure.

  \<^bold>\<open>Laws and automation.\<close>
  A contract of several operations is a locale, interpreted on the model: \<open>sql_table\<close> for the four
  tables, \<open>codec\<close> for enumerations, \<open>kept_store\<close> and \<open>kept_system\<close> (if every operation of the storages
  keeps an invariant, so do the daemon and the process), \<open>row_law\<close> (a property of the rows that
  survives adding, growing and permitted deletion; a sublocale of \<open>kept_system\<close>), \<open>weighted_system\<close>
  (steps of its own lower a weight: finitely many lead to an idle state; interpreted in Closing). The named
  collection \<open>keeps_intros\<close> carries the proofs that a program keeps an invariant.

  \<^bold>\<open>Bounds.\<close>
  There is no fuel. A loop of a task runs over the list of the messages, ticks or answers it will
  receive, so every definition is total; retries are the list of the outcomes of the attempts (the
  source bounds them by time). Integers keep their width where they are stored or compared
  (addresses, ports, the checkpoint counter); ids that SQLite draws are naturals.

  \<^bold>\<open>Assumptions.\<close>
  They are named in the statements: \<open>lib_ok\<close> and \<open>uuid_ok\<close> (printing and parsing of uuids, times and keys
  agree), \<open>wire_ok\<close> and \<open>server_behaves\<close> (the server's messages decode, its tokens are
  header values), \<open>reliable\<close> (no statement fails) where failures matter, and that an id is not
  drawn twice. In Closing the gRPC server's graceful shutdown is taken as documented: it stops taking
  calls when its signal resolves, and returns when the calls it has taken have ended. In System and Process a step is one event of the daemon, one message of the device
  service, one tick of a watcher, or what a task does between two answers; statements of other tasks do
  not fall between two statements of such a step. In System the watchers appear through the statuses
  they send, which are arbitrary; in Process a message to the session service is taken when it is
  sent, and its answer to a request to end a session comes in a step of its own.

  \<^bold>\<open>Not modelled.\<close>
  The tunnel's state machine (talpid), gRPC, sockets, tower and the generated messages: libraries,
  seen through what they deliver. The tokio runtime, tauri, the window itself (in
  TypeScript), and clap: calls of the platform without logic of the program. What is only logged is
  left out, apart from the texts of the errors. In modvpn-config the merge of files and environment is
  a parameter. Time: waits are events or values, and timestamps are arguments.
\<close>

end
